(* ===== verification/Prelude.thy ===== *)
theory Prelude
  imports Main "HOL-Library.Word" "HOL-Library.State_Monad" "HOL-Library.Char_ord"
    "HOL-Library.List_Lexorder"
begin

text \<open>
  The vocabulary every component shares: Go's \<open>error\<close> values, the early-return idioms of Go as
  combinators of the state monad of \<^theory_text>\<open>HOL-Library.State_Monad\<close>, a small Hoare logic for
  programs in that monad, and the bounded retry loop \<^verbatim>\<open>retry.RetryOnConflict\<close> that the
  controllers wrap around every optimistic update of an API object.
\<close>

section \<open>Errors\<close>

text \<open>
  A Go \<open>error\<close> is a value of \<open>err\<close>; a nil error is \<open>None\<close> or \<open>Inr\<close>. The constructors are the
  errors the sources build and inspect: the API server's status errors with their reason, the
  operating system's errors (\<open>OsNotExist\<close> is the one \<^verbatim>\<open>os.IsNotExist\<close> recognises), plain
  messages, errors wrapped with \<^verbatim>\<open>%w\<close> and errors joined by \<^verbatim>\<open>errors.Join\<close>.
\<close>

datatype reason = RNotFound | RConflict | RAlreadyExists | RTooManyRequests | ROther

datatype err =
    Plain string
  | ApiErr reason string
  | OsNotExist string
  | OsFail string
  | Wrap string err
  | Joined "err list"

type_synonym 'a res = "err + 'a"

text \<open>The text \<^verbatim>\<open>Error()\<close> returns: \<^verbatim>\<open>fmt.Errorf("m: %w", e)\<close> is \<open>Wrap m e\<close>.\<close>

fun intersperse_lines :: "string list \<Rightarrow> string" where
  "intersperse_lines [] = []"
| "intersperse_lines [x] = x"
| "intersperse_lines (x # xs) = x @ [CHR 10] @ intersperse_lines xs"

fun err_text :: "err \<Rightarrow> string" where
  "err_text (Plain m) = m"
| "err_text (ApiErr r m) = m"
| "err_text (OsNotExist m) = m"
| "err_text (OsFail m) = m"
| "err_text (Wrap m e) = m @ '': '' @ err_text e"
| "err_text (Joined es) = intersperse_lines (map err_text es)"

text \<open>
  \<^verbatim>\<open>apierrors.ReasonForError\<close> searches the wrapped errors depth first (\<^verbatim>\<open>errors.As\<close>) for a
  status error.
\<close>

fun reason_of :: "err \<Rightarrow> reason option" and reason_of_list :: "err list \<Rightarrow> reason option" where
  "reason_of (ApiErr r m) = Some r"
| "reason_of (Wrap m e) = reason_of e"
| "reason_of (Joined es) = reason_of_list es"
| "reason_of _ = None"
| "reason_of_list [] = None"
| "reason_of_list (e # es) =
     (case reason_of e of Some r \<Rightarrow> Some r | None \<Rightarrow> reason_of_list es)"

definition is_not_found :: "err \<Rightarrow> bool" where
  "is_not_found e \<longleftrightarrow> reason_of e = Some RNotFound"

definition is_conflict :: "err \<Rightarrow> bool" where
  "is_conflict e \<longleftrightarrow> reason_of e = Some RConflict"

definition is_already_exists :: "err \<Rightarrow> bool" where
  "is_already_exists e \<longleftrightarrow> reason_of e = Some RAlreadyExists"

text \<open>\<^verbatim>\<open>os.IsNotExist\<close> looks at the error itself and does not unwrap \<^verbatim>\<open>fmt\<close> wrappers.\<close>

fun os_is_not_exist :: "err \<Rightarrow> bool" where
  "os_is_not_exist (OsNotExist _) = True"
| "os_is_not_exist _ = False"

text \<open>\<^verbatim>\<open>client.IgnoreNotFound\<close>: nil for a NotFound error, the error itself otherwise.\<close>

definition ignore_not_found :: "err \<Rightarrow> err option" where
  "ignore_not_found e = (if is_not_found e then None else Some e)"

text \<open>\<^verbatim>\<open>errors.Join\<close> over a slice of non-nil errors: nil exactly for the empty slice.\<close>

definition errors_join :: "err list \<Rightarrow> err option" where
  "errors_join es = (if es = [] then None else Some (Joined es))"

text \<open>\<^verbatim>\<open>errors.Join(a, b, ...)\<close> discards the nil ones.\<close>

definition join_opts :: "err option list \<Rightarrow> err option" where
  "join_opts os = errors_join (List.map_filter id os)"

lemma errors_join_None [simp]: "errors_join es = None \<longleftrightarrow> es = []"
  by (simp add: errors_join_def)

lemma errors_join_is_Some [simp]: "(\<exists>e. errors_join es = Some e) \<longleftrightarrow> es \<noteq> []"
  by (auto simp: errors_join_def)

lemma join_opts_None: "join_opts os = None \<longleftrightarrow> (\<forall>e \<in> set os. e = None)"
  by (induction os) (auto simp: join_opts_def List.map_filter_def split: option.splits)

lemma is_conflict_simps [simp]:
  "is_conflict (ApiErr r m) \<longleftrightarrow> r = RConflict"
  "is_conflict (Wrap m e) \<longleftrightarrow> is_conflict e"
  "\<not> is_conflict (Plain m)"
  "\<not> is_conflict (OsFail m)"
  "\<not> is_conflict (OsNotExist m)"
  by (auto simp: is_conflict_def)

lemma is_not_found_simps [simp]:
  "is_not_found (ApiErr r m) \<longleftrightarrow> r = RNotFound"
  "is_not_found (Wrap m e) \<longleftrightarrow> is_not_found e"
  "\<not> is_not_found (Plain m)"
  "\<not> is_not_found (OsFail m)"
  "\<not> is_not_found (OsNotExist m)"
  by (auto simp: is_not_found_def)

lemma is_already_exists_simps [simp]:
  "is_already_exists (ApiErr r m) \<longleftrightarrow> r = RAlreadyExists"
  "is_already_exists (Wrap m e) \<longleftrightarrow> is_already_exists e"
  "\<not> is_already_exists (Plain m)"
  by (auto simp: is_already_exists_def)

section \<open>The state monad and Go's early returns\<close>

abbreviation ret :: "'a \<Rightarrow> ('s, 'a) state" where
  "ret \<equiv> State_Monad.return"

text \<open>
  \<^verbatim>\<open>x, err := m; if err != nil { return ..., wrap(err) }\<close> in a function that returns a value and
  an error, and the same for a callee that returns only an error.
\<close>

definition or_return :: "('s, 'a res) state \<Rightarrow> (err \<Rightarrow> err) \<Rightarrow> ('a \<Rightarrow> ('s, 'b res) state) \<Rightarrow>
    ('s, 'b res) state" where
  "or_return m wrap k = do {
     r \<leftarrow> m;
     (case r of Inl e \<Rightarrow> ret (Inl (wrap e)) | Inr x \<Rightarrow> k x)
   }"

definition check :: "('s, err option) state \<Rightarrow> (err \<Rightarrow> err) \<Rightarrow> ('s, 'b res) state \<Rightarrow>
    ('s, 'b res) state" where
  "check m wrap k = do {
     e \<leftarrow> m;
     (case e of Some x \<Rightarrow> ret (Inl (wrap x)) | None \<Rightarrow> k)
   }"

text \<open>The same two idioms in a function that returns only an error.\<close>

definition or_fail :: "('s, 'a res) state \<Rightarrow> (err \<Rightarrow> err) \<Rightarrow> ('a \<Rightarrow> ('s, err option) state) \<Rightarrow>
    ('s, err option) state" where
  "or_fail m wrap k = do {
     r \<leftarrow> m;
     (case r of Inl e \<Rightarrow> ret (Some (wrap e)) | Inr x \<Rightarrow> k x)
   }"

definition check_fail :: "('s, err option) state \<Rightarrow> (err \<Rightarrow> err) \<Rightarrow> ('s, err option) state \<Rightarrow>
    ('s, err option) state" where
  "check_fail m wrap k = do {
     e \<leftarrow> m;
     (case e of Some x \<Rightarrow> ret (Some (wrap x)) | None \<Rightarrow> k)
   }"

lemma run_or_return [simp]:
  "run_state (or_return m wrap k) s =
     (case run_state m s of (Inl e, s') \<Rightarrow> (Inl (wrap e), s') | (Inr x, s') \<Rightarrow> run_state (k x) s')"
  by (simp add: or_return_def split: prod.splits sum.splits)

lemma run_check [simp]:
  "run_state (check m wrap k) s =
     (case run_state m s of (Some e, s') \<Rightarrow> (Inl (wrap e), s') | (None, s') \<Rightarrow> run_state k s')"
  by (simp add: check_def split: prod.splits option.splits)

lemma run_or_fail [simp]:
  "run_state (or_fail m wrap k) s =
     (case run_state m s of (Inl e, s') \<Rightarrow> (Some (wrap e), s') | (Inr x, s') \<Rightarrow> run_state (k x) s')"
  by (simp add: or_fail_def split: prod.splits sum.splits)

lemma run_check_fail [simp]:
  "run_state (check_fail m wrap k) s =
     (case run_state m s of (Some e, s') \<Rightarrow> (Some (wrap e), s') | (None, s') \<Rightarrow> run_state k s')"
  by (simp add: check_fail_def split: prod.splits option.splits)

section \<open>A Hoare logic for the state monad\<close>

text \<open>
  \<open>valid P m Q\<close>: started in a state satisfying \<open>P\<close>, \<open>m\<close> ends with a result and a state satisfying
  \<open>Q\<close>. Programs of the monad are total, so this is total correctness. The rules below are collected
  in \<open>hoare\<close>; a component adds the rules of its own operations to the collection.
\<close>

definition valid :: "('s \<Rightarrow> bool) \<Rightarrow> ('s, 'a) state \<Rightarrow> ('a \<Rightarrow> 's \<Rightarrow> bool) \<Rightarrow> bool" where
  "valid P m Q \<longleftrightarrow> (\<forall>s. P s \<longrightarrow> (case run_state m s of (r, s') \<Rightarrow> Q r s'))"

named_theorems hoare \<open>introduction rules of the Hoare logic\<close>

lemma validD: "valid P m Q \<Longrightarrow> P s \<Longrightarrow> run_state m s = (r, s') \<Longrightarrow> Q r s'"
  by (auto simp: valid_def)

lemma validI: "(\<And>s r s'. P s \<Longrightarrow> run_state m s = (r, s') \<Longrightarrow> Q r s') \<Longrightarrow> valid P m Q"
  by (auto simp: valid_def split: prod.split)

lemma valid_ret [hoare]: "(\<And>s. P s \<Longrightarrow> Q x s) \<Longrightarrow> valid P (ret x) Q"
  by (simp add: valid_def)

lemma valid_bind [hoare]:
  assumes "valid P m R" and "\<And>x. valid (R x) (f x) Q"
  shows "valid P (State_Monad.bind m f) Q"
  using assms by (fastforce simp: valid_def split: prod.splits)

lemma valid_conseq:
  assumes "valid P' m Q'" and "\<And>s. P s \<Longrightarrow> P' s" and "\<And>r s. Q' r s \<Longrightarrow> Q r s"
  shows "valid P m Q"
  using assms by (fastforce simp: valid_def split: prod.splits)

lemma valid_if [hoare]:
  assumes "b \<Longrightarrow> valid P m Q" and "\<not> b \<Longrightarrow> valid P n Q"
  shows "valid P (if b then m else n) Q"
  using assms by simp

lemma valid_case_option [hoare]:
  assumes "x = None \<Longrightarrow> valid P m Q" and "\<And>y. x = Some y \<Longrightarrow> valid P (f y) Q"
  shows "valid P (case x of None \<Rightarrow> m | Some y \<Rightarrow> f y) Q"
  using assms by (cases x) auto

lemma valid_case_sum [hoare]:
  assumes "\<And>e. x = Inl e \<Longrightarrow> valid P (f e) Q" and "\<And>y. x = Inr y \<Longrightarrow> valid P (g y) Q"
  shows "valid P (case x of Inl e \<Rightarrow> f e | Inr y \<Rightarrow> g y) Q"
  using assms by (cases x) auto

lemma valid_case_prod [hoare]:
  assumes "\<And>a b. x = (a, b) \<Longrightarrow> valid P (f a b) Q"
  shows "valid P (case x of (a, b) \<Rightarrow> f a b) Q"
  using assms by (cases x) auto

lemma valid_let [hoare]: "valid P (f x) Q \<Longrightarrow> valid P (let y = x in f y) Q"
  by simp

section \<open>retry.RetryOnConflict\<close>

text \<open>
  \<^verbatim>\<open>wait.ExponentialBackoff\<close> calls the function at most \<open>Steps\<close> times; \<^verbatim>\<open>retry.OnError\<close> tries
  again only on a conflict and returns the last conflict when the steps are used up. The sleeping
  between two attempts has no effect the callers can see and is left out.
  \<^verbatim>\<open>retry.DefaultBackoff\<close> has 4 steps.
\<close>

fun retry_on_conflict :: "nat \<Rightarrow> ('s, err option) state \<Rightarrow> ('s, err option) state" where
  "retry_on_conflict 0 f = ret (Some (Plain ''timed out waiting for the condition''))"
| "retry_on_conflict (Suc 0) f = f"
| "retry_on_conflict (Suc n) f = do {
     e \<leftarrow> f;
     (case e of
        None \<Rightarrow> ret None
      | Some x \<Rightarrow> if is_conflict x then retry_on_conflict n f else ret (Some x))
   }"

definition default_backoff_steps :: nat where
  "default_backoff_steps = 4"

definition RetryOnConflict :: "('s, err option) state \<Rightarrow> ('s, err option) state" where
  "RetryOnConflict f = retry_on_conflict default_backoff_steps f"

text \<open>
  What holds after one attempt holds after the retry loop, provided that an attempt that ended in a
  conflict leaves a state from which the next attempt may start.
\<close>

lemma valid_retry_on_conflict:
  assumes f: "valid P f Q" and again: "\<And>x s. Q (Some x) s \<Longrightarrow> is_conflict x \<Longrightarrow> P s"
  shows "valid P (retry_on_conflict (Suc n) f) Q"
proof (induction n)
  case 0
  show ?case using f by simp
next
  case (Suc n)
  show ?case
    unfolding retry_on_conflict.simps
  proof (rule valid_bind[OF f], rule valid_case_option)
    fix x :: "err option" and y assume "x = Some y"
    then show "valid (Q x) (if is_conflict y then retry_on_conflict (Suc n) f else ret (Some y)) Q"
      by (auto intro!: valid_if valid_ret valid_conseq[OF Suc.IH] dest: again)
  qed (auto intro: valid_ret)
qed

lemma valid_RetryOnConflict [hoare]:
  assumes "valid P f Q" and "\<And>x s. Q (Some x) s \<Longrightarrow> is_conflict x \<Longrightarrow> P s"
  shows "valid P (RetryOnConflict f) Q"
  using valid_retry_on_conflict[OF assms, where n = 3]
  by (simp add: RetryOnConflict_def default_backoff_steps_def numeral_eq_Suc)

text \<open>An attempt that does not end in a conflict ends the loop.\<close>

lemma RetryOnConflict_done:
  assumes "run_state f s = (r, s')" and "\<And>x. r = Some x \<Longrightarrow> \<not> is_conflict x"
  shows "run_state (RetryOnConflict f) s = (r, s')"
  using assms
  by (cases r) (auto simp: RetryOnConflict_def default_backoff_steps_def numeral_eq_Suc)

end
