(* ===== verification/ApiTypes.thy ===== *)
theory ApiTypes
  imports GoStrings "HOL-Library.AList"
begin

text \<open>
  The data of the program: the custom resources of \<^verbatim>\<open>api/common/v1\<close> and
  \<^verbatim>\<open>api/freebsd/v1\<close> as records with the fields of the Go structs, the Kubernetes objects the
  controllers touch (Node, Pod, Lease, Secret, ConfigMap), and instants and durations.

  A Go map from strings is an association list (\<open>smap\<close>) read with \<open>map_of\<close>; its order is the order in
  which a \<^verbatim>\<open>range\<close> loop happens to visit it. A pointer field that may be nil is an \<open>option\<close>.
\<close>

type_synonym 'v smap = "(string \<times> 'v) list"

section \<open>Instants and durations\<close>

text \<open>
  A \<^verbatim>\<open>time.Time\<close> is its number of nanoseconds since the Unix epoch; \<^verbatim>\<open>time.Time{}\<close> is the first
  instant of the year 1. A \<^verbatim>\<open>time.Duration\<close> is a number of nanoseconds in 64 bits, and
  \<^verbatim>\<open>Time.Sub\<close> saturates at the ends of that range.
\<close>

type_synonym instant = int
type_synonym duration = int

definition zero_time :: instant where
  "zero_time = - 62135596800000000000"

definition second :: duration where
  "second = 1000000000"

definition time_sub :: "instant \<Rightarrow> instant \<Rightarrow> duration" where
  "time_sub a b = max (- (2 ^ 63)) (min (2 ^ 63 - 1) (a - b))"

lemma time_sub_less: "0 < d \<Longrightarrow> d < 2 ^ 63 \<Longrightarrow> time_sub a b < d \<longleftrightarrow> a - b < d"
  by (auto simp: time_sub_def)

lemma time_sub_less_neg: "a \<le> b \<Longrightarrow> 0 < d \<Longrightarrow> time_sub a b < d"
  by (auto simp: time_sub_def)

section \<open>Object metadata and conditions\<close>

record object_meta =
  om_name :: string
  om_namespace :: string
  om_labels :: "string smap"
  om_annotations :: "string smap"
  om_resourceVersion :: string
  om_generation :: int
  om_finalizers :: "string list"
  om_deletionTimestamp :: "instant option"

record nsname =
  ns_namespace :: string
  ns_name :: string

datatype cond_status = CondTrue | CondFalse | CondUnknown

record condition =
  c_type :: string
  c_status :: cond_status
  c_reason :: string
  c_message :: string
  c_lastTransition :: instant
  c_observedGeneration :: int

text \<open>\<^verbatim>\<open>meta.FindStatusCondition\<close> and \<^verbatim>\<open>meta.SetStatusCondition\<close>; \<open>now\<close> is the clock reading the
  latter takes when the new condition carries no transition time.\<close>

fun FindStatusCondition :: "condition list \<Rightarrow> string \<Rightarrow> condition option" where
  "FindStatusCondition [] t = None"
| "FindStatusCondition (c # cs) t = (if c_type c = t then Some c else FindStatusCondition cs t)"

definition merge_condition :: "instant \<Rightarrow> condition \<Rightarrow> condition \<Rightarrow> condition" where
  "merge_condition now new old =
     old\<lparr>c_status := c_status new,
         c_lastTransition :=
           (if c_status old \<noteq> c_status new
            then (if c_lastTransition new \<noteq> zero_time then c_lastTransition new else now)
            else c_lastTransition old),
         c_reason := c_reason new, c_message := c_message new,
         c_observedGeneration := c_observedGeneration new\<rparr>"

fun SetStatusCondition :: "instant \<Rightarrow> condition list \<Rightarrow> condition \<Rightarrow> condition list" where
  "SetStatusCondition now [] new =
     [if c_lastTransition new = zero_time then new\<lparr>c_lastTransition := now\<rparr> else new]"
| "SetStatusCondition now (c # cs) new =
     (if c_type c = c_type new then merge_condition now new c # cs
      else c # SetStatusCondition now cs new)"

lemma FindStatusCondition_Set_same:
  "\<exists>c. FindStatusCondition (SetStatusCondition now cs new) (c_type new) = Some c \<and>
       c_status c = c_status new \<and> c_reason c = c_reason new \<and> c_message c = c_message new \<and>
       c_observedGeneration c = c_observedGeneration new"
  by (induction cs) (auto simp: merge_condition_def)

lemma FindStatusCondition_Set_other:
  "t \<noteq> c_type new \<Longrightarrow>
   FindStatusCondition (SetStatusCondition now cs new) t = FindStatusCondition cs t"
  by (induction cs) (auto simp: merge_condition_def)

lemma SetStatusCondition_types:
  "distinct (map c_type cs) \<Longrightarrow>
   set (map c_type (SetStatusCondition now cs new)) = insert (c_type new) (set (map c_type cs)) \<and>
   distinct (map c_type (SetStatusCondition now cs new))"
  by (induction cs) (auto simp: merge_condition_def)

section \<open>common.nodemanager/v1\<close>

record notify_ref =
  nr_apiVersion :: string
  nr_kind :: string
  nr_name :: string
  nr_namespace :: string

record package =
  p_ensure :: string
  p_name :: string
  p_version :: string

record service =
  s_enable :: bool
  s_ensure :: string
  s_name :: string
  s_subscribeFiles :: "string list"
  s_arguments :: string
  s_user :: string
  s_lockGroup :: string

record managed_file =
  f_content :: string
  f_ensure :: string
  f_target :: string
  f_group :: string
  f_mode :: string
  f_owner :: string
  f_path :: string
  f_template :: string
  f_secretRefs :: "string list"
  f_configMapRefs :: "string list"
  f_createOnly :: bool
  f_purge :: bool

record exec =
  x_command :: string
  x_args :: "string list"
  x_subscribeFiles :: "string list"

record configset_spec =
  css_files :: "managed_file list"
  css_packages :: "package list"
  css_services :: "service list"
  css_executions :: "exec list"
  css_notifies :: "notify_ref list"

record configset =
  cs_meta :: object_meta
  cs_spec :: configset_spec
  cs_conditions :: "condition list"

record wireguard_spec =
  wgs_enabled :: bool
  wgs_interface :: string

record upgrade =
  up_group :: string
  up_schedule :: string
  up_delay :: string

record managednode_spec =
  mns_domain :: string
  mns_upgrade :: upgrade
  mns_wireGuard :: wireguard_spec
  mns_reconcilePeriod :: string

record network_interface =
  ni_ipv4 :: "string list"
  ni_ipv6 :: "string list"

record configset_apply_status =
  cas_name :: string
  cas_resourceVersion :: string
  cas_lastApplied :: instant
  cas_error :: string
  cas_conflicts :: "string list"

record wireguard_interface =
  wg_name :: string
  wg_publicKey :: string
  wg_listenPort :: int

record ssh_host_key =
  ssh_algorithm :: int
  ssh_fingerprintType :: int
  ssh_fingerprint :: string

record managednode_status =
  st_agentVersion :: string
  st_release :: string
  st_interfaces :: "network_interface smap"
  st_configSets :: "configset_apply_status list"
  st_sshHostKeys :: "ssh_host_key list"
  st_wireGuard :: "wireguard_interface list"
  st_fileBackups :: "string smap"
  st_lastFileBucketGC :: "instant option"
  st_lastUpgrade :: "instant option"
  st_kubernetesNodeCordoned :: "instant option"
  st_jailed :: bool

record managednode =
  mn_meta :: object_meta
  mn_spec :: managednode_spec
  mn_status :: managednode_status

section \<open>freebsd.nodemanager/v1\<close>

record jail_update =
  ju_schedule :: string
  ju_delay :: string
  ju_group :: string

record jail_pf =
  pf_anchorName :: string
  pf_rules :: "string list"

record jail_mount =
  jm_hostPath :: string
  jm_jailPath :: string
  jm_type :: string
  jm_readOnly :: bool

record jail_spec =
  js_templateRef :: string
  js_nodeName :: string
  js_release :: string
  js_hostname :: string
  js_interface :: string
  js_inet :: string
  js_inet6 :: string
  js_mounts :: "jail_mount list"
  js_update :: jail_update
  js_deletionProtection :: bool
  js_pf :: "jail_pf option"
  js_parameters :: "string smap"
  js_reconcilePeriod :: string

record jail_status =
  jst_conditions :: "condition list"
  jst_release :: string
  jst_lastUpdate :: "instant option"
  jst_postCreateDone :: "instant option"

record jail =
  j_meta :: object_meta
  j_spec :: jail_spec
  j_status :: jail_status

record post_create_command =
  pc_name :: string
  pc_command :: string
  pc_args :: "string list"

record jail_template_spec =
  jt_interface :: string
  jt_mounts :: "jail_mount list"
  jt_update :: jail_update
  jt_postCreate :: "post_create_command list"
  jt_pf :: "jail_pf option"
  jt_parameters :: "string smap"

record jail_template =
  jt_meta :: object_meta
  jt_spec :: jail_template_spec

record poudriere_bulk =
  pb_meta :: object_meta
  pb_ports :: "string list"
  pb_tree :: string
  pb_jail :: string

record poudriere_jail =
  pj_meta :: object_meta
  pj_version :: string
  pj_architecture :: string
  pj_makeopts :: string

record poudriere_ports =
  pp_meta :: object_meta
  pp_fetchMethod :: string
  pp_branch :: string

section \<open>Kubernetes objects\<close>

record lease_spec =
  l_holder :: "string option"
  l_durationSeconds :: "32 word option"
  l_acquireTime :: "instant option"
  l_renewTime :: "instant option"

record lease =
  l_meta :: object_meta
  l_spec :: lease_spec

record secret =
  sec_meta :: object_meta
  sec_data :: "string smap"

record configmap =
  cm_meta :: object_meta
  cm_data :: "string smap"

record k8s_node =
  kn_meta :: object_meta
  kn_unschedulable :: bool

datatype pod_phase = PodPending | PodRunning | PodSucceeded | PodFailed | PodUnknown

record pod =
  pod_meta :: object_meta
  pod_phase :: pod_phase
  pod_ownerKinds :: "string list"

record unstructured =
  u_apiVersion :: string
  u_kind :: string
  u_meta :: object_meta

text \<open>
  The objects the API clients read and write, and the kinds they ask for. Reading an object of one
  kind decodes into the Go type of that kind; an answer of any other shape is a decoding error.
\<close>

datatype kind =
    KManagedNode | KConfigSet | KJail | KJailTemplate | KPoudriereBulk | KPoudriereJail
  | KPoudrierePorts | KLease | KSecret | KConfigMap | KNode | KPod | KUnstructured string string

datatype kobj =
    OManagedNode managednode | OConfigSet configset | OJail jail | OJailTemplate jail_template
  | OPoudriereBulk poudriere_bulk | OPoudriereJail poudriere_jail | OPoudrierePorts poudriere_ports
  | OLease lease | OSecret secret | OConfigMap configmap | ONode k8s_node | OPod pod
  | OUnstructured unstructured

section \<open>Empty objects\<close>

text \<open>The zero values of the Go structs.\<close>

definition empty_meta :: object_meta where
  "empty_meta = \<lparr>om_name = [], om_namespace = [], om_labels = [], om_annotations = [],
     om_resourceVersion = [], om_generation = 0, om_finalizers = [], om_deletionTimestamp = None\<rparr>"

definition empty_status :: managednode_status where
  "empty_status = \<lparr>st_agentVersion = [], st_release = [], st_interfaces = [], st_configSets = [],
     st_sshHostKeys = [], st_wireGuard = [], st_fileBackups = [], st_lastFileBucketGC = None,
     st_lastUpgrade = None, st_kubernetesNodeCordoned = None, st_jailed = False\<rparr>"

definition empty_node :: managednode where
  "empty_node = \<lparr>mn_meta = empty_meta,
     mn_spec = \<lparr>mns_domain = [], mns_upgrade = \<lparr>up_group = [], up_schedule = [], up_delay = []\<rparr>,
       mns_wireGuard = \<lparr>wgs_enabled = False, wgs_interface = []\<rparr>, mns_reconcilePeriod = []\<rparr>,
     mn_status = empty_status\<rparr>"

end
