(* ===== verification/GoPath.thy ===== *)
theory GoPath
  imports GoStrings
begin

text \<open>
  The lexical path functions of Go's \<^verbatim>\<open>path/filepath\<close> on Unix that the jail manager, the ZFS
  layer and the filebucket build their names with. The main facts: cleaning leaves a path of plain
  components alone, joining plain components to such a path appends them, and a component list
  without \<^verbatim>\<open>..\<close> joined below a directory stays below it.
\<close>

abbreviation slash :: char where
  "slash \<equiv> CHR ''/''"

fun clean_acc :: "bool \<Rightarrow> string list \<Rightarrow> string list \<Rightarrow> string list" where
  "clean_acc rooted out [] = out"
| "clean_acc rooted out (x # xs) =
     (if x = [] \<or> x = ''.'' then clean_acc rooted out xs
      else if x = ''..'' then
        (case out of
           [] \<Rightarrow> clean_acc rooted (if rooted then [] else [''..'']) xs
         | y # ys \<Rightarrow> clean_acc rooted (if y = ''..'' then ''..'' # out else ys) xs)
      else clean_acc rooted (x # out) xs)"

definition Clean :: "string \<Rightarrow> string" where
  "Clean p =
     (if p = [] then ''.''
      else let rooted = (hd p = slash);
               body = Join (rev (clean_acc rooted [] (Split slash p))) ''/''
           in if rooted then slash # body else if body = [] then ''.'' else body)"

definition filepath_Join :: "string list \<Rightarrow> string" where
  "filepath_Join es =
     (case dropWhile (\<lambda>e. e = []) es of [] \<Rightarrow> [] | e # rest \<Rightarrow> Clean (Join (e # rest) ''/''))"

definition Base :: "string \<Rightarrow> string" where
  "Base p =
     (if p = [] then ''.''
      else let q = rev (dropWhile (\<lambda>c. c = slash) (rev p))
           in if q = [] then ''/'' else last (Split slash q))"

definition Dir :: "string \<Rightarrow> string" where
  "Dir p = Clean (rev (dropWhile (\<lambda>c. c \<noteq> slash) (rev p)))"

definition Ext :: "string \<Rightarrow> string" where
  "Ext p = (let b = last (Split slash p); parts = Split CHR ''.'' b
            in if length parts < 2 then [] else CHR ''.'' # last parts)"

section \<open>Paths of plain components\<close>

definition plain :: "string \<Rightarrow> bool" where
  "plain c \<longleftrightarrow> c \<noteq> [] \<and> slash \<notin> set c \<and> c \<noteq> ''.'' \<and> c \<noteq> ''..''"

definition abs_path :: "string list \<Rightarrow> string" where
  "abs_path cs = slash # Join cs ''/''"

definition rel_path :: "string list \<Rightarrow> string" where
  "rel_path cs = Join cs ''/''"

lemma Join_append:
  "xs \<noteq> [] \<Longrightarrow> ys \<noteq> [] \<Longrightarrow> Join (xs @ ys) sep = Join xs sep @ sep @ Join ys sep"
proof (induction xs)
  case (Cons x xs)
  then show ?case by (cases "xs = []") (auto simp: Join_Cons)
qed simp

lemma Join_eq_Nil: "(\<forall>x \<in> set xs. x \<noteq> []) \<Longrightarrow> Join xs ''/'' = [] \<longleftrightarrow> xs = []"
  by (cases xs rule: remdups_adj.cases) auto

lemma clean_acc_plain: "list_all plain xs \<Longrightarrow> clean_acc r out xs = rev xs @ out"
  by (induction xs arbitrary: out) (auto simp: plain_def)

lemma plain_no_slash: "list_all plain cs \<Longrightarrow> \<forall>x \<in> set cs. slash \<notin> set x"
  by (auto simp: list_all_iff plain_def)

lemma Split_rel_path: "list_all plain cs \<Longrightarrow> cs \<noteq> [] \<Longrightarrow> Split slash (rel_path cs) = cs"
  using Split_Join[of cs slash] plain_no_slash by (simp add: rel_path_def)

lemma Split_abs_path: "list_all plain cs \<Longrightarrow> cs \<noteq> [] \<Longrightarrow> Split slash (abs_path cs) = [] # cs"
  using Split_rel_path by (simp add: abs_path_def rel_path_def)

lemma rel_path_hd:
  assumes "list_all plain cs" and "cs \<noteq> []"
  shows "rel_path cs \<noteq> []" and "hd (rel_path cs) \<noteq> slash"
proof -
  obtain c rest where cs: "cs = c # rest" using assms(2) by (cases cs) auto
  then have "c \<noteq> []" "slash \<notin> set c" using assms(1) by (auto simp: plain_def)
  then have c: "c \<noteq> []" "hd c \<noteq> slash" by (auto dest: hd_in_set)
  show "rel_path cs \<noteq> []" using c cs by (cases rest) (auto simp: rel_path_def)
  show "hd (rel_path cs) \<noteq> slash" using c cs by (cases rest) (auto simp: rel_path_def)
qed

lemma Clean_rel_path: "list_all plain cs \<Longrightarrow> cs \<noteq> [] \<Longrightarrow> Clean (rel_path cs) = rel_path cs"
  using rel_path_hd[of cs]
  by (auto simp: Clean_def Let_def Split_rel_path clean_acc_plain) (auto simp: rel_path_def)

lemma Clean_abs_path: "list_all plain cs \<Longrightarrow> cs \<noteq> [] \<Longrightarrow> Clean (abs_path cs) = abs_path cs"
  by (auto simp: Clean_def Let_def Split_abs_path clean_acc_plain)
     (auto simp: abs_path_def clean_acc_plain)

lemma filepath_Join_rel:
  assumes "list_all plain (cs @ es)" and "cs \<noteq> []"
  shows "filepath_Join (rel_path cs # es) = rel_path (cs @ es)"
proof -
  have "Join (rel_path cs # es) ''/'' = rel_path (cs @ es)"
    using assms by (cases "es = []") (auto simp: rel_path_def Join_append Join_Cons)
  then show ?thesis
    using assms rel_path_hd[of cs] by (simp add: filepath_Join_def Clean_rel_path)
qed

lemma filepath_Join_abs:
  assumes "list_all plain (cs @ es)" and "cs \<noteq> []"
  shows "filepath_Join (abs_path cs # es) = abs_path (cs @ es)"
proof -
  have "Join (abs_path cs # es) ''/'' = abs_path (cs @ es)"
    using assms by (cases "es = []") (auto simp: abs_path_def Join_append Join_Cons)
  moreover have "abs_path cs \<noteq> []" by (simp add: abs_path_def)
  ultimately show ?thesis
    using assms by (simp add: filepath_Join_def Clean_abs_path)
qed

lemma rel_path_inj:
  assumes "list_all plain cs" "list_all plain ds" "cs \<noteq> []" "ds \<noteq> []" "rel_path cs = rel_path ds"
  shows "cs = ds"
  using assms Split_rel_path by metis

lemma abs_path_inj:
  assumes "list_all plain cs" "list_all plain ds" "cs \<noteq> []" "ds \<noteq> []" "abs_path cs = abs_path ds"
  shows "cs = ds"
  using assms Split_abs_path by (metis list.inject)

lemma Base_rel_path:
  assumes "list_all plain (cs @ [c])"
  shows "Base (rel_path (cs @ [c])) = c"
proof -
  have c: "c \<noteq> []" "slash \<notin> set c" using assms by (auto simp: plain_def)
  have "last (rel_path (cs @ [c])) = last c"
    using c by (cases "cs = []") (auto simp: rel_path_def Join_append)
  then have l: "last (rel_path (cs @ [c])) \<noteq> slash" using c by (metis last_in_set)
  have ne: "rel_path (cs @ [c]) \<noteq> []" using rel_path_hd assms by blast
  have "dropWhile (\<lambda>c. c = slash) (rev (rel_path (cs @ [c]))) = rev (rel_path (cs @ [c]))"
    using l ne by (metis dropWhile_eq_self_iff hd_rev)
  then show ?thesis
    using ne assms Split_rel_path[of "cs @ [c]"] by (simp add: Base_def)
qed

section \<open>Staying below a directory\<close>

text \<open>
  Components without \<^verbatim>\<open>..\<close> can only add to the stack of components already cleaned.
\<close>

lemma clean_acc_no_dotdot:
  "''..'' \<notin> set xs \<Longrightarrow> \<exists>ys. clean_acc r out xs = ys @ out"
proof (induction xs arbitrary: out)
  case (Cons x xs)
  then have IH: "\<exists>ys. clean_acc r out' xs = ys @ out'" for out' by simp
  show ?case
  proof (cases "x = [] \<or> x = ''.''")
    case True
    then show ?thesis using IH[of out] by auto
  next
    case False
    then show ?thesis using IH[of "x # out"] Cons.prems by auto
  qed
qed simp

lemma clean_acc_append: "clean_acc r out (xs @ ys) = clean_acc r (clean_acc r out xs) ys"
  by (induction xs arbitrary: out) (auto split: list.splits)

lemma Split_append_slash: "Split c (s @ c # t) = Split c s @ Split c t"
proof (induction s)
  case (Cons x xs)
  then show ?case by (cases "Split c xs") auto
qed simp

lemma filepath_Join_below:
  assumes cs: "list_all plain cs" "cs \<noteq> []" and p: "''..'' \<notin> set (Split slash p)"
  shows "filepath_Join [abs_path cs, p] = abs_path cs \<or>
         HasPrefix (filepath_Join [abs_path cs, p]) (abs_path cs @ ''/'')"
proof -
  let ?q = "abs_path cs @ slash # p"
  have split: "Split slash ?q = ([] # cs) @ Split slash p"
    using Split_append_slash[of slash "abs_path cs" p] Split_abs_path[OF cs] by simp
  obtain ys where ys: "clean_acc True [] (Split slash ?q) = ys @ rev cs"
    using clean_acc_no_dotdot[OF p, of True "rev cs"] cs
    by (auto simp: split clean_acc_append clean_acc_plain)
  have "filepath_Join [abs_path cs, p] = abs_path (cs @ rev ys)"
    using ys by (simp add: filepath_Join_def abs_path_def Clean_def)
  then show ?thesis
    using cs by (cases "ys = []") (auto simp: abs_path_def Join_append HasPrefix_iff)
qed

end
