(* ===== verification/World.thy ===== *)
theory World
  imports ApiTypes GoPath
begin

unbundle bit_operations_syntax

text \<open>
  The outside world of a controller and the primitive calls into it.

  A state \<open>'h world\<close> holds the filesystem, a trace of the externally visible calls made so far, and an
  arbitrary state \<open>'h\<close> for everything else (the API server, the other processes of the host, the clock,
  the network). What the outside answers is a parameter: \<open>'h host\<close> gives the result of running a
  command, the clock, the host name, the state of the request's context, the user database behind
  \<^verbatim>\<open>os/user\<close> and the failures of system calls; \<open>'h client\<close> gives the answers of
  the Kubernetes API. Every answer may depend on and change \<open>'h\<close>, so a theorem over all hosts and all
  clients covers every interleaving with other processes and other writers.

  The package \<^verbatim>\<open>os\<close> of the Go library is modelled on the filesystem: a call either fails with the
  error the host chooses or has the effect documented for it. The trace is a ghost of the model: no
  definition reads it.
\<close>

section \<open>The filesystem\<close>

datatype fkind = FFile string | FDir | FLink string

record inode =
  i_kind :: fkind
  i_mode :: "32 word"
  i_uid :: "32 word"
  i_gid :: "32 word"
  i_mtime :: instant

text \<open>A filesystem maps cleaned absolute paths to what is there.\<close>

type_synonym fs = "inode smap"

definition link_target :: "string \<Rightarrow> string \<Rightarrow> string" where
  "link_target p t = (if HasPrefix t ''/'' then Clean t else filepath_Join [Dir p, t])"

fun follow :: "nat \<Rightarrow> fs \<Rightarrow> string \<Rightarrow> string option" where
  "follow 0 fs p = None"
| "follow (Suc n) fs p =
     (case map_of fs p of
        Some i \<Rightarrow> (case i_kind i of FLink t \<Rightarrow> follow n fs (link_target p t) | _ \<Rightarrow> Some p)
      | None \<Rightarrow> Some p)"

text \<open>
  The kernel gives up after 40 links (\<^verbatim>\<open>ELOOP\<close>), and the empty path names nothing (\<^verbatim>\<open>ENOENT\<close>).
\<close>

definition resolve :: "fs \<Rightarrow> string \<Rightarrow> string option" where
  "resolve fs p = (if p = [] then None else follow 41 fs (Clean p))"

definition unresolved :: "string \<Rightarrow> err" where
  "unresolved p = (if p = [] then OsNotExist ''no such file or directory''
     else OsFail ''too many levels of symbolic links'')"

text \<open>What is at a path itself, when a link there is not followed.\<close>

definition entry_at :: "fs \<Rightarrow> string \<Rightarrow> inode option" where
  "entry_at fs p = (if p = [] then None else map_of fs (Clean p))"

definition stat_at :: "fs \<Rightarrow> string \<Rightarrow> inode res" where
  "stat_at fs p =
     (case resolve fs p of
        None \<Rightarrow> Inl (unresolved p)
      | Some q \<Rightarrow>
          (case map_of fs q of None \<Rightarrow> Inl (OsNotExist (''stat '' @ p)) | Some i \<Rightarrow> Inr i))"

lemma resolve_plain: "p \<noteq> [] \<Longrightarrow> map_of fs (Clean p) = None \<Longrightarrow> resolve fs p = Some (Clean p)"
  by (simp add: resolve_def numeral_eq_Suc)

lemma resolve_no_link:
  "p \<noteq> [] \<Longrightarrow> map_of fs (Clean p) = Some i \<Longrightarrow> (\<forall>t. i_kind i \<noteq> FLink t) \<Longrightarrow> resolve fs p = Some (Clean p)"
  by (auto simp: resolve_def numeral_eq_Suc split: fkind.splits)

lemma follow_no_link:
  "follow n fs p = Some q \<Longrightarrow> map_of fs q = Some i \<Longrightarrow> i_kind i \<noteq> FLink t"
proof (induction n fs p rule: follow.induct)
  case (2 n fs p)
  then show ?case by (auto split: option.splits fkind.splits)
qed simp

lemma follow_update:
  assumes "follow n fs p = Some q" and "\<forall>t. i_kind i \<noteq> FLink t"
  shows "follow n (AList.update q i fs) p = Some q"
  using assms
proof (induction n fs p rule: follow.induct)
  case (2 n fs p)
  then show ?case
  proof (cases "p = q")
    case True
    then show ?thesis using 2 by (simp add: AList.update_conv' split: fkind.splits)
  next
    case False
    then show ?thesis using 2 by (simp add: AList.update_conv' split: option.splits fkind.splits)
  qed
qed simp

lemma resolve_update:
  "resolve fs p = Some q \<Longrightarrow> \<forall>t. i_kind i \<noteq> FLink t \<Longrightarrow> resolve (AList.update q i fs) p = Some q"
  by (simp add: resolve_def follow_update split: if_splits)

lemma stat_at_update:
  "resolve fs p = Some q \<Longrightarrow> \<forall>t. i_kind i \<noteq> FLink t \<Longrightarrow> stat_at (AList.update q i fs) p = Inr i"
  by (simp add: stat_at_def resolve_update AList.update_conv')

text \<open>The entries of a directory, in the order of their names, with whether each is a directory.\<close>

definition dir_children :: "fs \<Rightarrow> string \<Rightarrow> (string \<times> bool) list" where
  "dir_children fs p =
     (let d = (if Clean p = ''/'' then ''/'' else Clean p @ ''/'')
      in map (\<lambda>n. (n, (case map_of fs (d @ n) of Some i \<Rightarrow> i_kind i = FDir | None \<Rightarrow> False)))
           (sort (remdups
             (List.map_filter (\<lambda>k. if HasPrefix k d \<and> plain (TrimPrefix k d)
                                   then Some (TrimPrefix k d) else None) (map fst fs)))))"

section \<open>Hosts, clients and the trace\<close>

text \<open>
  How a process ended: \<^verbatim>\<open>exec.Cmd.Run\<close> returns nil exactly for exit code 0, and
  \<^verbatim>\<open>ProcessState.ExitCode\<close> is -1 for a process that was killed or never started.
\<close>

datatype proc = Exited int string string | Killed string string | NotStarted string

fun exit_code :: "proc \<Rightarrow> int" where
  "exit_code (Exited n _ _) = n"
| "exit_code _ = -1"

record 'h host =
  h_exec :: "string \<Rightarrow> string list \<Rightarrow> string \<Rightarrow> fs \<times> 'h \<Rightarrow> proc \<times> fs \<times> 'h"
  h_now :: "('h, instant) state"
  h_hostname :: "('h, string res) state"
  h_ctxErr :: "('h, err option) state"
  h_userId :: "string \<Rightarrow> ('h, string res) state"
  h_groupId :: "string \<Rightarrow> ('h, string res) state"
  h_userName :: "string \<Rightarrow> ('h, string res) state"
  h_groupName :: "string \<Rightarrow> ('h, string res) state"
  h_fault :: "string \<Rightarrow> string \<Rightarrow> ('h, string option) state"
  h_partial :: "string \<Rightarrow> string \<Rightarrow> ('h, nat) state"
  h_umask :: "32 word"
  h_uid :: "32 word"
  h_gid :: "32 word"

record 'h client =
  cl_get :: "kind \<Rightarrow> nsname \<Rightarrow> ('h, kobj res) state"
  cl_list :: "kind \<Rightarrow> string option \<Rightarrow> ('h, kobj list res) state"
  cl_create :: "kobj \<Rightarrow> ('h, kobj res) state"
  cl_update :: "kobj \<Rightarrow> ('h, kobj res) state"
  cl_updateStatus :: "kobj \<Rightarrow> ('h, kobj res) state"
  cl_cordon :: "string \<Rightarrow> bool \<Rightarrow> ('h, err option) state"
  cl_evict :: "nsname \<Rightarrow> ('h, err option) state"

text \<open>Calls of the handler interfaces that the trace records, with whether they succeeded.\<close>

datatype notice =
    UpgradeApprovalRequest string string instant instant
  | UpgradeStarted string
  | UpgradeCompleted bool bool

datatype call =
    PkgList | PkgInstall string string | PkgRemove string | PkgUpgradeAll
  | SvcEnable string | SvcDisable string | SvcSetArguments string string
  | SvcStart string | SvcStop string | SvcRestart string
  | NodeUpgrade | NodeReboot
  | LockCall nsname | LockForCall nsname duration | UnlockCall nsname
  | NotifyCall notice | ApprovalWait string | Cordon string bool | EvictPod nsname
  | RunExec string "string list"

datatype verb = VCreate | VUpdate | VUpdateStatus

datatype event =
    EvExec string "string list" string int
  | EvCall call bool
  | EvApi verb kobj bool

text \<open>
  What the ConfigSet reconciler keeps in memory: the resource version last recorded per node and
  ConfigSet, and the label sets of the gauge \<^verbatim>\<open>configSetAppliedResourceVersion\<close>.
\<close>

record rv_state =
  rv_last :: "string smap"
  rv_gauge :: "(string \<times> string \<times> string) list"

record 'h world =
  w_fs :: fs
  w_trace :: "event list"
  w_rv :: rv_state
  w_ext :: 'h

section \<open>Primitive actions\<close>

definition log_event :: "event \<Rightarrow> ('h world, unit) state" where
  "log_event e = State (\<lambda>w. ((), w\<lparr>w_trace := w_trace w @ [e]\<rparr>))"

definition get_fs :: "('h world, fs) state" where
  "get_fs = State (\<lambda>w. (w_fs w, w))"

definition put_fs :: "fs \<Rightarrow> ('h world, unit) state" where
  "put_fs f = State (\<lambda>w. ((), w\<lparr>w_fs := f\<rparr>))"

definition ext :: "('h, 'a) state \<Rightarrow> ('h world, 'a) state" where
  "ext m = State (\<lambda>w. case run_state m (w_ext w) of (r, h) \<Rightarrow> (r, w\<lparr>w_ext := h\<rparr>))"

lemma run_log_event [simp]: "run_state (log_event e) w = ((), w\<lparr>w_trace := w_trace w @ [e]\<rparr>)"
  by (simp add: log_event_def)

lemma run_get_fs [simp]: "run_state get_fs w = (w_fs w, w)"
  by (simp add: get_fs_def)

lemma run_put_fs [simp]: "run_state (put_fs f) w = ((), w\<lparr>w_fs := f\<rparr>)"
  by (simp add: put_fs_def)

lemma run_ext [simp]:
  "run_state (ext m) w = (case run_state m (w_ext w) of (r, h) \<Rightarrow> (r, w\<lparr>w_ext := h\<rparr>))"
  by (simp add: ext_def)

definition now :: "'h host \<Rightarrow> ('h world, instant) state" where
  "now h = ext (h_now h)"

text \<open>A call of a handler interface, recorded with its outcome.\<close>

definition called :: "call \<Rightarrow> ('h world, err option) state \<Rightarrow> ('h world, err option) state" where
  "called c m = do { e \<leftarrow> m; log_event (EvCall c (e = None)); ret e }"

section \<open>Which events a program may leave on the trace\<close>

text \<open>\<open>emits P m\<close>: \<open>m\<close> only appends to the trace, and only events that satisfy \<open>P\<close>.\<close>

definition emits :: "(event \<Rightarrow> bool) \<Rightarrow> ('h world, 'a) state \<Rightarrow> bool" where
  "emits P m \<longleftrightarrow>
     (\<forall>w. \<exists>es. w_trace (snd (run_state m w)) = w_trace w @ es \<and> list_all P es)"

named_theorems emits_rules \<open>introduction rules for the events a program may leave\<close>

lemma emitsD:
  "emits P m \<Longrightarrow> run_state m w = (r, w') \<Longrightarrow> \<exists>es. w_trace w' = w_trace w @ es \<and> list_all P es"
  by (metis emits_def snd_conv)

lemma emits_ret [emits_rules]: "emits P (ret x)"
  by (simp add: emits_def)

lemma emits_bind [emits_rules]:
  assumes "emits P m" and "\<And>x. emits P (f x)"
  shows "emits P (State_Monad.bind m f)"
  unfolding emits_def
proof
  fix w
  obtain r w' where m: "run_state m w = (r, w')" by fastforce
  obtain es where es: "w_trace w' = w_trace w @ es" "list_all P es"
    using emitsD[OF assms(1) m] by blast
  obtain fs where "w_trace (snd (run_state (f r) w')) = w_trace w' @ fs" "list_all P fs"
    using assms(2)[of r] by (auto simp: emits_def)
  with es m show "\<exists>es. w_trace (snd (run_state (State_Monad.bind m f) w)) = w_trace w @ es \<and>
      list_all P es"
    by (intro exI[of _ "es @ fs"]) simp
qed

lemma emits_if [emits_rules]:
  "(b \<Longrightarrow> emits P m) \<Longrightarrow> (\<not> b \<Longrightarrow> emits P n) \<Longrightarrow> emits P (if b then m else n)"
  by simp

lemma emits_case_option [emits_rules]:
  "(x = None \<Longrightarrow> emits P m) \<Longrightarrow> (\<And>y. x = Some y \<Longrightarrow> emits P (f y)) \<Longrightarrow>
   emits P (case x of None \<Rightarrow> m | Some y \<Rightarrow> f y)"
  by (cases x) auto

lemma emits_case_sum [emits_rules]:
  "(\<And>e. x = Inl e \<Longrightarrow> emits P (f e)) \<Longrightarrow> (\<And>y. x = Inr y \<Longrightarrow> emits P (g y)) \<Longrightarrow>
   emits P (case x of Inl e \<Rightarrow> f e | Inr y \<Rightarrow> g y)"
  by (cases x) auto

lemma emits_case_prod [emits_rules]:
  "(\<And>a b. x = (a, b) \<Longrightarrow> emits P (f a b)) \<Longrightarrow> emits P (case x of (a, b) \<Rightarrow> f a b)"
  by (cases x) auto

lemma emits_case_list [emits_rules]:
  "(x = [] \<Longrightarrow> emits P m) \<Longrightarrow> (\<And>y ys. x = y # ys \<Longrightarrow> emits P (f y ys)) \<Longrightarrow>
   emits P (case x of [] \<Rightarrow> m | y # ys \<Rightarrow> f y ys)"
  by (cases x) auto

lemma emits_let [emits_rules]: "emits P (f x) \<Longrightarrow> emits P (let y = x in f y)"
  by simp

lemma emits_or_return [emits_rules]:
  "emits P m \<Longrightarrow> (\<And>x. emits P (k x)) \<Longrightarrow> emits P (or_return m wrap k)"
  unfolding or_return_def by (intro emits_rules)

lemma emits_check [emits_rules]: "emits P m \<Longrightarrow> emits P k \<Longrightarrow> emits P (check m wrap k)"
  unfolding check_def by (intro emits_rules)

lemma emits_or_fail [emits_rules]:
  "emits P m \<Longrightarrow> (\<And>x. emits P (k x)) \<Longrightarrow> emits P (or_fail m wrap k)"
  unfolding or_fail_def by (intro emits_rules)

lemma emits_check_fail [emits_rules]: "emits P m \<Longrightarrow> emits P k \<Longrightarrow> emits P (check_fail m wrap k)"
  unfolding check_fail_def by (intro emits_rules)

lemma emits_log [emits_rules]: "P e \<Longrightarrow> emits P (log_event e)"
  by (simp add: emits_def)

lemma emits_get_fs [emits_rules]: "emits P get_fs"
  by (simp add: emits_def)

lemma emits_put_fs [emits_rules]: "emits P (put_fs f)"
  by (simp add: emits_def)

lemma emits_ext [emits_rules]: "emits P (ext m)"
  by (simp add: emits_def split: prod.split)

lemma emits_now [emits_rules]: "emits P (now h)"
  unfolding now_def by (intro emits_rules)

lemma emits_called [emits_rules]:
  "emits P m \<Longrightarrow> (\<And>b. P (EvCall c b)) \<Longrightarrow> emits P (called c m)"
  unfolding called_def by (intro emits_rules)

lemma emits_retry [emits_rules]:
  assumes "emits P f"
  shows "emits P (RetryOnConflict f)"
proof -
  have "emits P (retry_on_conflict n f)" for n
    using assms by (induction n f rule: retry_on_conflict.induct) (auto intro!: emits_rules)
  then show ?thesis by (simp add: RetryOnConflict_def)
qed

lemma emits_mono: "emits P m \<Longrightarrow> (\<And>e. P e \<Longrightarrow> Q e) \<Longrightarrow> emits Q m"
  unfolding emits_def by (meson list.pred_mono_strong)

text \<open>An event that \<open>m\<close> may not leave was on the trace before.\<close>

lemma emits_old:
  "emits P m \<Longrightarrow> run_state m w = (r, w') \<Longrightarrow> e \<in> set (w_trace w') \<Longrightarrow> \<not> P e \<Longrightarrow>
   e \<in> set (w_trace w)"
  by (auto dest!: emitsD simp: list_all_iff)

lemma emits_keeps:
  "emits P m \<Longrightarrow> run_state m w = (r, w') \<Longrightarrow> e \<in> set (w_trace w) \<Longrightarrow> e \<in> set (w_trace w')"
  by (auto dest!: emitsD)

section \<open>Parts of the world a program leaves alone\<close>

text \<open>\<open>leaves g m\<close>: whatever \<open>m\<close> does, the part \<open>g\<close> of the world is the same afterwards.\<close>

definition leaves :: "('h world \<Rightarrow> 'b) \<Rightarrow> ('h world, 'a) state \<Rightarrow> bool" where
  "leaves g m \<longleftrightarrow> (\<forall>w. g (snd (run_state m w)) = g w)"

named_theorems leaves_rules \<open>introduction rules for the parts of the world a program leaves alone\<close>

lemma leavesD: "leaves g m \<Longrightarrow> run_state m w = (r, w') \<Longrightarrow> g w' = g w"
  by (metis leaves_def snd_conv)

lemma leavesI: "(\<And>w r w'. run_state m w = (r, w') \<Longrightarrow> g w' = g w) \<Longrightarrow> leaves g m"
  by (metis leaves_def prod.collapse)

lemma leaves_ret [leaves_rules]: "leaves g (ret x)"
  by (simp add: leaves_def)

lemma leaves_bind [leaves_rules]:
  assumes "leaves g m" and "\<And>x. leaves g (f x)"
  shows "leaves g (State_Monad.bind m f)"
  using assms by (auto simp: leaves_def split: prod.splits) (metis snd_conv)

lemma leaves_if [leaves_rules]:
  "(b \<Longrightarrow> leaves g m) \<Longrightarrow> (\<not> b \<Longrightarrow> leaves g n) \<Longrightarrow> leaves g (if b then m else n)"
  by simp

lemma leaves_case_option [leaves_rules]:
  "(x = None \<Longrightarrow> leaves g m) \<Longrightarrow> (\<And>y. x = Some y \<Longrightarrow> leaves g (f y)) \<Longrightarrow>
   leaves g (case x of None \<Rightarrow> m | Some y \<Rightarrow> f y)"
  by (cases x) auto

lemma leaves_case_sum [leaves_rules]:
  "(\<And>e. x = Inl e \<Longrightarrow> leaves g (f e)) \<Longrightarrow> (\<And>y. x = Inr y \<Longrightarrow> leaves g (k y)) \<Longrightarrow>
   leaves g (case x of Inl e \<Rightarrow> f e | Inr y \<Rightarrow> k y)"
  by (cases x) auto

lemma leaves_case_prod [leaves_rules]:
  "(\<And>a b. x = (a, b) \<Longrightarrow> leaves g (f a b)) \<Longrightarrow> leaves g (case x of (a, b) \<Rightarrow> f a b)"
  by (cases x) auto

lemma leaves_let [leaves_rules]: "leaves g (f x) \<Longrightarrow> leaves g (let y = x in f y)"
  by simp

lemma leaves_or_return [leaves_rules]:
  "leaves g m \<Longrightarrow> (\<And>x. leaves g (k x)) \<Longrightarrow> leaves g (or_return m wrap k)"
  unfolding or_return_def by (intro leaves_rules)

lemma leaves_check [leaves_rules]: "leaves g m \<Longrightarrow> leaves g k \<Longrightarrow> leaves g (check m wrap k)"
  unfolding check_def by (intro leaves_rules)

lemma leaves_or_fail [leaves_rules]:
  "leaves g m \<Longrightarrow> (\<And>x. leaves g (k x)) \<Longrightarrow> leaves g (or_fail m wrap k)"
  unfolding or_fail_def by (intro leaves_rules)

lemma leaves_check_fail [leaves_rules]: "leaves g m \<Longrightarrow> leaves g k \<Longrightarrow> leaves g (check_fail m wrap k)"
  unfolding check_fail_def by (intro leaves_rules)

lemma leaves_fs_prim [leaves_rules]:
  "leaves w_fs (log_event e)" "leaves w_fs get_fs" "leaves w_fs (ext m')" "leaves w_fs (now h)"
  by (auto simp: leaves_def now_def split: prod.split)

lemma leaves_called [leaves_rules]: "leaves w_fs m \<Longrightarrow> leaves w_fs (called c m)"
  unfolding called_def by (intro leaves_rules)

lemma leaves_retry [leaves_rules]:
  assumes "leaves g f"
  shows "leaves g (RetryOnConflict f)"
proof -
  have "leaves g (retry_on_conflict n f)" for n
    using assms by (induction n f rule: retry_on_conflict.induct) (auto intro!: leaves_rules)
  then show ?thesis by (simp add: RetryOnConflict_def)
qed

end
