(* ===== verification/OsFile.thy ===== *)
theory OsFile
  imports World
begin

unbundle bit_operations_syntax

text \<open>
  The functions of Go's package \<^verbatim>\<open>os\<close> that the sources call, on the filesystem of \<open>World\<close>, and the
  command runner \<^verbatim>\<open>pkg/execs/execs.go\<close>. Every call first asks the host whether the system call
  fails for a reason outside the model (permissions, a missing parent, a full disk); otherwise it has
  the effect documented for it.
\<close>

section \<open>File calls\<close>

definition syscall :: "'h host \<Rightarrow> string \<Rightarrow> string \<Rightarrow> ('h world, 'a res) state \<Rightarrow>
    ('h world, 'a res) state" where
  "syscall h name p k = do {
     f \<leftarrow> ext (h_fault h name p);
     (case f of Some m \<Rightarrow> ret (Inl (OsFail (name @ '' '' @ p @ '': '' @ m))) | None \<Rightarrow> k)
   }"

definition os_Stat :: "'h host \<Rightarrow> string \<Rightarrow> ('h world, inode res) state" where
  "os_Stat h p = syscall h ''stat'' p (do { fs \<leftarrow> get_fs; ret (stat_at fs p) })"

definition os_ReadFile :: "'h host \<Rightarrow> string \<Rightarrow> ('h world, string res) state" where
  "os_ReadFile h p = syscall h ''open'' p (do {
     fs \<leftarrow> get_fs;
     ret (case stat_at fs p of
            Inl e \<Rightarrow> Inl e
          | Inr i \<Rightarrow> (case i_kind i of
                        FFile c \<Rightarrow> Inr c
                      | _ \<Rightarrow> Inl (OsFail (''read '' @ p @ '': is a directory''))))
   })"

text \<open>
  \<^verbatim>\<open>os.OpenFile(p, O_WRONLY|O_CREATE|O_TRUNC, perm)\<close>: an existing file keeps its mode and owner and
  is truncated; a new file gets the permission bits the umask leaves and the owner of the process.
\<close>

definition os_OpenTrunc :: "'h host \<Rightarrow> string \<Rightarrow> 32 word \<Rightarrow> ('h world, string res) state" where
  "os_OpenTrunc h p perm = syscall h ''open'' p (do {
     fs \<leftarrow> get_fs;
     t \<leftarrow> now h;
     (case resolve fs p of
        None \<Rightarrow> ret (Inl (unresolved p))
      | Some q \<Rightarrow>
          (case map_of fs q of
             Some i \<Rightarrow>
               (case i_kind i of
                  FFile _ \<Rightarrow> do {
                    put_fs (AList.update q (i\<lparr>i_kind := FFile [], i_mtime := t\<rparr>) fs);
                    ret (Inr q)
                  }
                | _ \<Rightarrow> ret (Inl (OsFail (''open '' @ p @ '': is a directory''))))
           | None \<Rightarrow> do {
               put_fs (AList.update q \<lparr>i_kind = FFile [], i_mode = perm AND NOT (h_umask h),
                 i_uid = h_uid h, i_gid = h_gid h, i_mtime = t\<rparr> fs);
               ret (Inr q)
             }))
   })"

definition set_content :: "string \<Rightarrow> string \<Rightarrow> instant \<Rightarrow> fs \<Rightarrow> fs" where
  "set_content q c t fs =
     (case map_of fs q of
        None \<Rightarrow> fs
      | Some i \<Rightarrow> AList.update q (i\<lparr>i_kind := FFile c, i_mtime := t\<rparr>) fs)"

text \<open>Writing to the open file at \<open>q\<close>; a failed write leaves some prefix of the data.\<close>

definition file_Write :: "'h host \<Rightarrow> string \<Rightarrow> string \<Rightarrow> ('h world, err option) state" where
  "file_Write h q data = do {
     f \<leftarrow> ext (h_fault h ''write'' q);
     t \<leftarrow> now h;
     fs \<leftarrow> get_fs;
     (case f of
        Some m \<Rightarrow> do {
          n \<leftarrow> ext (h_partial h q data);
          put_fs (set_content q (take n data) t fs);
          ret (Some (OsFail (''write '' @ q @ '': '' @ m)))
        }
      | None \<Rightarrow> do { put_fs (set_content q data t fs); ret None })
   }"

definition os_WriteFile :: "'h host \<Rightarrow> string \<Rightarrow> string \<Rightarrow> 32 word \<Rightarrow> ('h world, err option) state" where
  "os_WriteFile h p data perm =
     or_fail (os_OpenTrunc h p perm) id (\<lambda>q. file_Write h q data)"

text \<open>\<^verbatim>\<open>os.Remove\<close> does not follow links and refuses a directory that is not empty.\<close>

definition os_Remove :: "'h host \<Rightarrow> string \<Rightarrow> ('h world, err option) state" where
  "os_Remove h p = do {
     f \<leftarrow> ext (h_fault h ''remove'' p);
     (case f of
        Some m \<Rightarrow> ret (Some (OsFail (''remove '' @ p @ '': '' @ m)))
      | None \<Rightarrow> do {
          fs \<leftarrow> get_fs;
          (case entry_at fs p of
             None \<Rightarrow> ret (Some (OsNotExist (''remove '' @ p)))
           | Some i \<Rightarrow>
               if i_kind i = FDir \<and> dir_children fs p \<noteq> [] then
                 ret (Some (OsFail (''remove '' @ p @ '': directory not empty'')))
               else do { put_fs (AList.delete (Clean p) fs); ret None })
        })
   }"

definition os_Mkdir :: "'h host \<Rightarrow> string \<Rightarrow> 32 word \<Rightarrow> ('h world, err option) state" where
  "os_Mkdir h p perm = do {
     f \<leftarrow> ext (h_fault h ''mkdir'' p);
     t \<leftarrow> now h;
     fs \<leftarrow> get_fs;
     (case f of
        Some m \<Rightarrow> ret (Some (OsFail (''mkdir '' @ p @ '': '' @ m)))
      | None \<Rightarrow>
          (case entry_at fs p of
             Some _ \<Rightarrow> ret (Some (OsFail (''mkdir '' @ p @ '': file exists'')))
           | None \<Rightarrow> if p = [] then ret (Some (unresolved p)) else do {
               put_fs (AList.update (Clean p) \<lparr>i_kind = FDir, i_mode = perm AND NOT (h_umask h),
                 i_uid = h_uid h, i_gid = h_gid h, i_mtime = t\<rparr> fs);
               ret None
             }))
   }"

text \<open>
  \<^verbatim>\<open>os.MkdirAll\<close> creates the missing directories on the way, outermost first; a link to nowhere is in
  the way.
\<close>

fun mkdirs :: "'h host \<Rightarrow> 32 word \<Rightarrow> instant \<Rightarrow> string list \<Rightarrow> fs \<Rightarrow> fs res" where
  "mkdirs h perm t [] fs = Inr fs"
| "mkdirs h perm t (p # ps) fs =
     (case stat_at fs p of
        Inr i \<Rightarrow> if i_kind i = FDir then mkdirs h perm t ps fs
                 else Inl (OsFail (''mkdir '' @ p @ '': not a directory''))
      | Inl e \<Rightarrow>
          (if os_is_not_exist e \<and> map_of fs p \<noteq> None then Inl (OsFail (''mkdir '' @ p @ '': file exists''))
           else if os_is_not_exist e
           then mkdirs h perm t ps (AList.update p \<lparr>i_kind = FDir, i_mode = perm AND NOT (h_umask h),
                  i_uid = h_uid h, i_gid = h_gid h, i_mtime = t\<rparr> fs)
           else Inl e))"

definition ancestors :: "string \<Rightarrow> string list" where
  "ancestors p =
     (let cs = filter (\<lambda>c. c \<noteq> []) (Split slash (Clean p))
      in map (\<lambda>n. abs_path (take n cs)) [1..<Suc (length cs)])"

definition os_MkdirAll :: "'h host \<Rightarrow> string \<Rightarrow> 32 word \<Rightarrow> ('h world, err option) state" where
  "os_MkdirAll h p perm = do {
     f \<leftarrow> ext (h_fault h ''mkdir'' p);
     t \<leftarrow> now h;
     fs \<leftarrow> get_fs;
     (case f of
        Some m \<Rightarrow> ret (Some (OsFail (''mkdir '' @ p @ '': '' @ m)))
      | None \<Rightarrow> if p = [] then ret (Some (unresolved p)) else
          (case mkdirs h perm t (ancestors p) fs of
             Inl e \<Rightarrow> ret (Some e)
           | Inr fs' \<Rightarrow> do { put_fs fs'; ret None }))
   }"

definition on_inode :: "'h host \<Rightarrow> string \<Rightarrow> string \<Rightarrow> (inode \<Rightarrow> inode) \<Rightarrow>
    ('h world, err option) state" where
  "on_inode h name p g = do {
     f \<leftarrow> ext (h_fault h name p);
     fs \<leftarrow> get_fs;
     (case f of
        Some m \<Rightarrow> ret (Some (OsFail (name @ '' '' @ p @ '': '' @ m)))
      | None \<Rightarrow>
          (case resolve fs p of
             None \<Rightarrow> ret (Some (unresolved p))
           | Some q \<Rightarrow>
               (case map_of fs q of
                  None \<Rightarrow> ret (Some (OsNotExist (name @ '' '' @ p)))
                | Some i \<Rightarrow> do { put_fs (AList.update q (g i) fs); ret None })))
   }"

text \<open>
  An identifier of -1 leaves the owner or the group alone. \<^verbatim>\<open>os.Chmod\<close> passes on the nine permission
  bits and the setuid, setgid and sticky bits of an \<^verbatim>\<open>os.FileMode\<close> (bits 23, 22 and 20).
\<close>

definition mode_perm :: "32 word" where
  "mode_perm = 0x1FF"

definition mode_settable :: "32 word" where
  "mode_settable = 0xD001FF"

definition os_Chown :: "'h host \<Rightarrow> string \<Rightarrow> 32 word \<Rightarrow> 32 word \<Rightarrow> ('h world, err option) state" where
  "os_Chown h p uid gid = on_inode h ''chown'' p 
     (\<lambda>i. i\<lparr>i_uid := if uid = -1 then i_uid i else uid, i_gid := if gid = -1 then i_gid i else gid\<rparr>)"

definition os_Chmod :: "'h host \<Rightarrow> string \<Rightarrow> 32 word \<Rightarrow> ('h world, err option) state" where
  "os_Chmod h p mode = on_inode h ''chmod'' p (\<lambda>i. i\<lparr>i_mode := mode AND mode_settable\<rparr>)"

definition os_Readlink :: "'h host \<Rightarrow> string \<Rightarrow> ('h world, string res) state" where
  "os_Readlink h p = syscall h ''readlink'' p (do {
     fs \<leftarrow> get_fs;
     ret (case entry_at fs p of
            None \<Rightarrow> Inl (OsNotExist (''readlink '' @ p))
          | Some i \<Rightarrow> (case i_kind i of
                         FLink t \<Rightarrow> Inr t
                       | _ \<Rightarrow> Inl (OsFail (''readlink '' @ p @ '': invalid argument''))))
   })"

definition os_Symlink :: "'h host \<Rightarrow> string \<Rightarrow> string \<Rightarrow> ('h world, err option) state" where
  "os_Symlink h target p = do {
     f \<leftarrow> ext (h_fault h ''symlink'' p);
     t \<leftarrow> now h;
     fs \<leftarrow> get_fs;
     (case f of
        Some m \<Rightarrow> ret (Some (OsFail (''symlink '' @ p @ '': '' @ m)))
      | None \<Rightarrow>
          (case entry_at fs p of
             Some _ \<Rightarrow> ret (Some (OsFail (''symlink '' @ p @ '': file exists'')))
           | None \<Rightarrow> if p = [] then ret (Some (unresolved p)) else do {
               put_fs (AList.update (Clean p) \<lparr>i_kind = FLink target, i_mode = 511,
                 i_uid = h_uid h, i_gid = h_gid h, i_mtime = t\<rparr> fs);
               ret None
             }))
   }"

definition os_ReadDir :: "'h host \<Rightarrow> string \<Rightarrow> ('h world, (string \<times> bool) list res) state" where
  "os_ReadDir h p = syscall h ''open'' p (do {
     fs \<leftarrow> get_fs;
     ret (case resolve fs p of
            None \<Rightarrow> Inl (unresolved p)
          | Some q \<Rightarrow>
              (case map_of fs q of
                 None \<Rightarrow> Inl (OsNotExist (''open '' @ p))
               | Some i \<Rightarrow> if i_kind i = FDir then Inr (dir_children fs q)
                           else Inl (OsFail (''readdirent '' @ p @ '': not a directory''))))
   })"

section \<open>No file call leaves an event\<close>

lemma emits_syscall [emits_rules]: "emits P k \<Longrightarrow> emits P (syscall h name p k)"
  unfolding syscall_def by (intro emits_rules)

lemma emits_os_read [emits_rules]:
  "emits P (os_Stat h p)" "emits P (os_ReadFile h p)" "emits P (os_Readlink h p)"
  "emits P (os_ReadDir h p)"
  unfolding os_Stat_def os_ReadFile_def os_Readlink_def os_ReadDir_def
  by (intro emits_rules)+

lemma emits_os_OpenTrunc [emits_rules]: "emits P (os_OpenTrunc h p perm)"
  unfolding os_OpenTrunc_def by (intro emits_rules) (auto intro!: emits_rules split: fkind.split)

lemma emits_file_Write [emits_rules]: "emits P (file_Write h q data)"
  unfolding file_Write_def by (intro emits_rules)

lemma emits_os_WriteFile [emits_rules]: "emits P (os_WriteFile h p data perm)"
  unfolding os_WriteFile_def by (intro emits_rules)

lemma emits_os_Remove [emits_rules]: "emits P (os_Remove h p)"
  unfolding os_Remove_def by (intro emits_rules)

lemma emits_os_Mkdir [emits_rules]: "emits P (os_Mkdir h p perm)" "emits P (os_MkdirAll h p perm)"
  unfolding os_Mkdir_def os_MkdirAll_def by (intro emits_rules)+

lemma emits_on_inode [emits_rules]: "emits P (on_inode h name p g)"
  unfolding on_inode_def by (intro emits_rules)

lemma emits_os_Chown [emits_rules]: "emits P (os_Chown h p u g)"
  unfolding os_Chown_def by (intro emits_rules)

lemma emits_os_Chmod [emits_rules]: "emits P (os_Chmod h p m)"
  unfolding os_Chmod_def by (intro emits_rules)

lemma emits_os_Symlink [emits_rules]: "emits P (os_Symlink h t p)"
  unfolding os_Symlink_def by (intro emits_rules)

section \<open>What the calls do to the filesystem\<close>

text \<open>A read leaves the filesystem alone and reports what is there.\<close>

lemma os_Stat_fs: "run_state (os_Stat h p) w = (r, w') \<Longrightarrow> w_fs w' = w_fs w"
  by (auto simp: os_Stat_def syscall_def split: prod.splits option.splits)

lemma os_Stat_ok: "run_state (os_Stat h p) w = (Inr i, w') \<Longrightarrow> stat_at (w_fs w) p = Inr i"
  by (auto simp: os_Stat_def syscall_def split: prod.splits option.splits)

lemma os_Stat_not_exist:
  "run_state (os_Stat h p) w = (Inl e, w') \<Longrightarrow> os_is_not_exist e \<Longrightarrow> stat_at (w_fs w) p = Inl e"
  by (auto simp: os_Stat_def syscall_def split: prod.splits option.splits)

lemma os_ReadFile_fs: "run_state (os_ReadFile h p) w = (r, w') \<Longrightarrow> w_fs w' = w_fs w"
  by (auto simp: os_ReadFile_def syscall_def split: prod.splits option.splits)

definition content_at :: "fs \<Rightarrow> string \<Rightarrow> string option" where
  "content_at fs p =
     (case stat_at fs p of
        Inl _ \<Rightarrow> None
      | Inr i \<Rightarrow> (case i_kind i of FFile c \<Rightarrow> Some c | _ \<Rightarrow> None))"

lemma os_ReadFile_ok: "run_state (os_ReadFile h p) w = (Inr c, w') \<Longrightarrow> content_at (w_fs w) p = Some c"
  by (auto simp: os_ReadFile_def syscall_def content_at_def
      split: prod.splits option.splits sum.splits fkind.splits)

lemma os_ReadFile_not_exist:
  "run_state (os_ReadFile h p) w = (Inl e, w') \<Longrightarrow> os_is_not_exist e \<Longrightarrow> content_at (w_fs w) p = None"
  by (auto simp: os_ReadFile_def syscall_def content_at_def
      split: prod.splits option.splits sum.splits fkind.splits)

lemma os_Readlink_fs: "run_state (os_Readlink h p) w = (r, w') \<Longrightarrow> w_fs w' = w_fs w"
  by (auto simp: os_Readlink_def syscall_def split: prod.splits option.splits)

lemma os_ReadDir_fs: "run_state (os_ReadDir h p) w = (r, w') \<Longrightarrow> w_fs w' = w_fs w"
  by (auto simp: os_ReadDir_def syscall_def split: prod.splits option.splits)

text \<open>Writing a file: afterwards it has the content, and every other path is as before.\<close>

lemma os_OpenTrunc_ok:
  assumes "run_state (os_OpenTrunc h p perm) w = (Inr q, w')"
  shows "resolve (w_fs w) p = Some q" and "resolve (w_fs w') p = Some q"
    and "\<exists>i. map_of (w_fs w') q = Some i"
    and "\<forall>k. k \<noteq> q \<longrightarrow> map_of (w_fs w') k = map_of (w_fs w) k"
  using assms
  by (auto simp: os_OpenTrunc_def syscall_def now_def resolve_update AList.update_conv'
      split: prod.splits option.splits fkind.splits)

lemma file_Write_ok:
  assumes "run_state (file_Write h q data) w = (None, w')" and "map_of (w_fs w) q = Some i"
  shows "\<exists>j. map_of (w_fs w') q = Some j \<and> i_kind j = FFile data"
    and "\<forall>k. k \<noteq> q \<longrightarrow> map_of (w_fs w') k = map_of (w_fs w) k"
    and "\<exists>t. w_fs w' = AList.update q (i\<lparr>i_kind := FFile data, i_mtime := t\<rparr>) (w_fs w)"
  using assms
  by (auto simp: file_Write_def now_def set_content_def AList.update_conv'
      split: prod.splits option.splits)

lemma write_after_open:
  assumes "run_state (os_OpenTrunc h p perm) w = (Inr q, w1)"
    and "run_state (file_Write h q data) w1 = (None, w')"
  shows "content_at (w_fs w') p = Some data"
    and "\<forall>k. resolve (w_fs w) p \<noteq> Some k \<longrightarrow> map_of (w_fs w') k = map_of (w_fs w) k"
proof -
  note o = os_OpenTrunc_ok[OF assms(1)]
  then obtain i where i: "map_of (w_fs w1) q = Some i" by blast
  note wr = file_Write_ok[OF assms(2) i]
  then obtain t where "w_fs w' = AList.update q (i\<lparr>i_kind := FFile data, i_mtime := t\<rparr>) (w_fs w1)"
    by blast
  then have "stat_at (w_fs w') p = Inr (i\<lparr>i_kind := FFile data, i_mtime := t\<rparr>)"
    using o(2) by (simp add: stat_at_update)
  then show "content_at (w_fs w') p = Some data" by (simp add: content_at_def)
  show "\<forall>k. resolve (w_fs w) p \<noteq> Some k \<longrightarrow> map_of (w_fs w') k = map_of (w_fs w) k"
    using o wr by simp
qed

text \<open>Making directories changes the content of no file.\<close>

lemma follow_new_dir:
  "map_of fs p = None \<Longrightarrow> \<forall>t. i_kind i \<noteq> FLink t \<Longrightarrow> follow n (AList.update p i fs) q = follow n fs q"
proof (induction n arbitrary: q)
  case (Suc n)
  then show ?case by (cases "q = p") (auto simp: AList.update_conv' split: option.splits fkind.splits)
qed simp

lemma content_at_new_dir:
  "map_of fs p = None \<Longrightarrow> i_kind i = FDir \<Longrightarrow> content_at (AList.update p i fs) q = content_at fs q"
  by (auto simp: content_at_def stat_at_def resolve_def follow_new_dir AList.update_conv' split: option.splits sum.splits)

lemma mkdirs_content: "mkdirs h perm t ps fs = Inr fs' \<Longrightarrow> content_at fs' q = content_at fs q"
  by (induction h perm t ps fs rule: mkdirs.induct)
    (auto simp: content_at_new_dir split: sum.splits if_splits)

lemma os_MkdirAll_content:
  "run_state (os_MkdirAll h p perm) w = (r, w') \<Longrightarrow> content_at (w_fs w') q = content_at (w_fs w) q"
  by (auto simp: os_MkdirAll_def now_def mkdirs_content split: prod.splits option.splits sum.splits if_splits)

lemma os_Remove_ok:
  assumes "run_state (os_Remove h p) w = (None, w')"
  shows "w_fs w' = AList.delete (Clean p) (w_fs w)" and "p \<noteq> []"
  using assms by (auto simp: os_Remove_def entry_at_def split: prod.splits option.splits if_splits)

lemma os_Remove_failed:
  assumes "run_state (os_Remove h p) w = (Some e, w')"
  shows "w_fs w' = w_fs w"
  using assms by (auto simp: os_Remove_def split: prod.splits option.splits if_splits)

lemma on_inode_ok:
  assumes "run_state (on_inode h name p g) w = (None, w')" and "\<And>i. i_kind (g i) = i_kind i"
  shows "\<exists>i. stat_at (w_fs w) p = Inr i \<and> stat_at (w_fs w') p = Inr (g i)"
proof -
  obtain q i where q: "resolve (w_fs w) p = Some q" "map_of (w_fs w) q = Some i"
    and fs: "w_fs w' = AList.update q (g i) (w_fs w)"
    using assms(1) by (auto simp: on_inode_def split: prod.splits option.splits)
  have "\<forall>t. i_kind (g i) \<noteq> FLink t"
    using q follow_no_link by (auto simp: assms(2) resolve_def split: if_splits)
  with q fs show ?thesis by (auto simp: stat_at_update stat_at_def resolve_update AList.update_conv')
qed

lemma on_inode_failed:
  "run_state (on_inode h name p g) w = (Some e, w') \<Longrightarrow> w_fs w' = w_fs w"
  by (auto simp: on_inode_def split: prod.splits option.splits)

section \<open>Running commands: pkg/execs\<close>

definition run_proc :: "'h host \<Rightarrow> string \<Rightarrow> string list \<Rightarrow> string \<Rightarrow> ('h world, proc) state" where
  "run_proc h cmd args stdin = State (\<lambda>w.
     case h_exec h cmd args stdin (w_fs w, w_ext w) of
       (p, f, x) \<Rightarrow> (p, w\<lparr>w_fs := f, w_ext := x,
                        w_trace := w_trace w @ [EvExec cmd args stdin (exit_code p)]\<rparr>))"

definition exec_error :: "string \<Rightarrow> string list \<Rightarrow> string \<Rightarrow> err" where
  "exec_error cmd args m =
     Wrap (''failed to execute '' @ Quote cmd @ '' '' @ show_slice args) (Plain m)"

text \<open>On failure the standard error of the command takes the place of its output.\<close>

definition proc_result :: "string \<Rightarrow> string list \<Rightarrow> proc \<Rightarrow> string \<times> int \<times> err option" where
  "proc_result cmd args p =
     (case p of
        Exited n out er \<Rightarrow>
          (if n = 0 then (out, 0, None)
           else (er, n, Some (exec_error cmd args (''exit status '' @ Itoa n))))
      | Killed out er \<Rightarrow> (er, -1, Some (exec_error cmd args ''signal: killed''))
      | NotStarted m \<Rightarrow> ([], -1, Some (exec_error cmd args m)))"

definition RunCommandWithInput :: "'h host \<Rightarrow> string \<Rightarrow> string \<Rightarrow> string list \<Rightarrow>
    ('h world, string \<times> int \<times> err option) state" where
  "RunCommandWithInput h stdin cmd args = do {
     p \<leftarrow> run_proc h cmd args stdin;
     ret (proc_result cmd args p)
   }"

definition RunCommand :: "'h host \<Rightarrow> string \<Rightarrow> string list \<Rightarrow>
    ('h world, string \<times> int \<times> err option) state" where
  "RunCommand h cmd args = do {
     p \<leftarrow> run_proc h cmd args [];
     ret (proc_result cmd args p)
   }"

definition SimpleRunCommand :: "'h host \<Rightarrow> string \<Rightarrow> string list \<Rightarrow> ('h world, err option) state" where
  "SimpleRunCommand h cmd args = do {
     (out, code, e) \<leftarrow> RunCommand h cmd args;
     ret (case e of None \<Rightarrow> None | Some x \<Rightarrow> Some (Wrap out x))
   }"

text \<open>Running a command succeeds exactly when the process exits with code 0.\<close>

lemma proc_result_ok: "snd (snd (proc_result cmd args p)) = None \<longleftrightarrow> exit_code p = 0"
  by (cases p) (auto simp: proc_result_def)

lemma proc_result_code: "fst (snd (proc_result cmd args p)) = exit_code p"
  by (cases p) (auto simp: proc_result_def)

definition is_exec :: "event \<Rightarrow> bool" where
  "is_exec e = (case e of EvExec _ _ _ _ \<Rightarrow> True | _ \<Rightarrow> False)"

lemma is_exec_simps [simp]: "is_exec (EvExec c a i n)" "\<not> is_exec (EvCall k b)" "\<not> is_exec (EvApi v ob b)"
  by (auto simp: is_exec_def)

lemma emits_run_proc [emits_rules]:
  "(\<And>n. P (EvExec cmd args stdin n)) \<Longrightarrow> emits P (run_proc h cmd args stdin)"
  by (auto simp: emits_def run_proc_def split: prod.split)

lemma emits_RunCommand [emits_rules]:
  "(\<And>n. P (EvExec cmd args [] n)) \<Longrightarrow> emits P (RunCommand h cmd args)"
  unfolding RunCommand_def by (intro emits_rules)

lemma emits_RunCommandWithInput [emits_rules]:
  "(\<And>n. P (EvExec cmd args i n)) \<Longrightarrow> emits P (RunCommandWithInput h i cmd args)"
  unfolding RunCommandWithInput_def by (intro emits_rules)

lemma emits_SimpleRunCommand [emits_rules]:
  "(\<And>n. P (EvExec cmd args [] n)) \<Longrightarrow> emits P (SimpleRunCommand h cmd args)"
  unfolding SimpleRunCommand_def by (intro emits_rules)

text \<open>A command that \<open>SimpleRunCommand\<close> reports as done exited with code 0.\<close>

lemma RunCommand_trace:
  assumes "run_state (RunCommand h cmd args) w = ((out, n, e), w')"
  shows "w_trace w' = w_trace w @ [EvExec cmd args [] n] \<and> (e = None \<longleftrightarrow> n = 0)"
proof -
  obtain p where "proc_result cmd args p = (out, n, e)"
    and "w_trace w' = w_trace w @ [EvExec cmd args [] (exit_code p)]"
    using assms by (auto simp: RunCommand_def run_proc_def split: prod.splits)
  with proc_result_ok[of cmd args p] proc_result_code[of cmd args p] show ?thesis by simp
qed

lemma SimpleRunCommand_trace:
  assumes "run_state (SimpleRunCommand h cmd args) w = (e, w')"
  shows "\<exists>n. w_trace w' = w_trace w @ [EvExec cmd args [] n] \<and> (e = None \<longleftrightarrow> n = 0)"
proof -
  obtain out n e0 where "run_state (RunCommand h cmd args) w = ((out, n, e0), w')"
    and "e = None \<longleftrightarrow> e0 = None"
    using assms by (auto simp: SimpleRunCommand_def split: prod.splits option.splits)
  with RunCommand_trace show ?thesis by metis
qed

end
