(* ===== verification/ApiServer.thy ===== *)
theory ApiServer
  imports OsFile
begin

text \<open>
  A reference instance of the parameters of \<open>World\<close>: an API server with the optimistic concurrency
  that Kubernetes documents (every write gives the object a fresh resource version; an update that
  carries a version other than the stored one is refused with a conflict; creating a name that exists
  is refused), and a host whose commands all succeed. The controllers are parametric in both; this
  instance discharges the hypotheses about the server and runs the witnesses.
\<close>

section \<open>Objects by kind and name\<close>

fun kind_of :: "kobj \<Rightarrow> kind" where
  "kind_of (OManagedNode _) = KManagedNode"
| "kind_of (OConfigSet _) = KConfigSet"
| "kind_of (OJail _) = KJail"
| "kind_of (OJailTemplate _) = KJailTemplate"
| "kind_of (OPoudriereBulk _) = KPoudriereBulk"
| "kind_of (OPoudriereJail _) = KPoudriereJail"
| "kind_of (OPoudrierePorts _) = KPoudrierePorts"
| "kind_of (OLease _) = KLease"
| "kind_of (OSecret _) = KSecret"
| "kind_of (OConfigMap _) = KConfigMap"
| "kind_of (ONode _) = KNode"
| "kind_of (OPod _) = KPod"
| "kind_of (OUnstructured u) = KUnstructured (u_apiVersion u) (u_kind u)"

fun meta_of :: "kobj \<Rightarrow> object_meta" where
  "meta_of (OManagedNode x) = mn_meta x"
| "meta_of (OConfigSet x) = cs_meta x"
| "meta_of (OJail x) = j_meta x"
| "meta_of (OJailTemplate x) = jt_meta x"
| "meta_of (OPoudriereBulk x) = pb_meta x"
| "meta_of (OPoudriereJail x) = pj_meta x"
| "meta_of (OPoudrierePorts x) = pp_meta x"
| "meta_of (OLease x) = l_meta x"
| "meta_of (OSecret x) = sec_meta x"
| "meta_of (OConfigMap x) = cm_meta x"
| "meta_of (ONode x) = kn_meta x"
| "meta_of (OPod x) = pod_meta x"
| "meta_of (OUnstructured x) = u_meta x"

fun with_meta :: "object_meta \<Rightarrow> kobj \<Rightarrow> kobj" where
  "with_meta m (OManagedNode x) = OManagedNode (x\<lparr>mn_meta := m\<rparr>)"
| "with_meta m (OConfigSet x) = OConfigSet (x\<lparr>cs_meta := m\<rparr>)"
| "with_meta m (OJail x) = OJail (x\<lparr>j_meta := m\<rparr>)"
| "with_meta m (OJailTemplate x) = OJailTemplate (x\<lparr>jt_meta := m\<rparr>)"
| "with_meta m (OPoudriereBulk x) = OPoudriereBulk (x\<lparr>pb_meta := m\<rparr>)"
| "with_meta m (OPoudriereJail x) = OPoudriereJail (x\<lparr>pj_meta := m\<rparr>)"
| "with_meta m (OPoudrierePorts x) = OPoudrierePorts (x\<lparr>pp_meta := m\<rparr>)"
| "with_meta m (OLease x) = OLease (x\<lparr>l_meta := m\<rparr>)"
| "with_meta m (OSecret x) = OSecret (x\<lparr>sec_meta := m\<rparr>)"
| "with_meta m (OConfigMap x) = OConfigMap (x\<lparr>cm_meta := m\<rparr>)"
| "with_meta m (ONode x) = ONode (x\<lparr>kn_meta := m\<rparr>)"
| "with_meta m (OPod x) = OPod (x\<lparr>pod_meta := m\<rparr>)"
| "with_meta m (OUnstructured x) = OUnstructured (x\<lparr>u_meta := m\<rparr>)"

text \<open>What a write to the status subresource takes from the written object.\<close>

fun with_status :: "kobj \<Rightarrow> kobj \<Rightarrow> kobj" where
  "with_status (OManagedNode new) (OManagedNode old) = OManagedNode (old\<lparr>mn_status := mn_status new\<rparr>)"
| "with_status (OConfigSet new) (OConfigSet old) = OConfigSet (old\<lparr>cs_conditions := cs_conditions new\<rparr>)"
| "with_status (OJail new) (OJail old) = OJail (old\<lparr>j_status := j_status new\<rparr>)"
| "with_status _ old = old"

definition key_of :: "kobj \<Rightarrow> kind \<times> nsname" where
  "key_of x = (kind_of x, \<lparr>ns_namespace = om_namespace (meta_of x), ns_name = om_name (meta_of x)\<rparr>)"

section \<open>The server\<close>

record api =
  as_objs :: "((kind \<times> nsname) \<times> kobj) list"
  as_rv :: nat
  as_now :: instant
  as_hostname :: string

definition rv_string :: "nat \<Rightarrow> string" where
  "rv_string n = nat_digits n"

definition stamped :: "nat \<Rightarrow> kobj \<Rightarrow> kobj" where
  "stamped n x = with_meta ((meta_of x)\<lparr>om_resourceVersion := rv_string n\<rparr>) x"

definition not_found :: err where
  "not_found = ApiErr RNotFound ''not found''"

definition store_get :: "kind \<Rightarrow> nsname \<Rightarrow> api \<Rightarrow> kobj res" where
  "store_get k nn s = (case map_of (as_objs s) (k, nn) of Some x \<Rightarrow> Inr x | None \<Rightarrow> Inl not_found)"

definition store_put :: "kind \<times> nsname \<Rightarrow> kobj \<Rightarrow> api \<Rightarrow> kobj res \<times> api" where
  "store_put key x s =
     (let y = stamped (Suc (as_rv s)) x
      in (Inr y, s\<lparr>as_objs := AList.update key y (as_objs s), as_rv := Suc (as_rv s)\<rparr>))"

definition store_create :: "kobj \<Rightarrow> api \<Rightarrow> kobj res \<times> api" where
  "store_create x s =
     (case map_of (as_objs s) (key_of x) of
        Some _ \<Rightarrow> (Inl (ApiErr RAlreadyExists ''already exists''), s)
      | None \<Rightarrow> store_put (key_of x) x s)"

definition store_update :: "(kobj \<Rightarrow> kobj \<Rightarrow> kobj) \<Rightarrow> kobj \<Rightarrow> api \<Rightarrow> kobj res \<times> api" where
  "store_update merge x s =
     (case map_of (as_objs s) (key_of x) of
        None \<Rightarrow> (Inl not_found, s)
      | Some old \<Rightarrow>
          if om_resourceVersion (meta_of x) \<noteq> om_resourceVersion (meta_of old)
          then (Inl (ApiErr RConflict ''the object has been modified''), s)
          else store_put (key_of x) (merge x old) s)"

definition store_client :: "api client" where
  "store_client = \<lparr>
     cl_get = (\<lambda>k nn. State (\<lambda>s. (store_get k nn s, s))),
     cl_list = (\<lambda>k ns. State (\<lambda>s. (Inr (map snd (filter (\<lambda>((k', nn), _).
        k' = k \<and> (case ns of None \<Rightarrow> True | Some n \<Rightarrow> ns_namespace nn = n)) (as_objs s))), s))),
     cl_create = (\<lambda>x. State (store_create x)),
     cl_update = (\<lambda>x. State (store_update (\<lambda>new old. new) x)),
     cl_updateStatus = (\<lambda>x. State (store_update with_status x)),
     cl_cordon = (\<lambda>n b. ret None),
     cl_evict = (\<lambda>nn. ret None)\<rparr>"

definition ref_host :: "api host" where
  "ref_host = \<lparr>
     h_exec = (\<lambda>cmd args stdin (f, x). (Exited 0 [] [], f, x)),
     h_now = State (\<lambda>s. (as_now s, s)),
     h_hostname = State (\<lambda>s. (Inr (as_hostname s), s)),
     h_ctxErr = ret None,
     h_userId = (\<lambda>u. ret (Inr ''0'')), h_groupId = (\<lambda>g. ret (Inr ''0'')),
     h_userName = (\<lambda>u. ret (Inr ''root'')), h_groupName = (\<lambda>g. ret (Inr ''root'')),
     h_fault = (\<lambda>name p. ret None),
     h_partial = (\<lambda>p d. ret 0),
     h_umask = 18, h_uid = 0, h_gid = 0\<rparr>"

lemma rv_string_inj [simp]: "rv_string m = rv_string n \<longleftrightarrow> m = n"
  unfolding rv_string_def by (metis digits_val_nat_digits of_nat_eq_iff option.inject)

lemma meta_of_with_meta [simp]: "meta_of (with_meta m x) = m"
  by (cases x) auto

lemma kind_of_with_meta [simp]: "kind_of (with_meta m x) = kind_of x"
  by (cases x) auto

lemma key_of_stamped [simp]: "key_of (stamped n x) = key_of x"
  by (simp add: key_of_def stamped_def)

lemma stamped_rv [simp]: "om_resourceVersion (meta_of (stamped n x)) = rv_string n"
  by (simp add: stamped_def)

lemma stamped_OLease [simp]:
  "stamped n (OLease l) = OLease (l\<lparr>l_meta := (l_meta l)\<lparr>om_resourceVersion := rv_string n\<rparr>\<rparr>)"
  by (simp add: stamped_def)

text \<open>A successful write stores the object under its own key and touches no other key.\<close>

lemma store_put_get:
  "store_put key x s = (r, s') \<Longrightarrow>
   map_of (as_objs s') = (map_of (as_objs s))(key \<mapsto> stamped (Suc (as_rv s)) x) \<and>
   as_rv s' = Suc (as_rv s) \<and> as_now s' = as_now s"
  by (auto simp: store_put_def Let_def AList.update_conv')

lemma store_client_get [simp]:
  "run_state (cl_get store_client k nn) s = (store_get k nn s, s)"
  by (simp add: store_client_def)

lemma store_client_create [simp]: "run_state (cl_create store_client x) s = store_create x s"
  by (simp add: store_client_def)

lemma store_client_update [simp]:
  "run_state (cl_update store_client x) s = store_update (\<lambda>new old. new) x s"
  by (simp add: store_client_def)

lemma store_client_updateStatus [simp]:
  "run_state (cl_updateStatus store_client x) s = store_update with_status x s"
  by (simp add: store_client_def)

lemma ref_host_now [simp]: "run_state (h_now ref_host) s = (as_now s, s)"
  by (simp add: ref_host_def)

lemma ref_host_ctx [simp]: "h_ctxErr ref_host = ret None"
  by (simp add: ref_host_def)

lemma ref_host_hostname [simp]: "run_state (h_hostname ref_host) s = (Inr (as_hostname s), s)"
  by (simp add: ref_host_def)

lemma ref_host_fault [simp]: "h_fault ref_host name p = ret None"
  by (simp add: ref_host_def)

end
