(* ===== verification/Locker.thy ===== *)
theory Locker
  imports ApiServer "HOL-Library.Signed_Division"
begin

text \<open>
  The distributed lock of \<^verbatim>\<open>pkg/locker\<close>: a Kubernetes \<open>Lease\<close> per lock name, taken by creating it or
  by overwriting an expired one, released by clearing the holder. The operations follow
  \<^verbatim>\<open>leaselocker.go\<close>; the retry loops count attempts as \<^verbatim>\<open>dskit/backoff\<close> does. With
  \<open>MaxRetries = 0\<close> the loops are unbounded, so an operation is a partial function on the outside
  state: \<open>None\<close> is an operation that never returns, because it retries for ever or because it
  panics on a nil pointer. The decisions taken between two API requests are separate definitions,
  which the interleaving semantics of \<open>LockerProtocol\<close> shares.
\<close>

section \<open>State and configuration\<close>

record locker_config =
  lc_minBackoff :: duration
  lc_maxBackoff :: duration
  lc_maxRetries :: int
  lc_leaseDuration :: duration

record lease_locker =
  ll_cfg :: locker_config
  ll_namespace :: string
  ll_id :: string

definition NewLeaseLocker :: "locker_config \<Rightarrow> string \<Rightarrow> string \<Rightarrow> lease_locker" where
  "NewLeaseLocker cfg namespace ident = \<lparr>ll_cfg = cfg, ll_namespace = namespace, ll_id = ident\<rparr>"

text \<open>The defaults that \<^verbatim>\<open>RegisterFlagsAndApplyDefaults\<close> registers: waits of three seconds to three
  minutes without a limit on the retries, a lease of seven minutes.\<close>

definition default_locker_config :: locker_config where
  "default_locker_config = \<lparr>lc_minBackoff = 3 * second, lc_maxBackoff = 3 * 60 * second, lc_maxRetries = 0,
     lc_leaseDuration = 7 * 60 * second\<rparr>"

text \<open>\<^verbatim>\<open>backoff.Ongoing\<close> after \<open>n\<close> waits, with the context's error.\<close>

definition ongoing :: "locker_config \<Rightarrow> err option \<Rightarrow> nat \<Rightarrow> bool" where
  "ongoing cfg ctx n \<longleftrightarrow> ctx = None \<and> (lc_maxRetries cfg = 0 \<or> int n < lc_maxRetries cfg)"

section \<open>Lease requests\<close>

definition as_lease :: "kobj res \<Rightarrow> lease res" where
  "as_lease r = (case r of
     Inl e \<Rightarrow> Inl e
   | Inr (OLease l) \<Rightarrow> Inr l
   | Inr _ \<Rightarrow> Inl (Plain ''unexpected object''))"

definition get_lease :: "'h client \<Rightarrow> nsname \<Rightarrow> ('h, lease res) state" where
  "get_lease cl req = do { r \<leftarrow> cl_get cl KLease req; ret (as_lease r) }"

definition create_lease :: "'h client \<Rightarrow> lease \<Rightarrow> ('h, lease res) state" where
  "create_lease cl l = do { r \<leftarrow> cl_create cl (OLease l); ret (as_lease r) }"

definition update_lease :: "'h client \<Rightarrow> lease \<Rightarrow> ('h, lease res) state" where
  "update_lease cl l = do { r \<leftarrow> cl_update cl (OLease l); ret (as_lease r) }"

section \<open>The decisions of LockFor and Unlock\<close>

text \<open>\<^verbatim>\<open>int32(duration.Seconds())\<close> truncates towards zero and keeps 32 bits.\<close>

definition seconds_int32 :: "duration \<Rightarrow> 32 word" where
  "seconds_int32 d = word_of_int (d sdiv second)"

definition lock_data :: "lease_locker \<Rightarrow> instant \<Rightarrow> duration \<Rightarrow> lease_spec" where
  "lock_data l t d = \<lparr>l_holder = Some (ll_id l), l_durationSeconds = Some (seconds_int32 d),
     l_acquireTime = Some t, l_renewTime = Some t\<rparr>"

definition new_lease :: "nsname \<Rightarrow> lease_spec \<Rightarrow> lease" where
  "new_lease req data =
     \<lparr>l_meta = empty_meta\<lparr>om_name := ns_name req, om_namespace := ns_namespace req\<rparr>, l_spec = data\<rparr>"

text \<open>The instant until which a lease is in force; \<open>None\<close> when a pointer it needs is nil.\<close>

definition expiry :: "lease_spec \<Rightarrow> instant option" where
  "expiry sp = (case (l_renewTime sp, l_durationSeconds sp) of
     (Some r, Some d) \<Rightarrow> Some (r + sint d * second)
   | _ \<Rightarrow> None)"

definition held_by :: "lease_locker \<Rightarrow> lease_spec \<Rightarrow> bool" where
  "held_by l sp \<longleftrightarrow> l_holder sp = Some (ll_id l)"

datatype get_decision = GPanic | GHeld | GRefused err | GTakeOver lease

definition lease_conflict :: "string \<Rightarrow> err" where
  "lease_conflict m = ApiErr RConflict m"

definition lock_on_get :: "lease_locker \<Rightarrow> lease_spec \<Rightarrow> instant \<Rightarrow> lease \<Rightarrow> get_decision" where
  "lock_on_get l data t ex = (case expiry (l_spec ex) of
     None \<Rightarrow> GPanic
   | Some x \<Rightarrow>
       if held_by l (l_spec ex) then GHeld
       else if \<not> x < t then GRefused (lease_conflict ''lock held by another instance and not expired'')
       else GTakeOver (ex\<lparr>l_spec := data\<rparr>))"

lemma lock_on_get_held: "lock_on_get l data t ex = GHeld \<Longrightarrow> held_by l (l_spec ex)"
  by (auto simp: lock_on_get_def split: option.splits if_splits)

lemma lock_on_get_takeover:
  "lock_on_get l data t ex = GTakeOver u \<Longrightarrow>
   u = ex\<lparr>l_spec := data\<rparr> \<and> (\<exists>e. expiry (l_spec ex) = Some e \<and> e < t)"
  by (auto simp: lock_on_get_def split: option.splits if_splits)

definition two_hours :: duration where
  "two_hours = 2 * 60 * 60 * second"

text \<open>What \<open>Unlock\<close> writes over a lease it holds; \<open>None\<close> when it holds none.\<close>

definition unlock_on_get :: "lease_locker \<Rightarrow> instant \<Rightarrow> lease \<Rightarrow> lease option" where
  "unlock_on_get l t ex =
     (if \<not> held_by l (l_spec ex) then None
      else Some (ex\<lparr>l_spec := (l_spec ex)\<lparr>l_holder := None, l_renewTime := Some (t - two_hours)\<rparr>\<rparr>))"

section \<open>The operations\<close>

type_synonym ('h, 'a) partial = "'h \<Rightarrow> ('a \<times> 'h) option"

partial_function (option) lock_loop :: "'h host \<Rightarrow> 'h client \<Rightarrow> lease_locker \<Rightarrow> nsname \<Rightarrow>
    lease_spec \<Rightarrow> nat \<Rightarrow> ('h, err option) partial" where
  "lock_loop h cl l req data n s = (case run_state (h_ctxErr h) s of (c, s1) \<Rightarrow>
     if \<not> ongoing (ll_cfg l) c n then
       Some (Some (lease_conflict
         ''failed to acquire lock after multiple retries due to contention''), s1)
     else (case run_state (get_lease cl req) s1 of (r, s2) \<Rightarrow>
       (case r of
          Inl e \<Rightarrow> Some (Some e, s2)
        | Inr ex \<Rightarrow> (case run_state (h_now h) s2 of (t, s3) \<Rightarrow>
            (case lock_on_get l data t ex of
               GPanic \<Rightarrow> None
             | GHeld \<Rightarrow> Some (None, s3)
             | GRefused e \<Rightarrow> Some (Some e, s3)
             | GTakeOver u \<Rightarrow> (case run_state (update_lease cl u) s3 of (v, s4) \<Rightarrow>
                 (case v of
                    Inr _ \<Rightarrow> Some (None, s4)
                  | Inl e \<Rightarrow> if \<not> is_conflict e then Some (Some e, s4)
                             else lock_loop h cl l req data (Suc n) s4)))))))"

definition LockFor :: "'h host \<Rightarrow> 'h client \<Rightarrow> lease_locker \<Rightarrow> nsname \<Rightarrow> duration \<Rightarrow>
    ('h, err option) partial" where
  "LockFor h cl l req d s = (case run_state (h_ctxErr h) s of (c, s1) \<Rightarrow>
     (case c of
        Some e \<Rightarrow> Some (Some e, s1)
      | None \<Rightarrow> (case run_state (h_now h) s1 of (t, s2) \<Rightarrow>
          (case run_state (create_lease cl (new_lease req (lock_data l t d))) s2 of (r, s3) \<Rightarrow>
             (case r of
                Inr _ \<Rightarrow> Some (None, s3)
              | Inl e \<Rightarrow> if \<not> is_already_exists e then Some (Some e, s3)
                         else lock_loop h cl l req (lock_data l t d) 0 s3)))))"

definition Lock :: "'h host \<Rightarrow> 'h client \<Rightarrow> lease_locker \<Rightarrow> nsname \<Rightarrow> ('h, err option) partial" where
  "Lock h cl l req = LockFor h cl l req (lc_leaseDuration (ll_cfg l))"

partial_function (option) unlock_loop :: "'h host \<Rightarrow> 'h client \<Rightarrow> lease_locker \<Rightarrow> nsname \<Rightarrow>
    nat \<Rightarrow> ('h, err option) partial" where
  "unlock_loop h cl l req n s = (case run_state (h_ctxErr h) s of (c, s1) \<Rightarrow>
     if \<not> ongoing (ll_cfg l) c n then
       Some (Some (lease_conflict
         ''failed to release lock after multiple retries due to contention''), s1)
     else (case run_state (get_lease cl req) s1 of (r, s2) \<Rightarrow>
       (case r of
          Inl e \<Rightarrow> Some (if is_not_found e then None else Some e, s2)
        | Inr ex \<Rightarrow>
            if \<not> held_by l (l_spec ex) then Some (None, s2)
            else (case run_state (h_now h) s2 of (t, s3) \<Rightarrow>
              (case unlock_on_get l t ex of
                 None \<Rightarrow> Some (None, s3)
               | Some u \<Rightarrow> (case run_state (update_lease cl u) s3 of (v, s4) \<Rightarrow>
                   (case v of
                      Inr _ \<Rightarrow> Some (None, s4)
                    | Inl e \<Rightarrow> if \<not> is_conflict e then Some (Some e, s4)
                               else unlock_loop h cl l req (Suc n) s4)))))))"

definition Unlock :: "'h host \<Rightarrow> 'h client \<Rightarrow> lease_locker \<Rightarrow> nsname \<Rightarrow> ('h, err option) partial" where
  "Unlock h cl l req s = (case run_state (h_ctxErr h) s of (c, s1) \<Rightarrow>
     (case c of Some e \<Rightarrow> Some (Some e, s1) | None \<Rightarrow> unlock_loop h cl l req 0 s1))"

definition Locked :: "'h client \<Rightarrow> lease_locker \<Rightarrow> nsname \<Rightarrow> ('h, bool) state" where
  "Locked cl l req = do {
     r \<leftarrow> get_lease cl req;
     ret (case r of Inl _ \<Rightarrow> False | Inr ex \<Rightarrow> held_by l (l_spec ex))
   }"

section \<open>Termination\<close>

text \<open>
  With a limit on the retries the loops end, whatever the server answers, unless a stored lease lacks
  its renew time or its duration: then \<open>LockFor\<close> dereferences nil.
\<close>

definition leases_complete :: "'h client \<Rightarrow> bool" where
  "leases_complete cl \<longleftrightarrow>
     (\<forall>req s ex s'. run_state (get_lease cl req) s = (Inr ex, s') \<longrightarrow> expiry (l_spec ex) \<noteq> None)"

lemma lock_loop_returns:
  assumes "0 < lc_maxRetries (ll_cfg l)" and "leases_complete cl"
  shows "\<exists>y. lock_loop h cl l req data n s = Some y"
proof (induction "nat (lc_maxRetries (ll_cfg l)) - n" arbitrary: n s rule: less_induct)
  case less
  show ?case
  proof (cases "int n < lc_maxRetries (ll_cfg l)")
    case True
    then have "nat (lc_maxRetries (ll_cfg l)) - Suc n < nat (lc_maxRetries (ll_cfg l)) - n"
      by linarith
    note again = less[OF this, unfolded split_paired_Ex]
    have panic: "lock_on_get l data t ex \<noteq> GPanic"
      if "run_state (get_lease cl req) s' = (Inr ex, s'')" for t ex s' s''
      using that assms(2) by (fastforce simp: leases_complete_def lock_on_get_def split: if_splits)
    show ?thesis
      by (subst lock_loop.simps)
        (auto simp: again split: prod.split sum.split get_decision.split dest: panic)
  next
    case False
    with assms(1) show ?thesis
      by (subst lock_loop.simps) (auto simp: ongoing_def split: prod.split)
  qed
qed

lemma unlock_loop_returns:
  assumes "0 < lc_maxRetries (ll_cfg l)"
  shows "\<exists>y. unlock_loop h cl l req n s = Some y"
proof (induction "nat (lc_maxRetries (ll_cfg l)) - n" arbitrary: n s rule: less_induct)
  case less
  show ?case
  proof (cases "int n < lc_maxRetries (ll_cfg l)")
    case True
    then have "nat (lc_maxRetries (ll_cfg l)) - Suc n < nat (lc_maxRetries (ll_cfg l)) - n"
      by linarith
    note again = less[OF this, unfolded split_paired_Ex]
    show ?thesis
      by (subst unlock_loop.simps) (auto simp: again split: prod.split sum.split option.split)
  next
    case False
    with assms show ?thesis
      by (subst unlock_loop.simps) (auto simp: ongoing_def split: prod.split)
  qed
qed

section \<open>The lock as an abstract object\<close>

text \<open>
  What a lock promises, apart from how leases and requests bring it about: per name the current
  specification of its lease, and two operations on it. \<open>spec_lock\<close> succeeds on a free, an expired or
  an already held lock; \<open>spec_unlock\<close> clears the holder of a held lock and leaves any other alone.
\<close>

definition spec_lock :: "lease_locker \<Rightarrow> instant \<Rightarrow> duration \<Rightarrow> lease_spec option \<Rightarrow>
    bool \<times> lease_spec option" where
  "spec_lock l t d cur = (case cur of
     None \<Rightarrow> (True, Some (lock_data l t d))
   | Some sp \<Rightarrow>
       if held_by l sp then (True, cur)
       else if t \<le> the (expiry sp) then (False, cur)
       else (True, Some (lock_data l t d)))"

definition spec_unlock :: "lease_locker \<Rightarrow> instant \<Rightarrow> lease_spec option \<Rightarrow> lease_spec option" where
  "spec_unlock l t cur = (case cur of
     None \<Rightarrow> None
   | Some sp \<Rightarrow>
       if held_by l sp then Some (sp\<lparr>l_holder := None, l_renewTime := Some (t - two_hours)\<rparr>) else cur)"

text \<open>The view of a lock in the reference API server, and the leases it may store.\<close>

definition lock_view :: "api \<Rightarrow> nsname \<Rightarrow> lease_spec option" where
  "lock_view s req = (case map_of (as_objs s) (KLease, req) of
     Some (OLease x) \<Rightarrow> Some (l_spec x)
   | _ \<Rightarrow> None)"

definition lease_ok :: "api \<Rightarrow> nsname \<Rightarrow> bool" where
  "lease_ok s req = (case map_of (as_objs s) (KLease, req) of
     None \<Rightarrow> True
   | Some (OLease x) \<Rightarrow> key_of (OLease x) = (KLease, req) \<and> expiry (l_spec x) \<noteq> None
   | Some _ \<Rightarrow> False)"

lemma lease_ok_cases:
  assumes "lease_ok s req"
  obtains (free) "map_of (as_objs s) (KLease, req) = None" "lock_view s req = None"
  | (lease) x e where "map_of (as_objs s) (KLease, req) = Some (OLease x)"
      "key_of (OLease x) = (KLease, req)" "expiry (l_spec x) = Some e" "lock_view s req = Some (l_spec x)"
  using assms by (auto simp: lease_ok_def lock_view_def split: option.splits kobj.splits)

lemma key_of_new_lease [simp]: "key_of (OLease (new_lease req data)) = (KLease, req)"
  by (cases req) (simp add: key_of_def new_lease_def)

lemma key_of_respec [simp]: "key_of (OLease (x\<lparr>l_spec := sp\<rparr>)) = key_of (OLease x)"
  by (simp add: key_of_def)

lemma key_of_rv [simp]:
  "key_of (OLease (x\<lparr>l_meta := (l_meta x)\<lparr>om_resourceVersion := r\<rparr>\<rparr>)) = key_of (OLease x)"
  by (simp add: key_of_def)

lemma new_lease_spec [simp]: "l_spec (new_lease req data) = data"
  by (simp add: new_lease_def)

lemma as_lease_simps [simp]: "as_lease (Inl e) = Inl e" "as_lease (Inr (OLease x)) = Inr x"
  by (auto simp: as_lease_def)

lemma expiry_lock_data [simp]:
  "expiry (lock_data l t d) = Some (t + sint (seconds_int32 d) * second)"
  by (simp add: expiry_def lock_data_def)

lemma held_by_lock_data [simp]: "held_by l (lock_data m t d) \<longleftrightarrow> ll_id l = ll_id m"
  by (auto simp: held_by_def lock_data_def)

lemma create_lease_store:
  "run_state (create_lease store_client (new_lease req data)) s =
     (case map_of (as_objs s) (KLease, req) of
        Some _ \<Rightarrow> (Inl (ApiErr RAlreadyExists ''already exists''), s)
      | None \<Rightarrow> (case store_put (KLease, req) (OLease (new_lease req data)) s of
                   (r, s') \<Rightarrow> (as_lease r, s')))"
  by (simp add: create_lease_def store_create_def split: option.splits prod.splits)

lemma get_lease_store:
  "map_of (as_objs s) (KLease, req) = Some (OLease x) \<Longrightarrow>
   run_state (get_lease store_client req) s = (Inr x, s)"
  by (simp add: get_lease_def store_get_def)

lemma get_lease_store_none:
  "map_of (as_objs s) (KLease, req) = None \<Longrightarrow>
   run_state (get_lease store_client req) s = (Inl not_found, s)"
  by (simp add: get_lease_def store_get_def)

lemma update_lease_store:
  assumes "map_of (as_objs s) (KLease, req) = Some (OLease x)" and "key_of (OLease x) = (KLease, req)"
  shows "\<exists>y s'. run_state (update_lease store_client (x\<lparr>l_spec := sp\<rparr>)) s = (Inr y, s') \<and>
     lock_view s' req = Some sp \<and> as_now s' = as_now s \<and>
     (\<forall>k. k \<noteq> (KLease, req) \<longrightarrow> map_of (as_objs s') k = map_of (as_objs s) k) \<and>
     (expiry sp \<noteq> None \<longrightarrow> lease_ok s' req)"
  using assms
  by (auto simp: update_lease_def store_update_def store_put_def Let_def AList.update_conv'
      lock_view_def lease_ok_def key_of_def)

text \<open>\<open>ongoing\<close> holds at the first attempt of every sensible configuration.\<close>

definition may_try :: "lease_locker \<Rightarrow> bool" where
  "may_try l \<longleftrightarrow> 0 \<le> lc_maxRetries (ll_cfg l)"

lemma ongoing_first [simp]: "may_try l \<Longrightarrow> ongoing (ll_cfg l) None 0"
  by (auto simp: ongoing_def may_try_def)

lemma LockFor_refines:
  assumes "lease_ok s req" and "may_try l"
  shows "\<exists>e s'. LockFor ref_host store_client l req d s = Some (e, s') \<and>
     (e = None, lock_view s' req) = spec_lock l (as_now s) d (lock_view s req) \<and>
     (\<forall>k. k \<noteq> (KLease, req) \<longrightarrow> map_of (as_objs s') k = map_of (as_objs s) k) \<and> lease_ok s' req \<and> as_now s' = as_now s"
  using assms(1)
proof (cases rule: lease_ok_cases)
  case free
  then show ?thesis
    by (auto simp: LockFor_def create_lease_store store_put_def Let_def spec_lock_def lock_view_def
        lease_ok_def AList.update_conv')
next
  case (lease x e)
  have loop: "LockFor ref_host store_client l req d s =
      lock_loop ref_host store_client l req (lock_data l (as_now s) d) 0 s"
    using lease by (simp add: LockFor_def create_lease_store)
  obtain y s' where upd: "run_state (update_lease store_client
        (x\<lparr>l_spec := lock_data l (as_now s) d\<rparr>)) s = (Inr y, s')"
      "lock_view s' req = Some (lock_data l (as_now s) d)" "as_now s' = as_now s"
      "\<forall>k. k \<noteq> (KLease, req) \<longrightarrow> map_of (as_objs s') k = map_of (as_objs s) k" "lease_ok s' req"
    using update_lease_store[OF lease(1,2)] by fastforce
  show ?thesis
    unfolding loop using lease assms upd
    by (subst lock_loop.simps)
      (auto simp: get_lease_store lock_on_get_def spec_lock_def lease_conflict_def)
qed

lemma if_not_P_swap: "(if \<not> b then x else y) = (if b then y else x)"
  by simp

lemma Unlock_refines:
  assumes "lease_ok s req" and "may_try l"
  shows "\<exists>s'. Unlock ref_host store_client l req s = Some (None, s') \<and>
     lock_view s' req = spec_unlock l (as_now s) (lock_view s req) \<and>
     (\<forall>k. k \<noteq> (KLease, req) \<longrightarrow> map_of (as_objs s') k = map_of (as_objs s) k) \<and> lease_ok s' req \<and> as_now s' = as_now s"
  using assms(1)
proof (cases rule: lease_ok_cases)
  case free
  then show ?thesis using assms
    by (simp add: Unlock_def, subst unlock_loop.simps)
      (simp add: get_lease_store_none not_found_def spec_unlock_def)
next
  case (lease x e)
  define sp where "sp = (l_spec x)\<lparr>l_holder := None, l_renewTime := Some (as_now s - two_hours)\<rparr>"
  have dec: "unlock_on_get l (as_now s) x = (if held_by l (l_spec x) then Some (x\<lparr>l_spec := sp\<rparr>) else None)"
    unfolding unlock_on_get_def sp_def by (rule if_not_P_swap)
  have "expiry sp \<noteq> None"
    using lease(3) by (auto simp: sp_def expiry_def split: option.splits)
  then obtain y s' where upd: "run_state (update_lease store_client (x\<lparr>l_spec := sp\<rparr>)) s = (Inr y, s')"
      "lock_view s' req = Some sp" "as_now s' = as_now s"
      "\<forall>k. k \<noteq> (KLease, req) \<longrightarrow> map_of (as_objs s') k = map_of (as_objs s) k" "lease_ok s' req"
    using update_lease_store[OF lease(1,2), of sp] by blast
  have run: "Unlock ref_host store_client l req s =
      Some (None, if held_by l (l_spec x) then s' else s)"
    using lease(1) assms(2) upd(1) dec
    by (simp add: Unlock_def split del: if_split, subst unlock_loop.simps) (simp add: get_lease_store)
  show ?thesis
  proof (cases "held_by l (l_spec x)")
    case True
    with run upd lease(4) show ?thesis by (intro exI[of _ s']) (simp add: spec_unlock_def sp_def)
  next
    case False
    with run lease(4) assms(1) show ?thesis by (simp add: spec_unlock_def)
  qed
qed

section \<open>The interface the controllers use\<close>

text \<open>
  The methods of the interface \<^verbatim>\<open>locker.Locker\<close>. A controller calls them as total operations; an
  operation of the lease locker that does not return stops its caller, so \<open>lease_Locker\<close> is only
  used where \<open>LockFor\<close> and \<open>Unlock\<close> are known to return.
\<close>

record 'h locker =
  lk_Lock :: "nsname \<Rightarrow> ('h, err option) state"
  lk_LockFor :: "nsname \<Rightarrow> duration \<Rightarrow> ('h, err option) state"
  lk_Unlock :: "nsname \<Rightarrow> ('h, err option) state"
  lk_Locked :: "nsname \<Rightarrow> ('h, bool) state"

definition returning :: "('h, err option) partial \<Rightarrow> ('h, err option) state" where
  "returning m = State (\<lambda>s. case m s of
     Some r \<Rightarrow> r
   | None \<Rightarrow> (Some (Plain ''the operation did not return''), s))"

definition lease_Locker :: "'h host \<Rightarrow> 'h client \<Rightarrow> lease_locker \<Rightarrow> 'h locker" where
  "lease_Locker h cl l = \<lparr>
     lk_Lock = (\<lambda>req. returning (Lock h cl l req)),
     lk_LockFor = (\<lambda>req d. returning (LockFor h cl l req d)),
     lk_Unlock = (\<lambda>req. returning (Unlock h cl l req)),
     lk_Locked = Locked cl l\<rparr>"

lemma run_returning: "m s = Some r \<Longrightarrow> run_state (returning m) s = r"
  by (simp add: returning_def)

text \<open>
  What a client may rely on: \<open>busy s req\<close> says that somebody else has the lock in force, \<open>mine s req\<close>
  that this instance has it, and \<open>inv\<close> is the provider's own invariant.
\<close>

locale lock_service =
  fixes lk :: "'h locker"
    and inv :: "'h \<Rightarrow> bool"
    and busy :: "'h \<Rightarrow> nsname \<Rightarrow> bool"
    and mine :: "'h \<Rightarrow> nsname \<Rightarrow> bool"
  assumes lock_refused: "inv s \<Longrightarrow> busy s req \<Longrightarrow> run_state (lk_LockFor lk req d) s = (r, s') \<Longrightarrow>
      r \<noteq> None \<and> mine s' req = mine s req"
    and lock_granted: "inv s \<Longrightarrow> run_state (lk_LockFor lk req d) s = (None, s') \<Longrightarrow> mine s' req"
    and lock_inv: "inv s \<Longrightarrow> run_state (lk_LockFor lk req d) s = (r, s') \<Longrightarrow> inv s'"
    and lock_other: "inv s \<Longrightarrow> run_state (lk_LockFor lk req d) s = (r, s') \<Longrightarrow> q \<noteq> req \<Longrightarrow>
      mine s' q = mine s q"
    and unlock_released: "inv s \<Longrightarrow> run_state (lk_Unlock lk req) s = (r, s') \<Longrightarrow>
      r = None \<and> inv s' \<and> \<not> mine s' req"
    and unlock_other: "inv s \<Longrightarrow> run_state (lk_Unlock lk req) s = (r, s') \<Longrightarrow> q \<noteq> req \<Longrightarrow>
      mine s' q = mine s q"
    and not_both: "inv s \<Longrightarrow> busy s req \<Longrightarrow> \<not> mine s req"
begin

text \<open>A lock that was granted was not in force for somebody else.\<close>

lemma granted_not_busy:
  "inv s \<Longrightarrow> run_state (lk_LockFor lk req d) s = (None, s') \<Longrightarrow> \<not> busy s req"
  using lock_refused by blast

text \<open>After locking and unlocking, this instance holds exactly what it held before.\<close>

lemma lock_unlock_mine:
  assumes "inv s" and "run_state (lk_LockFor lk req d) s = (None, s1)"
    and "run_state (lk_Unlock lk req) s1 = (r, s2)"
  shows "mine s2 q \<longleftrightarrow> q \<noteq> req \<and> mine s q"
proof (cases "q = req")
  case True
  then show ?thesis using unlock_released[OF lock_inv[OF assms(1,2)] assms(3)] by simp
next
  case False
  then show ?thesis
    using unlock_other[OF lock_inv[OF assms(1,2)] assms(3)] lock_other[OF assms(1,2)] by simp
qed

end

definition lease_inv :: "lease_locker \<Rightarrow> api \<Rightarrow> bool" where
  "lease_inv l s \<longleftrightarrow> may_try l \<and> (\<forall>q. lease_ok s q)"

definition lease_mine :: "lease_locker \<Rightarrow> api \<Rightarrow> nsname \<Rightarrow> bool" where
  "lease_mine l s req = (case lock_view s req of Some sp \<Rightarrow> held_by l sp | None \<Rightarrow> False)"

definition lease_busy :: "lease_locker \<Rightarrow> api \<Rightarrow> nsname \<Rightarrow> bool" where
  "lease_busy l s req = (case lock_view s req of
     Some sp \<Rightarrow> \<not> held_by l sp \<and> as_now s \<le> the (expiry sp)
   | None \<Rightarrow> False)"

lemma lease_view_frame:
  assumes "\<forall>k. k \<noteq> (KLease, req) \<longrightarrow> map_of (as_objs s') k = map_of (as_objs s) k" and "q \<noteq> req"
  shows "lock_view s' q = lock_view s q" and "lease_ok s' q = lease_ok s q"
  using assms by (simp_all add: lock_view_def lease_ok_def)

lemma lease_inv_frame:
  assumes "\<forall>k. k \<noteq> (KLease, req) \<longrightarrow> map_of (as_objs s') k = map_of (as_objs s) k"
    and "lease_ok s' req" and "lease_inv l s"
  shows "lease_inv l s'"
  using assms lease_view_frame(2)[OF assms(1)] by (metis lease_inv_def)

lemma lease_LockFor:
  assumes "lease_inv l s" and "run_state (lk_LockFor (lease_Locker ref_host store_client l) req d) s = (r, s')"
  shows "(r = None, lock_view s' req) = spec_lock l (as_now s) d (lock_view s req)"
    and "lease_inv l s'" and "q \<noteq> req \<Longrightarrow> lock_view s' q = lock_view s q" and "as_now s' = as_now s"
proof -
  obtain e t where "LockFor ref_host store_client l req d s = Some (e, t)"
    and t: "(e = None, lock_view t req) = spec_lock l (as_now s) d (lock_view s req)"
      "\<forall>k. k \<noteq> (KLease, req) \<longrightarrow> map_of (as_objs t) k = map_of (as_objs s) k" "lease_ok t req"
      "as_now t = as_now s"
    using LockFor_refines[of s req l d] assms(1) unfolding lease_inv_def by auto
  moreover from this have "r = e" "s' = t"
    using assms(2) by (auto simp: lease_Locker_def run_returning)
  ultimately show "(r = None, lock_view s' req) = spec_lock l (as_now s) d (lock_view s req)"
    and "lease_inv l s'" and "q \<noteq> req \<Longrightarrow> lock_view s' q = lock_view s q" and "as_now s' = as_now s"
    using lease_inv_frame[OF t(2,3) assms(1)] lease_view_frame(1)[OF t(2)] by auto
qed

lemma lease_Unlock:
  assumes "lease_inv l s" and "run_state (lk_Unlock (lease_Locker ref_host store_client l) req) s = (r, s')"
  shows "r = None" and "lock_view s' req = spec_unlock l (as_now s) (lock_view s req)"
    and "lease_inv l s'" and "q \<noteq> req \<Longrightarrow> lock_view s' q = lock_view s q"
proof -
  obtain t where "Unlock ref_host store_client l req s = Some (None, t)"
    and t: "lock_view t req = spec_unlock l (as_now s) (lock_view s req)"
      "\<forall>k. k \<noteq> (KLease, req) \<longrightarrow> map_of (as_objs t) k = map_of (as_objs s) k" "lease_ok t req"
    using Unlock_refines[of s req l] assms(1) unfolding lease_inv_def by auto
  moreover from this have "r = None" "s' = t"
    using assms(2) by (auto simp: lease_Locker_def run_returning)
  ultimately show "r = None" and "lock_view s' req = spec_unlock l (as_now s) (lock_view s req)"
    and "lease_inv l s'" and "q \<noteq> req \<Longrightarrow> lock_view s' q = lock_view s q"
    using lease_inv_frame[OF t(2,3) assms(1)] lease_view_frame(1)[OF t(2)] by auto
qed

interpretation lease: lock_service "lease_Locker ref_host store_client l" "lease_inv l" "lease_busy l"
  "lease_mine l"
proof
  fix s s' req d r
  assume inv: "lease_inv l s"
    and run: "run_state (lk_LockFor (lease_Locker ref_host store_client l) req d) s = (r, s')"
  note L = lease_LockFor[OF inv run]
  show "lease_inv l s'" by (rule L)
  show "r \<noteq> None \<and> lease_mine l s' req = lease_mine l s req" if "lease_busy l s req"
    using that L(1) by (auto simp: lease_busy_def lease_mine_def spec_lock_def split: option.splits)
  show "lease_mine l s' q = lease_mine l s q" if "q \<noteq> req" for q
    using L(3)[OF that] by (simp add: lease_mine_def)
next
  fix s s' req d
  assume inv: "lease_inv l s"
    and run: "run_state (lk_LockFor (lease_Locker ref_host store_client l) req d) s = (None, s')"
  show "lease_mine l s' req"
    using lease_LockFor(1)[OF inv run]
    by (auto simp: lease_mine_def spec_lock_def split: option.splits if_splits)
next
  fix s s' req r
  assume inv: "lease_inv l s"
    and run: "run_state (lk_Unlock (lease_Locker ref_host store_client l) req) s = (r, s')"
  note U = lease_Unlock[OF inv run]
  show "r = None \<and> lease_inv l s' \<and> \<not> lease_mine l s' req"
    using U by (auto simp: lease_mine_def spec_unlock_def held_by_def split: option.splits if_splits)
  show "lease_mine l s' q = lease_mine l s q" if "q \<noteq> req" for q
    using U(4)[OF that] by (simp add: lease_mine_def)
next
  fix s req assume "lease_busy l s req"
  then show "\<not> lease_mine l s req" by (auto simp: lease_busy_def lease_mine_def split: option.splits)
qed

end
