(* ===== verification/LockerProtocol.thy ===== *)
theory LockerProtocol
  imports Locker
begin

text \<open>
  Several nodes contend for one lease. The state is the API server and, per identity, how far its
  current call of \<open>LockFor\<close> or \<open>Unlock\<close> has come; a step is one API request or one reading of the
  clock of one node, a crash, or the passing of time. The decisions between two requests are those of
  \<open>Locker\<close>, so the relation has every interleaving of the code's requests.
\<close>

section \<open>The step relation\<close>

datatype lpc =
    Idle
  | ToCreate lease_spec
  | ToGet lease_spec
  | Got lease_spec lease
  | ToUpdate lease_spec lease
  | Holding lease_spec
  | UToGet
  | UGot lease
  | UToUpdate lease

record lsys =
  sy_api :: api
  sy_pc :: "string \<Rightarrow> lpc"

definition locker_of :: "string \<Rightarrow> lease_locker" where
  "locker_of a = NewLeaseLocker default_locker_config [] a"

definition move :: "string \<Rightarrow> lpc \<Rightarrow> lsys \<Rightarrow> lsys" where
  "move a p s = s\<lparr>sy_pc := (sy_pc s)(a := p)\<rparr>"

definition with_api :: "api \<Rightarrow> lsys \<Rightarrow> lsys" where
  "with_api x s = s\<lparr>sy_api := x\<rparr>"

inductive lstep :: "nsname \<Rightarrow> lsys \<Rightarrow> lsys \<Rightarrow> bool" for req where
  start: "sy_pc s a \<in> {Idle, Holding sp} \<Longrightarrow> lstep req s
     (move a (ToCreate (lock_data (locker_of a) (as_now (sy_api s)) d)) s)"
| create_ok: "sy_pc s a = ToCreate data \<Longrightarrow>
     run_state (create_lease store_client (new_lease req data)) (sy_api s) = (Inr y, x) \<Longrightarrow>
     lstep req s (move a (Holding data) (with_api x s))"
| create_exists: "sy_pc s a = ToCreate data \<Longrightarrow>
     run_state (create_lease store_client (new_lease req data)) (sy_api s) = (Inl e, x) \<Longrightarrow>
     is_already_exists e \<Longrightarrow> lstep req s (move a (ToGet data) (with_api x s))"
| get_ok: "sy_pc s a = ToGet data \<Longrightarrow>
     run_state (get_lease store_client req) (sy_api s) = (Inr ex, x) \<Longrightarrow>
     lstep req s (move a (Got data ex) (with_api x s))"
| held: "sy_pc s a = Got data ex \<Longrightarrow>
     lock_on_get (locker_of a) data (as_now (sy_api s)) ex = GHeld \<Longrightarrow>
     lstep req s (move a (Holding (l_spec ex)) s)"
| take_over: "sy_pc s a = Got data ex \<Longrightarrow>
     lock_on_get (locker_of a) data (as_now (sy_api s)) ex = GTakeOver u \<Longrightarrow>
     lstep req s (move a (ToUpdate data u) s)"
| update_ok: "sy_pc s a = ToUpdate data u \<Longrightarrow>
     run_state (update_lease store_client u) (sy_api s) = (Inr y, x) \<Longrightarrow>
     lstep req s (move a (Holding data) (with_api x s))"
| update_conflict: "sy_pc s a = ToUpdate data u \<Longrightarrow>
     run_state (update_lease store_client u) (sy_api s) = (Inl e, x) \<Longrightarrow>
     is_conflict e \<Longrightarrow> lstep req s (move a (ToGet data) (with_api x s))"
| unlock: "sy_pc s a \<in> {Idle, Holding sp} \<Longrightarrow> lstep req s (move a UToGet s)"
| unlock_get: "sy_pc s a = UToGet \<Longrightarrow>
     run_state (get_lease store_client req) (sy_api s) = (Inr ex, x) \<Longrightarrow>
     held_by (locker_of a) (l_spec ex) \<Longrightarrow>
     lstep req s (move a (UGot ex) (with_api x s))"
| unlock_clock: "sy_pc s a = UGot ex \<Longrightarrow>
     unlock_on_get (locker_of a) (as_now (sy_api s)) ex = Some u \<Longrightarrow>
     lstep req s (move a (UToUpdate u) s)"
| unlock_update: "sy_pc s a = UToUpdate u \<Longrightarrow>
     run_state (update_lease store_client u) (sy_api s) = (Inr y, x) \<Longrightarrow>
     lstep req s (move a Idle (with_api x s))"
| unlock_conflict: "sy_pc s a = UToUpdate u \<Longrightarrow>
     run_state (update_lease store_client u) (sy_api s) = (Inl e, x) \<Longrightarrow>
     is_conflict e \<Longrightarrow> lstep req s (move a UToGet (with_api x s))"
| give_up: "lstep req s (move a Idle s)"
| tick: "as_now (sy_api s) \<le> t \<Longrightarrow> lstep req s (with_api ((sy_api s)\<lparr>as_now := t\<rparr>) s)"

text \<open>Initially nobody acts, and the lease is absent or was left by an earlier run.\<close>

definition lock_init :: "nsname \<Rightarrow> lsys \<Rightarrow> bool" where
  "lock_init req s \<longleftrightarrow> (\<forall>a. sy_pc s a = Idle) \<and> lease_ok (sy_api s) req \<and>
     (\<forall>x. map_of (as_objs (sy_api s)) (KLease, req) = Some (OLease x) \<longrightarrow>
        (\<exists>n \<le> as_rv (sy_api s). om_resourceVersion (l_meta x) = rv_string n))"

definition lreach :: "nsname \<Rightarrow> lsys \<Rightarrow> bool" where
  "lreach req s \<longleftrightarrow> (\<exists>s0. lock_init req s0 \<and> (lstep req)\<^sup>*\<^sup>* s0 s)"

section \<open>The requests on the reference server\<close>

definition stored :: "nsname \<Rightarrow> api \<Rightarrow> lease option" where
  "stored req s = (case map_of (as_objs s) (KLease, req) of Some (OLease x) \<Rightarrow> Some x | _ \<Rightarrow> None)"

definition rv_of :: "lease \<Rightarrow> string" where
  "rv_of x = om_resourceVersion (l_meta x)"

definition lease_named :: "nsname \<Rightarrow> lease \<Rightarrow> bool" where
  "lease_named req x \<longleftrightarrow> key_of (OLease x) = (KLease, req)"

lemma rv_of_respec [simp]: "rv_of (x\<lparr>l_spec := sp\<rparr>) = rv_of x"
  by (simp add: rv_of_def)

lemma lease_named_respec [simp]: "lease_named req (x\<lparr>l_spec := sp\<rparr>) = lease_named req x"
  by (simp add: lease_named_def)

lemma create_lease_ok:
  assumes "run_state (create_lease store_client (new_lease req data)) s = (Inr y, s')"
    and "lease_ok s req"
  shows "stored req s = None \<and> as_now s' = as_now s \<and> as_rv s' = Suc (as_rv s) \<and>
    (\<exists>x. stored req s' = Some x \<and> l_spec x = data \<and> rv_of x = rv_string (Suc (as_rv s)) \<and>
         lease_named req x)"
  using assms
  by (auto simp: create_lease_store store_put_def Let_def stored_def lease_named_def rv_of_def
      AList.update_conv' split: option.splits)

lemma create_lease_failed:
  "run_state (create_lease store_client (new_lease req data)) s = (Inl e, s') \<Longrightarrow> s' = s"
  by (auto simp: create_lease_store store_put_def Let_def split: option.splits)

lemma get_lease_ok:
  "run_state (get_lease store_client req) s = (Inr x, s') \<Longrightarrow> s' = s \<and> stored req s = Some x"
  by (auto simp: get_lease_def store_get_def stored_def as_lease_def
      split: option.splits sum.splits kobj.splits)

lemma update_lease_ok:
  assumes "run_state (update_lease store_client u) s = (Inr y, s')" and "lease_named req u"
    and "lease_ok s req"
  shows "as_now s' = as_now s \<and> as_rv s' = Suc (as_rv s) \<and>
    (\<exists>old. stored req s = Some old \<and> rv_of old = rv_of u) \<and>
    (\<exists>x. stored req s' = Some x \<and> l_spec x = l_spec u \<and> rv_of x = rv_string (Suc (as_rv s)) \<and>
         lease_named req x)"
  using assms
  by (auto simp: update_lease_def store_update_def store_put_def Let_def stored_def lease_named_def
      rv_of_def AList.update_conv' lease_ok_def split: option.splits if_splits kobj.splits)

lemma update_lease_failed:
  "run_state (update_lease store_client u) s = (Inl e, s') \<Longrightarrow> s' = s"
  by (auto simp: update_lease_def store_update_def store_put_def Let_def
      split: option.splits if_splits)

section \<open>The invariant\<close>

text \<open>
  What a node may believe about the lease: \<open>claim\<close> is the specification under which it regards itself
  as the holder, and \<open>seen\<close> the version of the lease it last read with a property of that version
  that is still true if the version has not changed.
\<close>

definition claim :: "string \<Rightarrow> lpc \<Rightarrow> lease_spec option" where
  "claim a p = (case p of
     Holding sp \<Rightarrow> Some sp
   | Got data ex \<Rightarrow> if held_by (locker_of a) (l_spec ex) then Some (l_spec ex) else None
   | _ \<Rightarrow> None)"

definition unexpired :: "instant \<Rightarrow> lease_spec \<Rightarrow> bool" where
  "unexpired t sp \<longleftrightarrow> (case expiry sp of Some e \<Rightarrow> t \<le> e | None \<Rightarrow> False)"

definition store_inv :: "nsname \<Rightarrow> api \<Rightarrow> bool" where
  "store_inv req x \<longleftrightarrow> lease_ok x req \<and>
     (\<forall>l. stored req x = Some l \<longrightarrow> lease_named req l \<and> (\<exists>n \<le> as_rv x. rv_of l = rv_string n))"

definition version_seen :: "api \<Rightarrow> lease \<Rightarrow> bool" where
  "version_seen x l \<longleftrightarrow> (\<exists>n \<le> as_rv x. rv_of l = rv_string n)"

definition pc_inv :: "nsname \<Rightarrow> api \<Rightarrow> string \<Rightarrow> lpc \<Rightarrow> bool" where
  "pc_inv req x a p = (case p of
     ToCreate data \<Rightarrow> held_by (locker_of a) data \<and> expiry data \<noteq> None
   | ToGet data \<Rightarrow> held_by (locker_of a) data \<and> expiry data \<noteq> None
   | Got data ex \<Rightarrow> held_by (locker_of a) data \<and> expiry data \<noteq> None \<and> version_seen x ex \<and>
       lease_named req ex \<and>
       (\<forall>l. stored req x = Some l \<longrightarrow> rv_of l = rv_of ex \<longrightarrow> l_spec l = l_spec ex)
   | ToUpdate data u \<Rightarrow> held_by (locker_of a) data \<and> expiry data \<noteq> None \<and> version_seen x u \<and>
       lease_named req u \<and> l_spec u = data \<and>
       (\<forall>l. stored req x = Some l \<longrightarrow> rv_of l = rv_of u \<longrightarrow> \<not> unexpired (as_now x) (l_spec l))
   | UGot ex \<Rightarrow> version_seen x ex \<and> lease_named req ex \<and> expiry (l_spec ex) \<noteq> None \<and>
       (\<forall>l. stored req x = Some l \<longrightarrow> rv_of l = rv_of ex \<longrightarrow> held_by (locker_of a) (l_spec l))
   | UToUpdate u \<Rightarrow> version_seen x u \<and> lease_named req u \<and> expiry (l_spec u) \<noteq> None \<and>
       (\<forall>l. stored req x = Some l \<longrightarrow> rv_of l = rv_of u \<longrightarrow> held_by (locker_of a) (l_spec l))
   | _ \<Rightarrow> True)"

definition claim_inv :: "nsname \<Rightarrow> api \<Rightarrow> string \<Rightarrow> lpc \<Rightarrow> bool" where
  "claim_inv req x a p \<longleftrightarrow> (\<forall>sp. claim a p = Some sp \<longrightarrow>
     held_by (locker_of a) sp \<and>
     (unexpired (as_now x) sp \<longrightarrow> (\<exists>l. stored req x = Some l \<and> l_spec l = sp)))"

definition lock_inv :: "nsname \<Rightarrow> lsys \<Rightarrow> bool" where
  "lock_inv req s \<longleftrightarrow> store_inv req (sy_api s) \<and>
     (\<forall>a. pc_inv req (sy_api s) a (sy_pc s a) \<and> claim_inv req (sy_api s) a (sy_pc s a))"

lemma locker_of_id [simp]: "ll_id (locker_of a) = a"
  by (simp add: locker_of_def NewLeaseLocker_def)

lemma held_by_unique:
  "held_by (locker_of a) sp \<Longrightarrow> held_by (locker_of b) sp \<Longrightarrow> a = b"
  by (simp add: held_by_def)

lemma move_simps [simp]:
  "sy_api (move a p s) = sy_api s" "sy_pc (move a p s) = (sy_pc s)(a := p)"
  "sy_api (with_api x s) = x" "sy_pc (with_api x s) = sy_pc s"
  by (auto simp: move_def with_api_def)

lemma with_api_same: "with_api (sy_api s) s = s"
  by (simp add: with_api_def)

lemma lease_ok_stored:
  "stored req x = Some l \<Longrightarrow> lease_named req l \<Longrightarrow> expiry (l_spec l) \<noteq> None \<Longrightarrow> lease_ok x req"
  by (auto simp: stored_def lease_ok_def lease_named_def split: option.splits kobj.splits)

lemma stored_expiry: "lease_ok x req \<Longrightarrow> stored req x = Some l \<Longrightarrow> expiry (l_spec l) \<noteq> None"
  by (auto simp: stored_def lease_ok_def split: option.splits kobj.splits)

lemma lock_inv_move:
  "lock_inv req s \<Longrightarrow> pc_inv req (sy_api s) a p \<Longrightarrow> claim_inv req (sy_api s) a p \<Longrightarrow>
   lock_inv req (move a p s)"
  by (simp add: lock_inv_def)

text \<open>
  A write by node \<open>a\<close> gives the lease a version nobody has seen, so it can hurt another node only if
  that node has a claim that is still in force.
\<close>

lemma pc_inv_write:
  assumes "pc_inv req x b p" and "as_rv y = Suc (as_rv x)"
    and "stored req y = Some l" and "rv_of l = rv_string (Suc (as_rv x))"
  shows "pc_inv req y b p"
proof -
  have seen: "version_seen y e \<and> rv_of l \<noteq> rv_of e" if "version_seen x e" for e
    using that assms(2,4) by (auto simp: version_seen_def intro: le_SucI)
  show ?thesis
    using assms(1,3) seen by (auto simp: pc_inv_def split: lpc.splits)
qed

lemma lock_inv_write:
  assumes "lock_inv req s" and "as_now y = as_now (sy_api s)" and "as_rv y = Suc (as_rv (sy_api s))"
    and "stored req y = Some l" and "rv_of l = rv_string (Suc (as_rv (sy_api s)))"
    and "lease_named req l" and "expiry (l_spec l) \<noteq> None"
    and no_claim: "\<And>b sp. b \<noteq> a \<Longrightarrow> claim b (sy_pc s b) = Some sp \<Longrightarrow> \<not> unexpired (as_now (sy_api s)) sp"
    and "pc_inv req y a p" and "claim_inv req y a p"
  shows "lock_inv req (move a p (with_api y s))"
proof -
  have "store_inv req y"
    using assms lease_ok_stored by (auto simp: store_inv_def)
  moreover have "pc_inv req y b (sy_pc s b)" for b
    using assms(1) pc_inv_write[OF _ assms(3-5)] by (simp add: lock_inv_def)
  moreover have "claim_inv req y b (sy_pc s b)" if "b \<noteq> a" for b
    using assms(1,2) no_claim[OF that] by (auto simp: lock_inv_def claim_inv_def)
  ultimately show ?thesis using assms(9,10) by (simp add: lock_inv_def)
qed

lemma pc_inv_tick:
  assumes "pc_inv req x a p" and "as_now x \<le> t"
  shows "pc_inv req (x\<lparr>as_now := t\<rparr>) a p"
proof -
  have "\<not> unexpired (as_now x) sp \<Longrightarrow> \<not> unexpired t sp" for sp
    using assms(2) by (auto simp: unexpired_def split: option.splits)
  then show ?thesis
    using assms(1) by (auto simp: pc_inv_def version_seen_def stored_def split: lpc.splits)
qed

lemma claim_inv_tick:
  assumes "claim_inv req x a p" and "as_now x \<le> t"
  shows "claim_inv req (x\<lparr>as_now := t\<rparr>) a p"
proof -
  have "unexpired t sp \<Longrightarrow> unexpired (as_now x) sp" for sp
    using assms(2) by (auto simp: unexpired_def split: option.splits)
  then show ?thesis using assms(1) by (auto simp: claim_inv_def stored_def)
qed

lemma lock_inv_tick:
  assumes "lock_inv req s" and "as_now (sy_api s) \<le> t"
  shows "lock_inv req (with_api ((sy_api s)\<lparr>as_now := t\<rparr>) s)"
proof -
  have "store_inv req (sy_api s) \<Longrightarrow> store_inv req ((sy_api s)\<lparr>as_now := t\<rparr>)"
    by (auto simp: store_inv_def lease_ok_def stored_def)
  with assms pc_inv_tick claim_inv_tick show ?thesis by (simp add: lock_inv_def)
qed

lemma claims_agree:
  assumes "lock_inv req s" and "claim a (sy_pc s a) = Some sp" and "unexpired (as_now (sy_api s)) sp"
  shows "held_by (locker_of a) sp" and "\<exists>l. stored req (sy_api s) = Some l \<and> l_spec l = sp"
  using assms by (auto simp: lock_inv_def claim_inv_def)

lemma pc_invD:
  assumes "lock_inv req s"
  shows "pc_inv req (sy_api s) a (sy_pc s a)" and "claim_inv req (sy_api s) a (sy_pc s a)"
    and "store_inv req (sy_api s)"
  using assms by (auto simp: lock_inv_def)

lemma no_claim_free:
  assumes "lock_inv req s" and "stored req (sy_api s) = None"
  shows "claim b (sy_pc s b) = Some sp \<Longrightarrow> \<not> unexpired (as_now (sy_api s)) sp"
  using claims_agree(2)[OF assms(1)] assms(2) by fastforce

lemma no_claim_other:
  assumes "lock_inv req s" and "stored req (sy_api s) = Some l" and "b \<noteq> a"
    and "\<not> unexpired (as_now (sy_api s)) (l_spec l) \<or> held_by (locker_of a) (l_spec l)"
  shows "claim b (sy_pc s b) = Some sp \<Longrightarrow> \<not> unexpired (as_now (sy_api s)) sp"
proof
  assume c: "claim b (sy_pc s b) = Some sp" and u: "unexpired (as_now (sy_api s)) sp"
  note agree = claims_agree[OF assms(1) c u]
  then have "l_spec l = sp" using assms(2) by simp
  with agree(1) u assms(3,4) held_by_unique show False by blast
qed

lemma holding_new:
  assumes "stored req y = Some l" and "l_spec l = data" and "held_by (locker_of a) data"
  shows "pc_inv req y a (Holding data)" and "claim_inv req y a (Holding data)"
  using assms by (auto simp: pc_inv_def claim_inv_def claim_def)

lemma not_claiming:
  "claim a p = None \<Longrightarrow> claim_inv req y a p"
  by (simp add: claim_inv_def)

lemma lock_inv_create:
  assumes inv: "lock_inv req s" and pc: "sy_pc s a = ToCreate data"
    and run: "run_state (create_lease store_client (new_lease req data)) (sy_api s) = (Inr y, x)"
  shows "lock_inv req (move a (Holding data) (with_api x s))"
proof -
  have ok: "lease_ok (sy_api s) req" using pc_invD(3)[OF inv] by (simp add: store_inv_def)
  from create_lease_ok[OF run ok] obtain l where
    l: "stored req (sy_api s) = None" "as_now x = as_now (sy_api s)" "as_rv x = Suc (as_rv (sy_api s))"
      "stored req x = Some l" "l_spec l = data" "rv_of l = rv_string (Suc (as_rv (sy_api s)))"
      "lease_named req l" by blast
  have "held_by (locker_of a) data" "expiry data \<noteq> None"
    using pc_invD(1)[OF inv, of a] pc by (auto simp: pc_inv_def)
  with l show ?thesis
    by (intro lock_inv_write[OF inv l(2,3,4,6,7)] holding_new[OF l(4)] no_claim_free[OF inv l(1)]) auto
qed

lemma lock_inv_update:
  assumes inv: "lock_inv req s" and pc: "sy_pc s a = ToUpdate data u"
    and run: "run_state (update_lease store_client u) (sy_api s) = (Inr y, x)"
  shows "lock_inv req (move a (Holding data) (with_api x s))"
proof -
  have ok: "lease_ok (sy_api s) req" using pc_invD(3)[OF inv] by (simp add: store_inv_def)
  have p: "held_by (locker_of a) data" "expiry data \<noteq> None" "lease_named req u" "l_spec u = data"
    using pc_invD(1)[OF inv, of a] pc by (auto simp: pc_inv_def)
  from update_lease_ok[OF run p(3) ok] obtain old l where
    l: "as_now x = as_now (sy_api s)" "as_rv x = Suc (as_rv (sy_api s))"
      "stored req (sy_api s) = Some old" "rv_of old = rv_of u"
      "stored req x = Some l" "l_spec l = data" "rv_of l = rv_string (Suc (as_rv (sy_api s)))"
      "lease_named req l" using p by auto
  have "\<not> unexpired (as_now (sy_api s)) (l_spec old)"
    using pc_invD(1)[OF inv, of a] pc l by (auto simp: pc_inv_def)
  with l p show ?thesis
    by (intro lock_inv_write[OF inv l(1,2,5,7,8)] holding_new[OF l(5)] no_claim_other[OF inv l(3)]) auto
qed

lemma lock_inv_unlock:
  assumes inv: "lock_inv req s" and pc: "sy_pc s a = UToUpdate u"
    and run: "run_state (update_lease store_client u) (sy_api s) = (Inr y, x)"
  shows "lock_inv req (move a Idle (with_api x s))"
proof -
  have ok: "lease_ok (sy_api s) req" using pc_invD(3)[OF inv] by (simp add: store_inv_def)
  have p: "lease_named req u" "expiry (l_spec u) \<noteq> None"
    using pc_invD(1)[OF inv, of a] pc by (auto simp: pc_inv_def)
  from update_lease_ok[OF run p(1) ok] obtain old l where
    l: "as_now x = as_now (sy_api s)" "as_rv x = Suc (as_rv (sy_api s))"
      "stored req (sy_api s) = Some old" "rv_of old = rv_of u"
      "stored req x = Some l" "l_spec l = l_spec u" "rv_of l = rv_string (Suc (as_rv (sy_api s)))"
      "lease_named req l" using p by auto
  have "held_by (locker_of a) (l_spec old)"
    using pc_invD(1)[OF inv, of a] pc l by (auto simp: pc_inv_def)
  with l p show ?thesis
    by (intro lock_inv_write[OF inv l(1,2,5,7,8)] not_claiming no_claim_other[OF inv l(3)])
      (auto simp: pc_inv_def claim_def)
qed

lemma lock_inv_got:
  assumes inv: "lock_inv req s" and "sy_pc s a = ToGet data \<or> sy_pc s a = UToGet"
    and st: "stored req (sy_api s) = Some ex"
  shows "sy_pc s a = ToGet data \<Longrightarrow> lock_inv req (move a (Got data ex) s)"
    and "held_by (locker_of a) (l_spec ex) \<Longrightarrow> lock_inv req (move a (UGot ex) s)"
proof -
  have s: "version_seen (sy_api s) ex" "lease_named req ex" "expiry (l_spec ex) \<noteq> None"
    using pc_invD(3)[OF inv] st stored_expiry by (auto simp: store_inv_def version_seen_def)
  show "lock_inv req (move a (Got data ex) s)" if "sy_pc s a = ToGet data"
    using pc_invD(1)[OF inv, of a] that s st
    by (intro lock_inv_move[OF inv]) (auto simp: pc_inv_def claim_inv_def claim_def)
  show "lock_inv req (move a (UGot ex) s)" if "held_by (locker_of a) (l_spec ex)"
    using that s st
    by (intro lock_inv_move[OF inv]) (auto simp: pc_inv_def claim_inv_def claim_def)
qed

lemma lock_inv_decided:
  assumes inv: "lock_inv req s" and pc: "sy_pc s a = Got data ex"
  shows "lock_on_get (locker_of a) data (as_now (sy_api s)) ex = GHeld \<Longrightarrow>
      lock_inv req (move a (Holding (l_spec ex)) s)"
    and "lock_on_get (locker_of a) data (as_now (sy_api s)) ex = GTakeOver u \<Longrightarrow>
      lock_inv req (move a (ToUpdate data u) s)"
proof -
  note p = pc_invD(1,2)[OF inv, of a, unfolded pc]
  show "lock_inv req (move a (Holding (l_spec ex)) s)"
    if "lock_on_get (locker_of a) data (as_now (sy_api s)) ex = GHeld"
    using lock_on_get_held[OF that] p
    by (intro lock_inv_move[OF inv]) (simp_all add: pc_inv_def claim_inv_def claim_def)
  show "lock_inv req (move a (ToUpdate data u) s)"
    if "lock_on_get (locker_of a) data (as_now (sy_api s)) ex = GTakeOver u"
    using lock_on_get_takeover[OF that] p(1)
    by (intro lock_inv_move[OF inv])
      (auto simp: pc_inv_def claim_inv_def claim_def version_seen_def unexpired_def)
qed

lemma lock_inv_unlock_clock:
  assumes inv: "lock_inv req s" and pc: "sy_pc s a = UGot ex"
    and u: "unlock_on_get (locker_of a) t ex = Some u"
  shows "lock_inv req (move a (UToUpdate u) s)"
proof -
  note p = pc_invD(1)[OF inv, of a, unfolded pc]
  define sp where "sp = (l_spec ex)\<lparr>l_holder := None, l_renewTime := Some (t - two_hours)\<rparr>"
  have u_sp: "u = ex\<lparr>l_spec := sp\<rparr>"
    using u unfolding unlock_on_get_def sp_def[symmetric] by (simp split: if_splits)
  have "expiry sp \<noteq> None"
    using p by (auto simp: sp_def pc_inv_def expiry_def split: option.splits)
  with p u_sp show ?thesis
    by (intro lock_inv_move[OF inv]) (auto simp: pc_inv_def claim_inv_def claim_def version_seen_def)
qed

lemma lock_inv_idle:
  assumes inv: "lock_inv req s"
  shows "lock_inv req (move a Idle s)" and "lock_inv req (move a UToGet s)"
    and "lock_inv req (move a (ToCreate (lock_data (locker_of a) t d)) s)"
  by (intro lock_inv_move[OF inv]; simp add: pc_inv_def claim_inv_def claim_def)+

lemma lock_inv_retry:
  assumes inv: "lock_inv req s" and "sy_pc s a = ToCreate data \<or> sy_pc s a = ToUpdate data u"
  shows "lock_inv req (move a (ToGet data) s)"
  using assms(2) pc_invD(1)[OF inv, of a]
  by (intro lock_inv_move[OF inv]) (auto simp: pc_inv_def claim_inv_def claim_def)

lemma lock_inv_step:
  assumes "lstep req s s'" and inv: "lock_inv req s"
  shows "lock_inv req s'"
  using assms(1)
proof cases
  case (get_ok a data ex x)
  with get_lease_ok lock_inv_got(1)[OF inv] with_api_same show ?thesis by metis
next
  case (unlock_get a ex x)
  with get_lease_ok lock_inv_got(2)[OF inv] with_api_same show ?thesis by metis
next
  case (create_exists a data e x)
  with create_lease_failed lock_inv_retry[OF inv] with_api_same show ?thesis by metis
next
  case (update_conflict a data u e x)
  with update_lease_failed lock_inv_retry[OF inv] with_api_same show ?thesis by metis
next
  case (unlock_conflict a u e x)
  with update_lease_failed lock_inv_idle(2)[OF inv] with_api_same show ?thesis by metis
qed (auto intro: lock_inv_idle[OF inv] lock_inv_create[OF inv] lock_inv_update[OF inv]
      lock_inv_unlock[OF inv] lock_inv_decided[OF inv] lock_inv_unlock_clock[OF inv]
      lock_inv_tick[OF inv])

lemma lock_inv_init: "lock_init req s \<Longrightarrow> lock_inv req s"
  by (auto simp: lock_init_def lock_inv_def store_inv_def pc_inv_def claim_inv_def claim_def
      stored_def lease_named_def lease_ok_def rv_of_def split: option.splits kobj.splits)

lemma lreach_inv: "lreach req s \<Longrightarrow> lock_inv req s"
  unfolding lreach_def
proof (elim exE conjE)
  fix s0 assume "lock_init req s0" and "(lstep req)\<^sup>*\<^sup>* s0 s"
  from this(2,1) show "lock_inv req s"
    by (induction rule: rtranclp_induct) (auto intro: lock_inv_step lock_inv_init)
qed

section \<open>Properties\<close>

definition demo_api :: "instant \<Rightarrow> api" where
  "demo_api t = \<lparr>as_objs = [], as_rv = 0, as_now = t, as_hostname = ''n1''\<rparr>"

definition demo_req :: nsname where
  "demo_req = \<lparr>ns_namespace = ''ns'', ns_name = ''group''\<rparr>"

definition demo_data :: lease_spec where
  "demo_data = lock_data (locker_of ''a'') 0 (60 * second)"

definition demo_sys :: lsys where
  "demo_sys = \<lparr>sy_api = demo_api 0, sy_pc = (\<lambda>_. Idle)\<rparr>"

definition demo_held :: lsys where
  "demo_held = move ''a'' (Holding demo_data)
     (with_api (snd (run_state (create_lease store_client (new_lease demo_req demo_data)) (demo_api 0)))
       (move ''a'' (ToCreate demo_data) demo_sys))"

lemma demo_create:
  "\<exists>y x. run_state (create_lease store_client (new_lease demo_req demo_data)) (demo_api 0) = (Inr y, x) \<and>
     as_now x = 0"
  by (auto simp: create_lease_store store_put_def Let_def demo_api_def)

lemma demo_held_reach: "lreach demo_req demo_held"
proof -
  have "lock_init demo_req demo_sys"
    by (simp add: lock_init_def demo_sys_def demo_api_def lease_ok_def)
  moreover have "lstep demo_req demo_sys (move ''a'' (ToCreate demo_data) demo_sys)"
    using lstep.start[of demo_sys "''a''" demo_data demo_req "60 * second"]
    by (simp add: demo_sys_def demo_data_def demo_api_def)
  moreover have "lstep demo_req (move ''a'' (ToCreate demo_data) demo_sys) demo_held"
  proof -
    obtain y x where "run_state (create_lease store_client (new_lease demo_req demo_data)) (demo_api 0) =
        (Inr y, x)" using demo_create by blast
    then show ?thesis
      unfolding demo_held_def by (intro lstep.create_ok[where y = y]) (auto simp: demo_sys_def)
  qed
  ultimately show ?thesis unfolding lreach_def by (meson converse_rtranclp_into_rtranclp r_into_rtranclp)
qed

lemma demo_held_state:
  "sy_pc demo_held ''a'' = Holding demo_data" "sy_pc demo_held ''b'' = Idle"
  "unexpired (as_now (sy_api demo_held)) demo_data"
  using demo_create
  by (auto simp: demo_held_def demo_sys_def demo_data_def unexpired_def seconds_int32_def second_def)



text \<open>C4: \<open>LockFor\<close> implements the abstract lock: against a server with optimistic concurrency it
  always returns; it succeeds exactly on a free lock, an expired one or one this identity already
  holds, stores its own holder, duration and times when it takes the lock over, changes nothing when
  it is refused or already the holder, and touches no other object.\<close>

theorem LockFor_implements_lock:
  assumes "lease_ok s req" and "0 \<le> lc_maxRetries (ll_cfg l)"
  shows "\<exists>e s'. LockFor ref_host store_client l req d s = Some (e, s') \<and>
     (e = None, lock_view s' req) = spec_lock l (as_now s) d (lock_view s req) \<and>
     (\<forall>k. k \<noteq> (KLease, req) \<longrightarrow> map_of (as_objs s') k = map_of (as_objs s) k)"
  using LockFor_refines[OF assms(1), of l d] assms(2) by (auto simp: may_try_def)

lemma demo_lease_ok: "lease_ok (demo_api t) req"
  by (simp add: lease_ok_def demo_api_def)

theorem LockFor_implements_lock_witness:
  "\<exists>e s'. LockFor ref_host store_client (locker_of ''a'') demo_req second (demo_api 5) = Some (e, s') \<and>
     (e = None, lock_view s' demo_req) = (True, Some (lock_data (locker_of ''a'') 5 second))"
  using LockFor_implements_lock[OF demo_lease_ok[of 5 demo_req], of "locker_of ''a''" second]
  by (auto simp: locker_of_def NewLeaseLocker_def default_locker_config_def spec_lock_def lock_view_def
      demo_api_def)

text \<open>C25: \<open>Unlock\<close> implements the abstract release: it always reports success, clears the holder of a
  lease this identity holds, and leaves a lease of somebody else, a missing lease and every other
  object as they are.\<close>

theorem Unlock_implements_unlock:
  assumes "lease_ok s req" and "0 \<le> lc_maxRetries (ll_cfg l)"
  shows "\<exists>s'. Unlock ref_host store_client l req s = Some (None, s') \<and>
     lock_view s' req = spec_unlock l (as_now s) (lock_view s req) \<and>
     (\<forall>k. k \<noteq> (KLease, req) \<longrightarrow> map_of (as_objs s') k = map_of (as_objs s) k)"
  using Unlock_refines[OF assms(1), of l] assms(2) by (auto simp: may_try_def)

theorem Unlock_implements_unlock_witness:
  "\<exists>s'. Unlock ref_host store_client (locker_of ''a'') demo_req (demo_api 5) = Some (None, s') \<and>
     lock_view s' demo_req = None"
  using Unlock_implements_unlock[OF demo_lease_ok[of 5 demo_req], of "locker_of ''a''"]
  by (auto simp: locker_of_def NewLeaseLocker_def default_locker_config_def spec_unlock_def
      lock_view_def demo_api_def)

text \<open>With a positive retry limit \<open>LockFor\<close> returns against every server, host and clock, as long
  as the leases the server answers with carry a renew time and a duration.\<close>

theorem LockFor_returns:
  assumes "0 < lc_maxRetries (ll_cfg l)" and "leases_complete cl"
  shows "\<exists>y. LockFor h cl l req d s = Some y"
  unfolding LockFor_def
  using lock_loop_returns[OF assms, unfolded split_paired_Ex]
  by (auto split: prod.split option.split sum.split)

definition down_client :: "api client" where
  "down_client = store_client\<lparr>cl_get := \<lambda>k nn. ret (Inl (ApiErr ROther ''unavailable''))\<rparr>"

theorem LockFor_returns_witness:
  "\<exists>y. LockFor ref_host down_client (NewLeaseLocker (default_locker_config\<lparr>lc_maxRetries := 3\<rparr>) [] ''a'')
     demo_req second (demo_api 5) = Some y"
  by (rule LockFor_returns) (auto simp: NewLeaseLocker_def leases_complete_def get_lease_def down_client_def)

text \<open>A lease held with a duration of more than two hours is not free after its holder released it:
  \<open>Unlock\<close> only moves the renew time two hours into the past, so another node is still refused at that
  moment.\<close>

theorem Unlock_long_lease_blocks:
  assumes "lease_ok s req" and "0 \<le> lc_maxRetries (ll_cfg l)" and "0 \<le> lc_maxRetries (ll_cfg m)"
    and "lock_view s req = Some sp" and "held_by l sp"
    and "l_durationSeconds sp = Some n" and "7200 \<le> sint n"
  shows "\<exists>s1 e s2. Unlock ref_host store_client l req s = Some (None, s1) \<and>
     LockFor ref_host store_client m req d s1 = Some (Some e, s2) \<and> lock_view s2 req = lock_view s1 req"
proof -
  obtain s1 where s1: "Unlock ref_host store_client l req s = Some (None, s1)"
      "lock_view s1 req = spec_unlock l (as_now s) (lock_view s req)" "lease_ok s1 req"
      "as_now s1 = as_now s"
    using Unlock_refines[OF assms(1), of l] assms(2) by (auto simp: may_try_def)
  let ?sp = "sp\<lparr>l_holder := None, l_renewTime := Some (as_now s - two_hours)\<rparr>"
  have view: "lock_view s1 req = Some ?sp" using s1(2) assms(4,5) by (simp add: spec_unlock_def)
  have "expiry ?sp = Some (as_now s - two_hours + sint n * second)"
    using assms(6) by (simp add: expiry_def)
  moreover have "two_hours \<le> sint n * second" using assms(7) by (simp add: two_hours_def second_def)
  ultimately have "spec_lock m (as_now s1) d (lock_view s1 req) = (False, lock_view s1 req)"
    using s1(4) view by (simp add: spec_lock_def held_by_def)
  with LockFor_refines[OF s1(3), of m d] assms(3) s1(1) show ?thesis
    by (fastforce simp: may_try_def)
qed

text \<open>A lease of one day for node \<open>a\<close>, taken at \<open>t\<close>.\<close>

definition day_lease :: "instant \<Rightarrow> lease" where
  "day_lease t = new_lease demo_req (lock_data (locker_of ''a'') t (86400 * second))"

definition day_api :: "instant \<Rightarrow> instant \<Rightarrow> api" where
  "day_api t u = (demo_api u)\<lparr>as_objs := [((KLease, demo_req), OLease (day_lease t))]\<rparr>"

lemma day_api_facts:
  "lease_ok (day_api t u) demo_req"
  "lock_view (day_api t u) demo_req = Some (lock_data (locker_of ''a'') t (86400 * second))"
  "as_now (day_api t u) = u"
  "0 \<le> lc_maxRetries (ll_cfg (locker_of a))"
  "l_durationSeconds (lock_data (locker_of ''a'') t (86400 * second)) = Some 86400"
  by (auto simp: day_api_def demo_api_def day_lease_def lease_ok_def lock_view_def lock_data_def
      locker_of_def NewLeaseLocker_def default_locker_config_def seconds_int32_def second_def expiry_def)

theorem Unlock_long_lease_blocks_witness:
  "\<exists>s1 e s2. Unlock ref_host store_client (locker_of ''a'') demo_req (day_api 0 10) = Some (None, s1) \<and>
     LockFor ref_host store_client (locker_of ''b'') demo_req second s1 = Some (Some e, s2) \<and>
     lock_view s2 demo_req = lock_view s1 demo_req"
  by (rule Unlock_long_lease_blocks[OF day_api_facts(1) day_api_facts(4) day_api_facts(4)
        day_api_facts(2) _ day_api_facts(5)]) simp_all

text \<open>C38: A node that locks again a lease of its own that has expired is told it has the lock, but the
  lease is not renewed: any other node that asks next is given the lock too, with no release in
  between.\<close>

theorem relock_expired_both_hold:
  assumes "lease_ok s req" and "0 \<le> lc_maxRetries (ll_cfg l)" and "0 \<le> lc_maxRetries (ll_cfg m)"
    and "lock_view s req = Some sp" and "held_by l sp" and "ll_id m \<noteq> ll_id l"
    and "\<not> unexpired (as_now s) sp"
  shows "\<exists>s1 s2. LockFor ref_host store_client l req d s = Some (None, s1) \<and>
     LockFor ref_host store_client m req d s1 = Some (None, s2)"
proof -
  obtain s1 where s1: "LockFor ref_host store_client l req d s = Some (None, s1)"
      "lock_view s1 req = Some sp" "lease_ok s1 req" "as_now s1 = as_now s"
    using LockFor_refines[OF assms(1), of l d] assms(2,4,5) by (auto simp: may_try_def spec_lock_def)
  have "\<not> held_by m sp" using assms(5,6) by (auto simp: held_by_def)
  moreover have "\<not> as_now s1 \<le> the (expiry sp)"
    using assms(7) s1 by (auto simp: unexpired_def lease_ok_def lock_view_def
        split: option.splits kobj.splits)
  ultimately have "fst (spec_lock m (as_now s1) d (lock_view s1 req))"
    using s1(2) by (simp add: spec_lock_def)
  with LockFor_refines[OF s1(3), of m d] assms(3) s1(1) show ?thesis
    by (metis fst_conv may_try_def)
qed

theorem relock_expired_both_hold_witness:
  "\<exists>s1 s2. LockFor ref_host store_client (locker_of ''a'') demo_req second (day_api 0 (90000 * second)) =
       Some (None, s1) \<and>
     LockFor ref_host store_client (locker_of ''b'') demo_req second s1 = Some (None, s2)"
  by (rule relock_expired_both_hold[OF day_api_facts(1) day_api_facts(4) day_api_facts(4)
        day_api_facts(2)]) (simp_all add: unexpired_def day_api_facts(3) seconds_int32_def second_def)

end
