(* ===== verification/GoTime.thy ===== *)
theory GoTime
  imports ApiTypes
begin

text \<open>
  The parsers of Go's package \<^verbatim>\<open>time\<close> that the controllers apply to strings from the API:
  \<^verbatim>\<open>time.ParseDuration\<close> and \<^verbatim>\<open>time.Parse\<close> with the layout RFC 3339. A fraction of a unit is rounded
  down to whole nanoseconds.
\<close>

section \<open>time.ParseDuration\<close>

definition duration_units :: "int smap" where
  "duration_units = [(''ns'', 1), (''us'', 1000), ([CHR 0xC2, CHR 0xB5, CHR ''s''], 1000),
     ([CHR 0xCE, CHR 0xBC, CHR ''s''], 1000), (''ms'', 1000000), (''s'', 1000000000),
     (''m'', 60000000000), (''h'', 3600000000000)]"

definition digits_int :: "string \<Rightarrow> int" where
  "digits_int ds = (case digits_val 0 ds of Some n \<Rightarrow> n | None \<Rightarrow> 0)"

definition is_num_char :: "char \<Rightarrow> bool" where
  "is_num_char c \<longleftrightarrow> c = CHR ''.'' \<or> is_digit c"

text \<open>One number with its unit: its value in nanoseconds and the rest of the string.\<close>

definition duration_part :: "string \<Rightarrow> (int \<times> string) option" where
  "duration_part s =
     (let ds = takeWhile is_digit s; r = dropWhile is_digit s;
          (fs, r2) = (case r of
             c # cs \<Rightarrow> if c = CHR ''.'' then (takeWhile is_digit cs, dropWhile is_digit cs) else ([], r)
           | [] \<Rightarrow> ([], r));
          u = takeWhile (\<lambda>c. \<not> is_num_char c) r2; rest = dropWhile (\<lambda>c. \<not> is_num_char c) r2
      in if (ds = [] \<and> fs = []) \<or> u = [] then None
         else (case map_of duration_units u of
                 None \<Rightarrow> None
               | Some unit \<Rightarrow>
                   (let v = digits_int ds * unit + digits_int fs * unit div 10 ^ length fs
                    in if 2 ^ 63 < v then None else Some (v, rest))))"

lemma duration_part_shorter: "duration_part s = Some (v, r) \<Longrightarrow> length r < length s"
proof -
  assume a: "duration_part s = Some (v, r)"
  let ?u = "\<lambda>c. \<not> is_num_char c"
  obtain r2 where r2: "takeWhile ?u r2 \<noteq> []" "r = dropWhile ?u r2" "length r2 \<le> length s"
  proof (cases "dropWhile is_digit s")
    case Nil
    with a show thesis by (auto simp: duration_part_def Let_def split: if_splits)
  next
    case (Cons c cs)
    have len: "Suc (length cs) \<le> length s"
      using length_dropWhile_le[of is_digit s] Cons by simp
    show thesis
    proof (cases "c = CHR ''.''")
      case True
      have "length (dropWhile is_digit cs) \<le> length cs" by (rule length_dropWhile_le)
      with True Cons a len that[of "dropWhile is_digit cs"] show thesis
        by (auto simp: duration_part_def Let_def split: if_splits option.splits)
    next
      case False
      with Cons a len that[of "c # cs"] show thesis
        by (auto simp: duration_part_def Let_def split: if_splits option.splits)
    qed
  qed
  have "length r2 = length (takeWhile ?u r2) + length (dropWhile ?u r2)"
    by (metis length_append takeWhile_dropWhile_id)
  with r2 show ?thesis by (cases "takeWhile ?u r2") auto
qed

function duration_parts :: "string \<Rightarrow> int \<Rightarrow> int option" where
  "duration_parts s d =
     (if s = [] then Some d
      else (case duration_part s of
              None \<Rightarrow> None
            | Some (v, r) \<Rightarrow> if 2 ^ 63 < d + v then None else duration_parts r (d + v)))"
  by pat_completeness auto
termination
  by (relation "measure (\<lambda>(s, d). length s)") (auto dest: duration_part_shorter)

declare duration_parts.simps [simp del]

definition ParseDuration :: "string \<Rightarrow> duration res" where
  "ParseDuration s =
     (let (neg, r) = (case s of
            c # cs \<Rightarrow> if c = CHR ''-'' then (True, cs) else if c = CHR ''+'' then (False, cs) else (False, s)
          | [] \<Rightarrow> (False, s))
      in if r = ''0'' then Inr 0
         else if r = [] then Inl (Plain ''time: invalid duration'')
         else (case duration_parts r 0 of
                 None \<Rightarrow> Inl (Plain ''time: invalid duration'')
               | Some d \<Rightarrow>
                   if neg then Inr (- d)
                   else if 2 ^ 63 - 1 < d then Inl (Plain ''time: invalid duration'')
                   else Inr d))"

lemma digit_val_nonneg: "is_digit c \<Longrightarrow> 0 \<le> digit_val c"
  using of_nat_of_char[where 'a = int, of c] by (simp add: is_digit_def digit_val_def Let_def)

lemma duration_part_nonneg: "duration_part s = Some (v, r) \<Longrightarrow> 0 \<le> v"
proof -
  have dv: "0 \<le> acc \<Longrightarrow> digits_val acc ds = Some n \<Longrightarrow> 0 \<le> n" for acc ds n
    by (induction acc ds rule: digits_val.induct) (auto dest: digit_val_nonneg split: if_splits)
  have di: "0 \<le> digits_int ds" for ds using dv[of 0] by (auto simp: digits_int_def split: option.split)
  have unit: "map_of duration_units u = Some x \<Longrightarrow> 0 \<le> x" for u x
    by (drule map_of_SomeD) (auto simp: duration_units_def)
  assume "duration_part s = Some (v, r)"
  then show ?thesis
    by (auto simp: duration_part_def Let_def di pos_imp_zdiv_nonneg_iff split: if_splits option.splits list.splits
        intro!: add_nonneg_nonneg mult_nonneg_nonneg dest: unit)
qed

text \<open>A parsed duration fits 64 bits.\<close>

lemma ParseDuration_range: "ParseDuration s = Inr d \<Longrightarrow> - (2 ^ 63) \<le> d \<and> d < 2 ^ 63"
proof -
  have parts: "0 \<le> acc \<Longrightarrow> acc \<le> 2 ^ 63 \<Longrightarrow> duration_parts r acc = Some d \<Longrightarrow> 0 \<le> d \<and> d \<le> 2 ^ 63" for r acc d
  proof (induction r acc rule: duration_parts.induct)
    case (1 s acc)
    then show ?case
      by (subst (asm) duration_parts.simps[of s acc])
        (auto split: if_splits option.splits prod.splits dest: duration_part_nonneg)
  qed
  assume "ParseDuration s = Inr d"
  then show ?thesis
    using parts[of 0] by (force simp: ParseDuration_def Let_def split: if_splits option.splits list.splits)
qed

section \<open>time.Parse with RFC 3339\<close>

definition days_from_civil :: "int \<Rightarrow> int \<Rightarrow> int \<Rightarrow> int" where
  "days_from_civil y m d =
     (let y' = (if m \<le> 2 then y - 1 else y); era = y' div 400; yoe = y' mod 400;
          mp = (if 2 < m then m - 3 else m + 9); doy = (153 * mp + 2) div 5 + d - 1;
          doe = yoe * 365 + yoe div 4 - yoe div 100 + doy
      in era * 146097 + doe - 719468)"

definition leap_year :: "int \<Rightarrow> bool" where
  "leap_year y \<longleftrightarrow> y mod 4 = 0 \<and> (y mod 100 \<noteq> 0 \<or> y mod 400 = 0)"

definition days_in_month :: "int \<Rightarrow> int \<Rightarrow> int" where
  "days_in_month y m = (if m = 2 then (if leap_year y then 29 else 28) else if m \<in> {4, 6, 9, 11} then 30 else 31)"

definition num_field :: "nat \<Rightarrow> string \<Rightarrow> (int \<times> string) option" where
  "num_field w s =
     (if w \<le> length s \<and> list_all is_digit (take w s) then Some (digits_int (take w s), drop w s) else None)"

definition sep_field :: "char \<Rightarrow> nat \<Rightarrow> string \<Rightarrow> (int \<times> string) option" where
  "sep_field c w s = (case s of x # r \<Rightarrow> if x = c then num_field w r else None | [] \<Rightarrow> None)"

text \<open>The zone: \<open>Z\<close>, or hours and minutes east or west of Greenwich, as seconds to subtract.\<close>

definition zone_field :: "string \<Rightarrow> int option" where
  "zone_field s = (case s of
     [] \<Rightarrow> None
   | c # r \<Rightarrow>
       if c = CHR ''Z'' \<and> r = [] then Some 0
       else if c \<noteq> CHR ''+'' \<and> c \<noteq> CHR ''-'' then None
       else (case num_field 2 r of
               None \<Rightarrow> None
             | Some (h, r1) \<Rightarrow> (case sep_field CHR '':'' 2 r1 of
                 Some (m, r2) \<Rightarrow>
                   if r2 = [] \<and> h \<le> 24 \<and> m \<le> 60
                   then Some ((if c = CHR ''-'' then - 1 else 1) * (h * 3600 + m * 60)) else None
               | None \<Rightarrow> None)))"

text \<open>The hour may have a single digit.\<close>

definition hour_field :: "char \<Rightarrow> string \<Rightarrow> (int \<times> string) option" where
  "hour_field c s = (case sep_field c 2 s of Some r \<Rightarrow> Some r | None \<Rightarrow> sep_field c 1 s)"

definition fraction_field :: "string \<Rightarrow> int \<times> string" where
  "fraction_field s = (case s of
     c # r \<Rightarrow>
       if (c = CHR ''.'' \<or> c = CHR '','') \<and> takeWhile is_digit r \<noteq> []
       then (digits_int (take 9 (takeWhile is_digit r @ replicate 9 CHR ''0'')), dropWhile is_digit r)
       else (0, s)
   | [] \<Rightarrow> (0, s))"

text \<open>A date and a time of day with the given character between them, and what follows.\<close>

definition date_time :: "char \<Rightarrow> string \<Rightarrow> (instant \<times> string) option" where
  "date_time c s =
     (case num_field 4 s of None \<Rightarrow> None | Some (y, s1) \<Rightarrow>
      (case sep_field CHR ''-'' 2 s1 of None \<Rightarrow> None | Some (mo, s2) \<Rightarrow>
      (case sep_field CHR ''-'' 2 s2 of None \<Rightarrow> None | Some (d, s3) \<Rightarrow>
      (case hour_field c s3 of None \<Rightarrow> None | Some (h, s4) \<Rightarrow>
      (case sep_field CHR '':'' 2 s4 of None \<Rightarrow> None | Some (mi, s5) \<Rightarrow>
      (case sep_field CHR '':'' 2 s5 of None \<Rightarrow> None | Some (se, s6) \<Rightarrow>
      (case fraction_field s6 of (ns, s7) \<Rightarrow>
        if 1 \<le> mo \<and> mo \<le> 12 \<and> 1 \<le> d \<and> d \<le> days_in_month y mo \<and> h < 24 \<and> mi < 60 \<and> se < 60
        then Some ((days_from_civil y mo d * 86400 + h * 3600 + mi * 60 + se) * second + ns, s7)
        else None)))))))"

definition Parse_RFC3339 :: "string \<Rightarrow> instant res" where
  "Parse_RFC3339 s = (case date_time CHR ''T'' s of
     None \<Rightarrow> Inl (Plain ''parsing time'')
   | Some (t, r) \<Rightarrow> (case zone_field r of
       None \<Rightarrow> Inl (Plain ''parsing time'')
     | Some z \<Rightarrow> Inr (t - z * second)))"

text \<open>The layout \<^verbatim>\<open>time.DateTime\<close>, in UTC.\<close>

definition Parse_DateTime :: "string \<Rightarrow> instant res" where
  "Parse_DateTime s = (case date_time CHR '' '' s of
     Some (t, []) \<Rightarrow> Inr t
   | _ \<Rightarrow> Inl (Plain ''parsing time''))"

end
