(* ===== verification/Sha256.thy ===== *)
theory Sha256
  imports GoStrings
begin

unbundle bit_operations_syntax

text \<open>
  \<^verbatim>\<open>crypto/sha256.Sum256\<close> and \<^verbatim>\<open>hex.EncodeToString\<close>: the digest that decides whether a managed
  file is rewritten and under which name its old content is backed up. The definition is FIPS 180-4
  on 32-bit words.
\<close>

definition sha_K :: "32 word list" where
  "sha_K = [
      0x428A2F98, 0x71374491, 0xB5C0FBCF, 0xE9B5DBA5, 0x3956C25B, 0x59F111F1,
      0x923F82A4, 0xAB1C5ED5, 0xD807AA98, 0x12835B01, 0x243185BE, 0x550C7DC3,
      0x72BE5D74, 0x80DEB1FE, 0x9BDC06A7, 0xC19BF174, 0xE49B69C1, 0xEFBE4786,
      0x0FC19DC6, 0x240CA1CC, 0x2DE92C6F, 0x4A7484AA, 0x5CB0A9DC, 0x76F988DA,
      0x983E5152, 0xA831C66D, 0xB00327C8, 0xBF597FC7, 0xC6E00BF3, 0xD5A79147,
      0x06CA6351, 0x14292967, 0x27B70A85, 0x2E1B2138, 0x4D2C6DFC, 0x53380D13,
      0x650A7354, 0x766A0ABB, 0x81C2C92E, 0x92722C85, 0xA2BFE8A1, 0xA81A664B,
      0xC24B8B70, 0xC76C51A3, 0xD192E819, 0xD6990624, 0xF40E3585, 0x106AA070,
      0x19A4C116, 0x1E376C08, 0x2748774C, 0x34B0BCB5, 0x391C0CB3, 0x4ED8AA4A,
      0x5B9CCA4F, 0x682E6FF3, 0x748F82EE, 0x78A5636F, 0x84C87814, 0x8CC70208,
      0x90BEFFFA, 0xA4506CEB, 0xBEF9A3F7, 0xC67178F2]"

definition sha_H0 :: "32 word list" where
  "sha_H0 = [
      0x6A09E667, 0xBB67AE85, 0x3C6EF372, 0xA54FF53A,
      0x510E527F, 0x9B05688C, 0x1F83D9AB, 0x5BE0CD19]"

text \<open>The message is padded with a one bit, zeros and its length in bits to a multiple of 64 bytes.\<close>

definition be_bytes :: "nat \<Rightarrow> nat \<Rightarrow> nat list" where
  "be_bytes k n = map (\<lambda>i. n div 256 ^ i mod 256) (rev [0..<k])"

definition sha_pad :: "nat list \<Rightarrow> nat list" where
  "sha_pad m =
     (let n = length m; z = (119 - n mod 64) mod 64
      in m @ [128] @ replicate z 0 @ be_bytes 8 (8 * n))"

fun be_words :: "nat list \<Rightarrow> 32 word list" where
  "be_words (a # b # c # d # r) = of_nat (((a * 256 + b) * 256 + c) * 256 + d) # be_words r"
| "be_words _ = []"

definition sig0 :: "32 word \<Rightarrow> 32 word" where
  "sig0 x = word_rotr 7 x XOR word_rotr 18 x XOR drop_bit 3 x"

definition sig1 :: "32 word \<Rightarrow> 32 word" where
  "sig1 x = word_rotr 17 x XOR word_rotr 19 x XOR drop_bit 10 x"

definition bsig0 :: "32 word \<Rightarrow> 32 word" where
  "bsig0 x = word_rotr 2 x XOR word_rotr 13 x XOR word_rotr 22 x"

definition bsig1 :: "32 word \<Rightarrow> 32 word" where
  "bsig1 x = word_rotr 6 x XOR word_rotr 11 x XOR word_rotr 25 x"

text \<open>The message schedule: the sixteen words of a block, extended to sixty-four.\<close>

fun sha_extend :: "nat \<Rightarrow> 32 word list \<Rightarrow> 32 word list" where
  "sha_extend 0 w = w"
| "sha_extend (Suc n) w =
     (let k = length w
      in sha_extend n (w @ [sig1 (w ! (k - 2)) + w ! (k - 7) + sig0 (w ! (k - 15)) + w ! (k - 16)]))"

fun sha_round :: "32 word \<times> 32 word \<Rightarrow> 32 word list \<Rightarrow> 32 word list" where
  "sha_round (k, w) [a, b, c, d, e, f, g, h] =
     (let t1 = h + bsig1 e + ((e AND f) XOR (NOT e AND g)) + k + w;
          t2 = bsig0 a + ((a AND b) XOR (a AND c) XOR (b AND c))
      in [t1 + t2, a, b, c, d + t1, e, f, g])"
| "sha_round kw s = s"

definition sha_block :: "32 word list \<Rightarrow> 32 word list \<Rightarrow> 32 word list" where
  "sha_block h ws = map2 (+) h (fold sha_round (zip sha_K (sha_extend 48 ws)) h)"

fun sha_blocks :: "nat \<Rightarrow> 32 word list \<Rightarrow> 32 word list \<Rightarrow> 32 word list" where
  "sha_blocks 0 h ws = h"
| "sha_blocks (Suc n) h ws = sha_blocks n (sha_block h (take 16 ws)) (drop 16 ws)"

definition Sum256 :: "string \<Rightarrow> 32 word list" where
  "Sum256 data =
     (let ws = be_words (sha_pad (map of_char data)) in sha_blocks (length ws div 16) sha_H0 ws)"

definition hex_digit :: "nat \<Rightarrow> char" where
  "hex_digit n = ''0123456789abcdef'' ! (n mod 16)"

definition hex_word :: "32 word \<Rightarrow> string" where
  "hex_word x = map (\<lambda>i. hex_digit (unat x div 16 ^ i)) [7, 6, 5, 4, 3, 2, 1, 0]"

text \<open>\<^verbatim>\<open>hex.EncodeToString\<close> of the 32 bytes of the digest.\<close>

definition sha256_hex :: "string \<Rightarrow> string" where
  "sha256_hex data = concat (map hex_word (Sum256 data))"

section \<open>The shape of a digest\<close>

lemma length_sha_round: "length (sha_round kw s) = length s"
  by (induction kw s rule: sha_round.induct) (auto simp: Let_def)

lemma length_fold_sha_round: "length (fold sha_round kws s) = length s"
  by (induction kws arbitrary: s) (auto simp: length_sha_round)

lemma length_sha_blocks: "length (sha_blocks n h ws) = length h"
  by (induction n arbitrary: h ws) (auto simp: sha_block_def length_fold_sha_round)

lemma length_Sum256: "length (Sum256 data) = 8"
  by (simp add: Sum256_def Let_def length_sha_blocks sha_H0_def)

lemma length_concat_hex: "length (concat (map hex_word ws)) = 8 * length ws"
  by (induction ws) (auto simp: hex_word_def)

lemma length_sha256_hex [simp]: "length (sha256_hex data) = 64"
  by (simp add: sha256_hex_def length_concat_hex length_Sum256)

lemma hex_digit_set: "hex_digit n \<in> set ''0123456789abcdef''"
  unfolding hex_digit_def by (rule nth_mem) simp

lemma sha256_hex_digits: "set (sha256_hex data) \<subseteq> set ''0123456789abcdef''"
proof -
  have "set (hex_word x) \<subseteq> set ''0123456789abcdef''" for x
    unfolding hex_word_def using hex_digit_set by auto
  then show ?thesis unfolding sha256_hex_def by fastforce
qed

end
