(* ===== verification/Files.thy ===== *)
theory Files
  imports OsFile Sha256
begin

unbundle bit_operations_syntax

text \<open>
  The file handler of \<^verbatim>\<open>pkg/files\<close>: ownership, mode and content of managed files, the lookup of
  users and groups through \<^verbatim>\<open>getent\<close>, and the content-addressed bucket that keeps the replaced
  contents. An operation that returns a \<open>bool\<close> and an error is a state transformer with a result of
  type \<open>bool \<times> err option\<close>.
\<close>

section \<open>Results with a change flag\<close>

definition or_false :: "('s, 'a res) state \<Rightarrow> (err \<Rightarrow> err) \<Rightarrow>
    ('a \<Rightarrow> ('s, bool \<times> err option) state) \<Rightarrow> ('s, bool \<times> err option) state" where
  "or_false m wrap k = do {
     r \<leftarrow> m;
     (case r of Inl e \<Rightarrow> ret (False, Some (wrap e)) | Inr x \<Rightarrow> k x)
   }"

lemma run_or_false [simp]:
  "run_state (or_false m wrap k) s =
     (case run_state m s of (Inl e, s') \<Rightarrow> ((False, Some (wrap e)), s') | (Inr x, s') \<Rightarrow> run_state (k x) s')"
  by (simp add: or_false_def split: prod.splits sum.splits)

lemma emits_or_false [emits_rules]:
  "emits P m \<Longrightarrow> (\<And>x. emits P (k x)) \<Longrightarrow> emits P (or_false m wrap k)"
  unfolding or_false_def by (intro emits_rules)

definition of_option :: "err \<Rightarrow> 'a option \<Rightarrow> 'a res" where
  "of_option e x = (case x of None \<Rightarrow> Inl e | Some y \<Rightarrow> Inr y)"

section \<open>files.FileEnsure\<close>

datatype FileEnsure = UnhandledFileEnsure | FileE | Directory | Symlink | Absent

definition EnsureByName :: "FileEnsure smap" where
  "EnsureByName = [(''unhandled'', UnhandledFileEnsure), (''file'', FileE), (''directory'', Directory),
     (''symlink'', Symlink), (''absent'', Absent), ('''', FileE)]"

fun FileEnsure_String :: "FileEnsure \<Rightarrow> string" where
  "FileEnsure_String UnhandledFileEnsure = ''unhandled''"
| "FileEnsure_String FileE = ''file''"
| "FileEnsure_String Directory = ''directory''"
| "FileEnsure_String Symlink = ''symlink''"
| "FileEnsure_String Absent = ''absent''"

definition FileEnsureFromString :: "string \<Rightarrow> FileEnsure" where
  "FileEnsureFromString s =
     (case map_of EnsureByName s of Some f \<Rightarrow> f | None \<Rightarrow> UnhandledFileEnsure)"

lemma FileEnsure_roundtrip: "FileEnsureFromString (FileEnsure_String f) = f"
  by (cases f) (simp_all add: FileEnsureFromString_def EnsureByName_def)

section \<open>Users and groups: lookup.go\<close>

text \<open>\<^verbatim>\<open>exec.Command(...).Output()\<close>: the standard output, when the command exits with code 0.\<close>

definition command_Output :: "'h host \<Rightarrow> string \<Rightarrow> string list \<Rightarrow> ('h world, string option) state" where
  "command_Output h cmd args = do {
     p \<leftarrow> run_proc h cmd args [];
     ret (case p of Exited n out er \<Rightarrow> if n = 0 then Some out else None | _ \<Rightarrow> None)
   }"

definition third_field :: "string option \<Rightarrow> string option" where
  "third_field out = (case out of
     None \<Rightarrow> None
   | Some s \<Rightarrow> (let fields = SplitN CHR '':'' 4 (TrimSpace s)
                in if 3 \<le> length fields then Some (fields ! 2) else None))"

definition first_field :: "string option \<Rightarrow> string option" where
  "first_field out = (case out of
     None \<Rightarrow> None
   | Some s \<Rightarrow> (let fields = SplitN CHR '':'' 2 (TrimSpace s)
                in if 1 \<le> length fields \<and> fields ! 0 \<noteq> [] then Some (fields ! 0) else None))"

definition lookupUID :: "'h host \<Rightarrow> string \<Rightarrow> ('h world, string res) state" where
  "lookupUID h username = do {
     out \<leftarrow> command_Output h ''getent'' [''passwd'', username];
     (case third_field out of
        Some u \<Rightarrow> ret (Inr u)
      | None \<Rightarrow> or_return (ext (h_userId h username)) (Wrap (''lookup user '' @ username))
                  (\<lambda>u. ret (Inr u)))
   }"

definition lookupGID :: "'h host \<Rightarrow> string \<Rightarrow> ('h world, string res) state" where
  "lookupGID h grp = do {
     out \<leftarrow> command_Output h ''getent'' [''group'', grp];
     (case third_field out of
        Some g \<Rightarrow> ret (Inr g)
      | None \<Rightarrow> or_return (ext (h_groupId h grp)) (Wrap (''lookup group '' @ grp))
                  (\<lambda>g. ret (Inr g)))
   }"

definition lookupUsernameByUID :: "'h host \<Rightarrow> string \<Rightarrow> ('h world, string) state" where
  "lookupUsernameByUID h uid = do {
     out \<leftarrow> command_Output h ''getent'' [''passwd'', uid];
     (case first_field out of
        Some u \<Rightarrow> ret u
      | None \<Rightarrow> do {
          r \<leftarrow> ext (h_userName h uid);
          ret (case r of Inl _ \<Rightarrow> [] | Inr n \<Rightarrow> n)
        })
   }"

definition lookupGroupnameByGID :: "'h host \<Rightarrow> string \<Rightarrow> ('h world, string) state" where
  "lookupGroupnameByGID h gid = do {
     out \<leftarrow> command_Output h ''getent'' [''group'', gid];
     (case first_field out of
        Some g \<Rightarrow> ret g
      | None \<Rightarrow> do {
          r \<leftarrow> ext (h_groupName h gid);
          ret (case r of Inl _ \<Rightarrow> [] | Inr n \<Rightarrow> n)
        })
   }"

section \<open>File modes: GetFileModeFromString\<close>

text \<open>
  \<^verbatim>\<open>strconv.ParseUint(mode, 0, 32)\<close>: the prefixes \<open>0x\<close>, \<open>0o\<close>, \<open>0b\<close> and \<open>0\<close> choose the base, ten is the
  default, and underscores may separate digits.
\<close>

definition digit_in :: "char \<Rightarrow> int option" where
  "digit_in c =
     (if is_digit c then Some (digit_val c)
      else let l = to_lower_char c; n = int (of_char l) - 97
           in if 0 \<le> n \<and> n < 26 then Some (n + 10) else None)"

fun parse_digits :: "int \<Rightarrow> int \<Rightarrow> string \<Rightarrow> int option" where
  "parse_digits base acc [] = Some acc"
| "parse_digits base acc (c # cs) =
     (if c = CHR ''_'' then parse_digits base acc cs
      else (case digit_in c of
              Some d \<Rightarrow> if d < base then parse_digits base (acc * base + d) cs else None
            | None \<Rightarrow> None))"

definition base_prefix :: "string \<Rightarrow> int \<times> string" where
  "base_prefix s = (case s of
     [] \<Rightarrow> (10, [])
   | c # r \<Rightarrow>
       if c \<noteq> CHR ''0'' then (10, s)
       else (case r of
               k # d # ds \<Rightarrow>
                 if to_lower_char k = CHR ''b'' then (2, d # ds)
                 else if to_lower_char k = CHR ''o'' then (8, d # ds)
                 else if to_lower_char k = CHR ''x'' then (16, d # ds)
                 else (8, r)
             | _ \<Rightarrow> (8, r)))"

fun underscores_ok :: "bool \<Rightarrow> char \<Rightarrow> string \<Rightarrow> bool" where
  "underscores_ok hexa saw [] = (saw \<noteq> CHR ''_'')"
| "underscores_ok hexa saw (c # cs) =
     (if is_digit c \<or> (hexa \<and> CHR ''a'' \<le> to_lower_char c \<and> to_lower_char c \<le> CHR ''f'')
      then underscores_ok hexa CHR ''0'' cs
      else if c = CHR ''_'' then (saw = CHR ''0'' \<and> underscores_ok hexa CHR ''_'' cs)
      else saw \<noteq> CHR ''_'' \<and> underscores_ok hexa CHR ''!'' cs)"

definition underscoreOK :: "string \<Rightarrow> bool" where
  "underscoreOK s = (case s of
     a # k # r \<Rightarrow>
       (if a = CHR ''0'' \<and> to_lower_char k \<in> {CHR ''b'', CHR ''o'', CHR ''x''}
        then underscores_ok (to_lower_char k = CHR ''x'') CHR ''0'' r
        else underscores_ok False CHR ''^'' s)
   | _ \<Rightarrow> underscores_ok False CHR ''^'' s)"

definition ParseUint0_32 :: "string \<Rightarrow> 32 word res" where
  "ParseUint0_32 s =
     (if s = [] then Inl (Plain ''invalid syntax'')
      else let (base, ds) = base_prefix s
           in (case parse_digits base 0 ds of
                 None \<Rightarrow> Inl (Plain ''invalid syntax'')
               | Some n \<Rightarrow>
                   if 2 ^ 32 \<le> n then Inl (Plain ''value out of range'')
                   else if CHR ''_'' \<in> set ds \<and> \<not> underscoreOK s then Inl (Plain ''invalid syntax'')
                   else Inr (word_of_int n)))"

definition GetFileModeFromString :: "string \<Rightarrow> 32 word res" where
  "GetFileModeFromString mode = ParseUint0_32 mode"

section \<open>FileHandlerCommon\<close>

record file_handler =
  fh_defaultOwner :: string
  fh_defaultGroup :: string

definition NewFileHandler :: "string \<Rightarrow> string \<Rightarrow> file_handler" where
  "NewFileHandler owner grp = \<lparr>fh_defaultOwner = owner, fh_defaultGroup = grp\<rparr>"

definition Chown :: "'h host \<Rightarrow> file_handler \<Rightarrow> string \<Rightarrow> string \<Rightarrow> string \<Rightarrow>
    ('h world, bool \<times> err option) state" where
  "Chown h fh path owner grp =
     (let owner = (if owner = [] then fh_defaultOwner fh else owner);
          grp = (if grp = [] then fh_defaultGroup fh else grp)
      in or_false (lookupUID h owner) (Wrap ''failed to lookup user'') (\<lambda>uidStr.
         or_false (ret (of_option (Plain ''invalid syntax'') (Atoi uidStr)))
           (Wrap ''failed to convert uid string'') (\<lambda>uid.
         or_false (lookupGID h grp) (Wrap ''failed to lookup group'') (\<lambda>gidStr.
         or_false (ret (of_option (Plain ''invalid syntax'') (Atoi gidStr)))
           (Wrap ''failed to convert gid string'') (\<lambda>gid.
         or_false (os_Stat h path) (Wrap ''failed to stat file'') (\<lambda>i.
           if uint (i_gid i) = gid \<and> uint (i_uid i) = uid then ret (False, None)
           else do {
             e \<leftarrow> os_Chown h path (word_of_int uid) (word_of_int gid);
             ret (case e of Some x \<Rightarrow> (False, Some (Wrap ''failed to chown file'' x)) | None \<Rightarrow> (True, None))
           }))))))"

definition SetMode :: "'h host \<Rightarrow> string \<Rightarrow> string \<Rightarrow> ('h world, bool \<times> err option) state" where
  "SetMode h path mode =
     or_false (os_Stat h path) (Wrap ''failed to stat file'') (\<lambda>i.
     or_false (ret (GetFileModeFromString mode)) id (\<lambda>desired.
       if desired AND mode_perm = i_mode i AND mode_perm then ret (False, None)
       else do {
         e \<leftarrow> os_Chmod h path desired;
         ret (case e of Some x \<Rightarrow> (False, Some x) | None \<Rightarrow> (True, None))
       }))"

definition file_hash :: "string \<Rightarrow> string" where
  "file_hash data = sha256_hex data"

text \<open>\<^verbatim>\<open>os.Create\<close> opens for reading and writing, creates with mode 0666 and truncates. A file that
  does not exist is read as no bytes.\<close>

definition write_if_differs :: "'h host \<Rightarrow> string \<Rightarrow> string \<Rightarrow> string \<Rightarrow>
    ('h world, bool \<times> err option) state" where
  "write_if_differs h path data fileBytes =
     (if file_hash fileBytes = file_hash data then ret (False, None)
      else or_false (os_OpenTrunc h path 0x1B6) id (\<lambda>f. do {
        e \<leftarrow> file_Write h f data;
        ret (True, e)
      }))"

definition WriteContentFile :: "'h host \<Rightarrow> string \<Rightarrow> string \<Rightarrow> ('h world, bool \<times> err option) state" where
  "WriteContentFile h path data = do {
     r \<leftarrow> os_ReadFile h path;
     (case r of
        Inl e \<Rightarrow> if \<not> os_is_not_exist e then ret (False, Some e) else write_if_differs h path data []
      | Inr bytes \<Rightarrow> write_if_differs h path data bytes)
   }"

definition Remove :: "'h host \<Rightarrow> string \<Rightarrow> ('h world, bool \<times> err option) state" where
  "Remove h path = do {
     r \<leftarrow> os_Stat h path;
     (case r of
        Inl (OsNotExist m) \<Rightarrow> ret (False, None)
      | _ \<Rightarrow> do { e \<leftarrow> os_Remove h path; ret (True, e) })
   }"

section \<open>The filebucket\<close>

text \<open>\<^verbatim>\<open>time.RFC3339\<close> of an instant in UTC, by the proleptic Gregorian calendar.\<close>

definition pad_digits :: "nat \<Rightarrow> int \<Rightarrow> string" where
  "pad_digits w n = (let s = nat_digits (nat n) in replicate (w - length s) CHR ''0'' @ s)"

definition civil_of_days :: "int \<Rightarrow> int \<times> int \<times> int" where
  "civil_of_days z =
     (let z = z + 719468; era = z div 146097; doe = z mod 146097;
          yoe = (doe - doe div 1460 + doe div 36524 - doe div 146096) div 365;
          doy = doe - (365 * yoe + yoe div 4 - yoe div 100);
          mp = (5 * doy + 2) div 153;
          d = doy - (153 * mp + 2) div 5 + 1;
          m = (if mp < 10 then mp + 3 else mp - 9);
          y = yoe + era * 400 + (if m \<le> 2 then 1 else 0)
      in (y, m, d))"

definition RFC3339 :: "instant \<Rightarrow> string" where
  "RFC3339 t =
     (let s = t div second; (y, m, d) = civil_of_days (s div 86400); r = s mod 86400
      in pad_digits 4 y @ ''-'' @ pad_digits 2 m @ ''-'' @ pad_digits 2 d @ ''T'' @
         pad_digits 2 (r div 3600) @ '':'' @ pad_digits 2 (r div 60 mod 60) @ '':'' @
         pad_digits 2 (r mod 60) @ ''Z'')"

fun oct_digits :: "nat \<Rightarrow> string" where
  "oct_digits n = (if n < 8 then [hex_digit n] else oct_digits (n div 8) @ [hex_digit (n mod 8)])"

declare oct_digits.simps [simp del]

text \<open>\<^verbatim>\<open>fmt.Sprintf("%04o", m)\<close>.\<close>

definition octal4 :: "32 word \<Rightarrow> string" where
  "octal4 m = (let s = oct_digits (unat m) in replicate (4 - length s) CHR ''0'' @ s)"

definition json_char :: "char \<Rightarrow> string" where
  "json_char c =
     (let n = (of_char c :: nat); hexa = (\<lambda>k. [CHR 0x5C, CHR ''u'', CHR ''0'', CHR ''0'',
            hex_digit (k div 16), hex_digit (k mod 16)])
      in if c = CHR 0x22 \<or> c = CHR 0x5C then [CHR 0x5C, c]
         else if n = 8 then [CHR 0x5C, CHR ''b'']
         else if n = 9 then [CHR 0x5C, CHR ''t'']
         else if n = 10 then [CHR 0x5C, CHR ''n'']
         else if n = 12 then [CHR 0x5C, CHR ''f'']
         else if n = 13 then [CHR 0x5C, CHR ''r'']
         else if n < 32 \<or> c \<in> {CHR ''<'', CHR ''>'', CHR ''&''} then hexa n
         else [c])"

definition json_string :: "string \<Rightarrow> string" where
  "json_string s = [CHR 0x22] @ concat (map json_char s) @ [CHR 0x22]"

record FileBucketMeta =
  fm_Path :: string
  fm_BackedUpAt :: string
  fm_Mode :: string
  fm_UID :: "32 word"
  fm_GID :: "32 word"
  fm_Owner :: string
  fm_Group :: string

definition meta_json :: "FileBucketMeta \<Rightarrow> string" where
  "meta_json m =
     ''{'' @ json_string ''path'' @ '':'' @ json_string (fm_Path m) @
     '','' @ json_string ''backedUpAt'' @ '':'' @ json_string (fm_BackedUpAt m) @
     '','' @ json_string ''mode'' @ '':'' @ json_string (fm_Mode m) @
     '','' @ json_string ''uid'' @ '':'' @ Itoa (uint (fm_UID m)) @
     '','' @ json_string ''gid'' @ '':'' @ Itoa (uint (fm_GID m)) @
     (if fm_Owner m = [] then [] else '','' @ json_string ''owner'' @ '':'' @ json_string (fm_Owner m)) @
     (if fm_Group m = [] then [] else '','' @ json_string ''group'' @ '':'' @ json_string (fm_Group m)) @
     ''}''"

definition bucket_dir :: "string \<Rightarrow> string \<Rightarrow> string" where
  "bucket_dir bucketPath hash = filepath_Join [bucketPath, take 2 hash, take 2 (drop 2 hash)]"

definition blob_path :: "string \<Rightarrow> string \<Rightarrow> string" where
  "blob_path bucketPath hash = filepath_Join [bucket_dir bucketPath hash, drop 4 hash]"

definition bucket_meta :: "'h host \<Rightarrow> string \<Rightarrow> inode \<Rightarrow> ('h world, FileBucketMeta) state" where
  "bucket_meta h filePath info = do {
     t \<leftarrow> now h;
     owner \<leftarrow> lookupUsernameByUID h (Itoa (uint (i_uid info)));
     grp \<leftarrow> lookupGroupnameByGID h (Itoa (uint (i_gid info)));
     ret \<lparr>fm_Path = filePath, fm_BackedUpAt = RFC3339 t, fm_Mode = octal4 (i_mode info AND mode_perm),
       fm_UID = i_uid info, fm_GID = i_gid info, fm_Owner = owner, fm_Group = grp\<rparr>
   }"

definition SaveToFileBucket :: "'h host \<Rightarrow> string \<Rightarrow> string \<Rightarrow> string \<Rightarrow> inode \<Rightarrow>
    ('h world, string res) state" where
  "SaveToFileBucket h bucketPath filePath data info =
     (let hash = sha256_hex data; dir = bucket_dir bucketPath hash; blobPath = blob_path bucketPath hash
      in check (os_MkdirAll h dir 0x1C0) (Wrap (''filebucket: create dir '' @ dir)) (do {
           r \<leftarrow> os_Stat h blobPath;
           (case r of
              Inr _ \<Rightarrow> ret (Inr hash)
            | Inl _ \<Rightarrow> check (os_WriteFile h blobPath data 0x180) (Wrap ''filebucket: write blob'') (do {
                m \<leftarrow> bucket_meta h filePath info;
                _ \<leftarrow> os_WriteFile h (blobPath @ ''.meta'') (meta_json m) 0x180;
                ret (Inr hash)
              }))
         }))"

text \<open>
  \<^verbatim>\<open>filepath.WalkDir\<close> with a callback that never fails visits every entry below the root whose
  directories it can read, in lexical order and without following links. \<open>walk_files\<close> are the entries
  that are no directories; an entry that cannot be read is skipped by the callback.
\<close>

definition below_dir :: "fs \<Rightarrow> string \<Rightarrow> string \<Rightarrow> bool" where
  "below_dir fs root p \<longleftrightarrow> HasPrefix p (Clean root @ ''/'') \<and>
     (\<forall>d \<in> set (ancestors p). d = p \<or> (case map_of fs d of Some i \<Rightarrow> i_kind i = FDir | None \<Rightarrow> False))"

definition walk_files :: "fs \<Rightarrow> string \<Rightarrow> string list" where
  "walk_files fs root =
     sort (remdups (filter (\<lambda>p. below_dir fs root p \<and>
       (case map_of fs p of Some i \<Rightarrow> i_kind i \<noteq> FDir | None \<Rightarrow> False)) (map fst fs)))"

definition os_Lstat :: "'h host \<Rightarrow> string \<Rightarrow> ('h world, inode res) state" where
  "os_Lstat h p = syscall h ''lstat'' p (do {
     fs \<leftarrow> get_fs;
     ret (case entry_at fs p of Some i \<Rightarrow> Inr i | None \<Rightarrow> Inl (OsNotExist (''lstat '' @ p)))
   })"

definition gc_entry :: "'h host \<Rightarrow> duration \<Rightarrow> string \<Rightarrow> ('h world, unit) state" where
  "gc_entry h maxAge path =
     (if Ext path = ''.meta'' then ret ()
      else do {
        r \<leftarrow> os_Lstat h path;
        (case r of
           Inl _ \<Rightarrow> ret ()
         | Inr info \<Rightarrow> do {
             t \<leftarrow> now h;
             if time_sub t (i_mtime info) < maxAge then ret ()
             else do {
               _ \<leftarrow> os_Remove h path;
               _ \<leftarrow> os_Remove h (path @ ''.meta'');
               ret ()
             }
           })
      })"

fun gc_entries :: "'h host \<Rightarrow> duration \<Rightarrow> string list \<Rightarrow> ('h world, unit) state" where
  "gc_entries h maxAge [] = ret ()"
| "gc_entries h maxAge (p # ps) = do { gc_entry h maxAge p; gc_entries h maxAge ps }"

definition GCFileBucket :: "'h host \<Rightarrow> string \<Rightarrow> duration \<Rightarrow> ('h world, err option) state" where
  "GCFileBucket h bucketPath maxAge = do {
     fs \<leftarrow> get_fs;
     gc_entries h maxAge (walk_files fs bucketPath);
     ret None
   }"

section \<open>Events\<close>

lemma emits_command_Output [emits_rules]:
  "(\<And>n. P (EvExec cmd args [] n)) \<Longrightarrow> emits P (command_Output h cmd args)"
  unfolding command_Output_def by (intro emits_rules)

lemma emits_lookup [emits_rules]:
  assumes "\<And>args n. P (EvExec ''getent'' args [] n)"
  shows "emits P (lookupUID h u)" "emits P (lookupGID h u)"
    "emits P (lookupUsernameByUID h u)" "emits P (lookupGroupnameByGID h u)"
  unfolding lookupUID_def lookupGID_def lookupUsernameByUID_def lookupGroupnameByGID_def
  by (intro emits_rules assms)+

lemma emits_Chown [emits_rules]:
  "(\<And>args n. P (EvExec ''getent'' args [] n)) \<Longrightarrow> emits P (Chown h fh p u g)"
  unfolding Chown_def Let_def by (intro emits_rules)

lemma emits_SetMode [emits_rules]: "emits P (SetMode h p m)"
  unfolding SetMode_def by (intro emits_rules)

lemma emits_WriteContentFile [emits_rules]: "emits P (WriteContentFile h p d)"
  unfolding WriteContentFile_def write_if_differs_def by (intro emits_rules)

lemma emits_Remove [emits_rules]: "emits P (Remove h p)"
  unfolding Remove_def by (intro emits_rules) (auto split: sum.split err.split intro!: emits_rules)

lemma emits_SaveToFileBucket [emits_rules]:
  "(\<And>args n. P (EvExec ''getent'' args [] n)) \<Longrightarrow> emits P (SaveToFileBucket h b p d i)"
  unfolding SaveToFileBucket_def Let_def bucket_meta_def by (intro emits_rules)

lemma emits_gc [emits_rules]: "emits P (GCFileBucket h b a)"
proof -
  have "emits P (gc_entry h a p)" for p
    unfolding gc_entry_def os_Lstat_def by (intro emits_rules)
  then have "emits P (gc_entries h a ps)" for ps
    by (induction ps) (auto intro!: emits_rules)
  then show ?thesis unfolding GCFileBucket_def by (intro emits_rules)
qed

section \<open>What the operations achieve\<close>

lemma write_if_differs_ok:
  assumes "run_state (write_if_differs h path data old) w = ((b, None), w')"
  shows "b \<longleftrightarrow> file_hash old \<noteq> file_hash data"
    and "\<not> b \<Longrightarrow> w' = w"
    and "b \<Longrightarrow> content_at (w_fs w') path = Some data"
    and "\<forall>k. resolve (w_fs w) path \<noteq> Some k \<longrightarrow> map_of (w_fs w') k = map_of (w_fs w) k"
proof -
  consider (same) "file_hash old = file_hash data" "b = False" "w' = w"
    | (diff) q w1 where "file_hash old \<noteq> file_hash data" "b = True"
        "run_state (os_OpenTrunc h path 0x1B6) w = (Inr q, w1)" "run_state (file_Write h q data) w1 = (None, w')"
    using assms by (auto simp: write_if_differs_def split: if_splits prod.splits sum.splits)
  note cases = this
  then show "b \<longleftrightarrow> file_hash old \<noteq> file_hash data" and "\<not> b \<Longrightarrow> w' = w" by (cases; simp)+
  from cases show "b \<Longrightarrow> content_at (w_fs w') path = Some data"
    by cases (auto dest: write_after_open(1))
  from cases show "\<forall>k. resolve (w_fs w) path \<noteq> Some k \<longrightarrow> map_of (w_fs w') k = map_of (w_fs w) k"
    by cases (auto dest: write_after_open(2))
qed

text \<open>The bytes that \<open>WriteContentFile\<close> compares with: a missing file counts as empty.\<close>

definition current_bytes :: "fs \<Rightarrow> string \<Rightarrow> string" where
  "current_bytes fs p = (case content_at fs p of Some c \<Rightarrow> c | None \<Rightarrow> [])"

lemma WriteContentFile_cases:
  assumes "run_state (WriteContentFile h path data) w = ((b, e), w')"
  obtains (unreadable) "\<not> b" "e \<noteq> None" "w_fs w' = w_fs w"
  | (read) w1 where "w_fs w1 = w_fs w"
      "run_state (write_if_differs h path data (current_bytes (w_fs w) path)) w1 = ((b, e), w')"
proof -
  obtain r w1 where r: "run_state (os_ReadFile h path) w = (r, w1)" by fastforce
  note fs = os_ReadFile_fs[OF r]
  show thesis
  proof (cases r)
    case (Inl x)
    show thesis
    proof (cases "os_is_not_exist x")
      case True
      then have "current_bytes (w_fs w) path = []"
        using os_ReadFile_not_exist[OF r[unfolded Inl]] by (simp add: current_bytes_def)
      with True Inl r fs assms show thesis by (intro read[of w1]) (auto simp: WriteContentFile_def)
    next
      case False
      with Inl r fs assms show thesis by (intro unreadable) (auto simp: WriteContentFile_def)
    qed
  next
    case (Inr c)
    then have "current_bytes (w_fs w) path = c"
      using os_ReadFile_ok[OF r[unfolded Inr]] by (simp add: current_bytes_def)
    with Inr r fs assms show thesis by (intro read[of w1]) (auto simp: WriteContentFile_def)
  qed
qed

lemma WriteContentFile_ok:
  assumes run: "run_state (WriteContentFile h path data) w = ((b, None), w')"
    and hash: "sha256_hex (current_bytes (w_fs w) path) = sha256_hex data \<Longrightarrow>
      content_at (w_fs w) path = Some data"
  shows "content_at (w_fs w') path = Some data" and "b \<longleftrightarrow> content_at (w_fs w) path \<noteq> Some data"
    and "\<not> b \<Longrightarrow> w_fs w' = w_fs w"
    and "\<forall>k. resolve (w_fs w) path \<noteq> Some k \<longrightarrow> map_of (w_fs w') k = map_of (w_fs w) k"
proof -
  obtain w1 where read: "w_fs w1 = w_fs w"
      "run_state (write_if_differs h path data (current_bytes (w_fs w) path)) w1 = ((b, None), w')"
    using run by (cases rule: WriteContentFile_cases) auto
  note W = write_if_differs_ok[OF read(2)]
  have same: "content_at (w_fs w) path = Some data" if "\<not> b"
    using W(1) that hash by (simp add: file_hash_def)
  have diff: "content_at (w_fs w) path \<noteq> Some data" if b
    using W(1) that by (auto simp: file_hash_def current_bytes_def)
  show "content_at (w_fs w') path = Some data" using same W(2,3) read(1) by (cases b) auto
  show "b \<longleftrightarrow> content_at (w_fs w) path \<noteq> Some data" using same diff by blast
  show "w_fs w' = w_fs w" if "\<not> b" using W(2) that read(1) by simp
  show "\<forall>k. resolve (w_fs w) path \<noteq> Some k \<longrightarrow> map_of (w_fs w') k = map_of (w_fs w) k"
    using W(4) read(1) by simp
qed

lemma Remove_ok:
  assumes "run_state (Remove h path) w = ((b, None), w')"
  shows "\<exists>m. stat_at (w_fs w') path = Inl (OsNotExist m)"
proof -
  obtain r w1 where r: "run_state (os_Stat h path) w = (r, w1)" by fastforce
  show ?thesis
  proof (cases "\<exists>m. r = Inl (OsNotExist m)")
    case True
    then obtain m where m: "r = Inl (OsNotExist m)" by blast
    then have "w' = w1" using assms r by (simp add: Remove_def)
    with os_Stat_not_exist[OF r[unfolded m]] os_Stat_fs[OF r] show ?thesis by auto
  next
    case False
    then have "run_state (os_Remove h path) w1 = (None, w')"
      using assms r by (auto simp: Remove_def split: sum.splits err.splits prod.splits)
    then have "w_fs w' = AList.delete (Clean path) (w_fs w1)" and ne: "path \<noteq> []"
      by (rule os_Remove_ok)+
    then have gone: "map_of (w_fs w') (Clean path) = None" by (simp add: AList.delete_conv')
    with resolve_plain[OF ne gone] show ?thesis by (simp add: stat_at_def)
  qed
qed

lemma mode_settable_perm: "m AND mode_settable AND mode_perm = m AND mode_perm"
proof -
  have "mode_settable AND mode_perm = mode_perm" by (simp add: mode_settable_def mode_perm_def)
  then show ?thesis by (simp add: and.assoc)
qed

lemma SetMode_ok:
  assumes "run_state (SetMode h path mode) w = ((b, None), w')"
  shows "\<exists>i d. stat_at (w_fs w') path = Inr i \<and> GetFileModeFromString mode = Inr d \<and>
    i_mode i AND mode_perm = d AND mode_perm"
proof -
  obtain i w1 d where i: "run_state (os_Stat h path) w = (Inr i, w1)" "GetFileModeFromString mode = Inr d"
    and rest: "d AND mode_perm = i_mode i AND mode_perm \<and> w' = w1 \<or>
      run_state (os_Chmod h path d) w1 = (None, w')"
    using assms by (auto simp: SetMode_def split: prod.splits sum.splits if_splits option.splits)
  from rest show ?thesis
  proof
    assume "d AND mode_perm = i_mode i AND mode_perm \<and> w' = w1"
    with i os_Stat_ok[OF i(1)] os_Stat_fs[OF i(1)] show ?thesis by auto
  next
    assume "run_state (os_Chmod h path d) w1 = (None, w')"
    then have "\<exists>i. stat_at (w_fs w1) path = Inr i \<and>
        stat_at (w_fs w') path = Inr (i\<lparr>i_mode := d AND mode_settable\<rparr>)"
      unfolding os_Chmod_def by (rule on_inode_ok) simp
    with i mode_settable_perm show ?thesis by (auto simp: and.assoc)
  qed
qed

lemma plain_hash_part: "set xs \<subseteq> set ''0123456789abcdef'' \<Longrightarrow> xs \<noteq> [] \<Longrightarrow> plain xs"
  by (auto simp: plain_def)

lemma blob_path_abs:
  assumes "list_all plain bs" and "bs \<noteq> []"
  shows "blob_path (abs_path bs) (sha256_hex data) =
    abs_path (bs @ [take 2 (sha256_hex data), take 2 (drop 2 (sha256_hex data)), drop 4 (sha256_hex data)])"
proof -
  let ?h = "sha256_hex data"
  have len: "length (take 2 ?h) = 2" "length (take 2 (drop 2 ?h)) = 2" "length (drop 4 ?h) = 60" by simp_all
  have "set (take 2 ?h) \<subseteq> set ?h" "set (take 2 (drop 2 ?h)) \<subseteq> set ?h" "set (drop 4 ?h) \<subseteq> set ?h"
    by (auto dest: in_set_takeD in_set_dropD)
  then have "set (take 2 ?h) \<subseteq> set ''0123456789abcdef''"
    "set (take 2 (drop 2 ?h)) \<subseteq> set ''0123456789abcdef''" "set (drop 4 ?h) \<subseteq> set ''0123456789abcdef''"
    using sha256_hex_digits[of data] by (meson subset_trans)+
  moreover have "take 2 ?h \<noteq> []" "take 2 (drop 2 ?h) \<noteq> []" "drop 4 ?h \<noteq> []"
    using len by (metis length_0_conv zero_neq_numeral)+
  ultimately have p: "plain (take 2 ?h)" "plain (take 2 (drop 2 ?h))" "plain (drop 4 ?h)"
    by (blast intro: plain_hash_part)+
  with assms show ?thesis
    by (simp add: blob_path_def bucket_dir_def filepath_Join_abs)
qed

end
