(* ===== verification/Systems.thy ===== *)
theory Systems
  imports Files
begin

text \<open>
  The operating-system handlers behind the interfaces of \<^verbatim>\<open>pkg/handler\<close>: package managers
  (\<^verbatim>\<open>pkg/packages\<close>), service managers (\<^verbatim>\<open>pkg/services\<close>), node handlers (\<^verbatim>\<open>pkg/nodes\<close>), the
  system information resolver (\<^verbatim>\<open>pkg/common/info\<close>) and the three systems that bundle them
  (\<^verbatim>\<open>pkg/os\<close>, \<^verbatim>\<open>pkg/system\<close>). An interface is a record of its methods.
\<close>

section \<open>The interfaces\<close>

datatype ServiceStatus = UnknownServiceStatus | Running | Stopped

record 'h package_handler =
  ph_Install :: "string \<Rightarrow> string \<Rightarrow> ('h world, err option) state"
  ph_Remove :: "string \<Rightarrow> ('h world, err option) state"
  ph_List :: "('h world, string smap res) state"
  ph_UpgradeAll :: "('h world, err option) state"

record 'h service_handler =
  sh_Enable :: "string \<Rightarrow> ('h world, err option) state"
  sh_Disable :: "string \<Rightarrow> ('h world, err option) state"
  sh_Start :: "string \<Rightarrow> ('h world, err option) state"
  sh_Stop :: "string \<Rightarrow> ('h world, err option) state"
  sh_Restart :: "string \<Rightarrow> ('h world, err option) state"
  sh_Status :: "string \<Rightarrow> ('h world, ServiceStatus \<times> err option) state"
  sh_SetArguments :: "string \<Rightarrow> string \<Rightarrow> ('h world, err option) state"

record sys_info =
  si_name :: string
  si_kernel :: string
  si_machine :: string
  si_osRelease :: string
  si_osName :: string
  si_osID :: string
  si_runtimeArch :: string
  si_runtimeOS :: string

record 'h node_handler =
  nh_Reboot :: "('h world, unit) state"
  nh_Upgrade :: "('h world, err option) state"
  nh_Hostname :: "('h world, string res) state"
  nh_Info :: "('h world, sys_info) state"

text \<open>\<open>sy_service u\<close> is the service handler for the services of user \<open>u\<close>; the empty user is the system.\<close>

record 'h system =
  sy_package :: "'h package_handler"
  sy_service :: "string \<Rightarrow> 'h service_handler"
  sy_file :: file_handler
  sy_node :: "'h node_handler"

section \<open>packages.PackageEnsure and services.ServiceStatus\<close>

datatype PackageEnsure = UnhandledPackageEnsure | Installed | AbsentP

definition PackageEnsureByName :: "PackageEnsure smap" where
  "PackageEnsureByName =
     [(''unhandled'', UnhandledPackageEnsure), (''installed'', Installed), (''absent'', AbsentP)]"

fun PackageEnsure_String :: "PackageEnsure \<Rightarrow> string" where
  "PackageEnsure_String UnhandledPackageEnsure = ''unhandled''"
| "PackageEnsure_String Installed = ''installed''"
| "PackageEnsure_String AbsentP = ''absent''"

definition PackageEnsureFromString :: "string \<Rightarrow> PackageEnsure" where
  "PackageEnsureFromString s =
     (case map_of PackageEnsureByName s of Some p \<Rightarrow> p | None \<Rightarrow> UnhandledPackageEnsure)"

definition StatusByName :: "ServiceStatus smap" where
  "StatusByName = [(''unknown'', UnknownServiceStatus), (''running'', Running), (''stopped'', Stopped)]"

fun ServiceStatus_String :: "ServiceStatus \<Rightarrow> string" where
  "ServiceStatus_String UnknownServiceStatus = ''unknown''"
| "ServiceStatus_String Running = ''running''"
| "ServiceStatus_String Stopped = ''stopped''"

definition ServiceStatusFromString :: "string \<Rightarrow> ServiceStatus" where
  "ServiceStatusFromString s =
     (case map_of StatusByName s of Some p \<Rightarrow> p | None \<Rightarrow> UnknownServiceStatus)"

lemma PackageEnsure_roundtrip: "PackageEnsureFromString (PackageEnsure_String p) = p"
  by (cases p) (simp_all add: PackageEnsureFromString_def PackageEnsureByName_def)

lemma ServiceStatus_roundtrip: "ServiceStatusFromString (ServiceStatus_String p) = p"
  by (cases p) (simp_all add: ServiceStatusFromString_def StatusByName_def)

section \<open>pacman\<close>

definition pacman :: string where
  "pacman = ''/usr/bin/pacman''"

definition pacman_Install :: "'h host \<Rightarrow> string \<Rightarrow> string \<Rightarrow> ('h world, err option) state" where
  "pacman_Install h name version =
     (let pkg = (if version \<noteq> [] then name @ ''='' @ version else name)
      in SimpleRunCommand h pacman [''-Sy'', ''--needed'', ''--noconfirm'', pkg])"

definition pacman_Remove :: "'h host \<Rightarrow> string \<Rightarrow> ('h world, err option) state" where
  "pacman_Remove h name = SimpleRunCommand h pacman [''-Rcs'', ''--noconfirm'', name]"

text \<open>Each line of \<^verbatim>\<open>pacman -Q\<close> is a name and a version; any other line is an error.\<close>

fun pacman_parse :: "string smap \<Rightarrow> string list \<Rightarrow> string smap res" where
  "pacman_parse m [] = Inr m"
| "pacman_parse m (l # ls) =
     (case Fields l of
        [n, v] \<Rightarrow> pacman_parse (AList.update n v m) ls
      | _ \<Rightarrow> Inl (Plain ''unknown output''))"

definition pacman_List :: "'h host \<Rightarrow> ('h world, string smap res) state" where
  "pacman_List h = do {
     (output, _, e) \<leftarrow> RunCommand h pacman [''-Q''];
     ret (case e of Some x \<Rightarrow> Inl x | None \<Rightarrow> pacman_parse [] (scan_lines output))
   }"

definition pacman_UpgradeAll :: "'h host \<Rightarrow> ('h world, err option) state" where
  "pacman_UpgradeAll h = SimpleRunCommand h pacman [''-Syu'', ''--noconfirm'']"

definition Pacman :: "'h host \<Rightarrow> 'h package_handler" where
  "Pacman h = \<lparr>ph_Install = pacman_Install h, ph_Remove = pacman_Remove h,
     ph_List = pacman_List h, ph_UpgradeAll = pacman_UpgradeAll h\<rparr>"

section \<open>apk\<close>

definition apk :: string where
  "apk = ''/sbin/apk''"

definition apk_Install :: "'h host \<Rightarrow> string \<Rightarrow> string \<Rightarrow> ('h world, err option) state" where
  "apk_Install h name version =
     (let pkg = (if version \<noteq> [] then name @ ''='' @ version else name)
      in SimpleRunCommand h apk [''add'', pkg])"

definition apk_Remove :: "'h host \<Rightarrow> string \<Rightarrow> ('h world, err option) state" where
  "apk_Remove h name = SimpleRunCommand h apk [''del'', name]"

text \<open>
  The regular expression of \<^verbatim>\<open>matchPackageOutput\<close> as a backtracking matcher: each part yields the
  ways to match a prefix, in the order in which the engine prefers them, and the first complete match
  counts.
\<close>

definition re_greedy :: "(char \<Rightarrow> bool) \<Rightarrow> string \<Rightarrow> (string \<times> string) list" where
  "re_greedy p s = map (\<lambda>n. (take n s, drop n s)) (rev [1..<Suc (length (takeWhile p s))])"

definition re_lazy :: "(char \<Rightarrow> bool) \<Rightarrow> string \<Rightarrow> (string \<times> string) list" where
  "re_lazy p s = map (\<lambda>n. (take n s, drop n s)) [1..<Suc (length (takeWhile p s))]"

definition re_lit :: "string \<Rightarrow> string \<Rightarrow> string list" where
  "re_lit l s = (if HasPrefix s l then [drop (length l) s] else [])"

definition is_word :: "char \<Rightarrow> bool" where
  "is_word c \<longleftrightarrow> is_digit c \<or> c = CHR ''_'' \<or> (CHR ''a'' \<le> c \<and> c \<le> CHR ''z'') \<or>
     (CHR ''A'' \<le> c \<and> c \<le> CHR ''Z'')"

definition is_re_space :: "char \<Rightarrow> bool" where
  "is_re_space c \<longleftrightarrow> c \<in> {CHR 9, CHR 10, CHR 12, CHR 13, CHR 32}"

definition apk_tail :: "string \<Rightarrow> bool" where
  "apk_tail s = (s \<in> set [r. a \<leftarrow> re_lit '' '' s, (_, b) \<leftarrow> re_greedy (\<lambda>c. \<not> is_re_space c) a,
       c \<leftarrow> re_lit '' {'' b, (_, d) \<leftarrow> re_greedy (\<lambda>c. \<not> is_re_space c) c, e \<leftarrow> re_lit ''} ('' d,
       (_, f) \<leftarrow> re_lazy (\<lambda>c. c \<noteq> CHR 10) e, g \<leftarrow> re_lit '') ['' f, (_, i) \<leftarrow> re_greedy is_word g,
       j \<leftarrow> re_lit '']'' i, r \<leftarrow> (if j = [] then [s] else [])])"

definition apk_match :: "string \<Rightarrow> (string \<times> string) option" where
  "apk_match l =
     (case [(n, v @ ''-r'' @ r). (n, a) \<leftarrow> re_greedy (\<lambda>c. c \<noteq> CHR 10) l, b \<leftarrow> re_lit ''-'' a,
         (v, c) \<leftarrow> re_greedy (\<lambda>c. c \<noteq> CHR ''-'') b, d \<leftarrow> re_lit ''-r'' c,
         (r, e) \<leftarrow> re_greedy (\<lambda>c. c \<noteq> CHR ''-'') d, _ \<leftarrow> (if apk_tail e then [()] else [])] of
        [] \<Rightarrow> None
      | m # _ \<Rightarrow> Some m)"

fun apk_parse :: "string smap \<Rightarrow> string list \<Rightarrow> string smap" where
  "apk_parse m [] = m"
| "apk_parse m (l # ls) =
     (case apk_match l of
        None \<Rightarrow> apk_parse m ls
      | Some (n, v) \<Rightarrow> apk_parse (AList.update n v m) ls)"

definition matchPackageOutput :: "string \<Rightarrow> string smap" where
  "matchPackageOutput output = apk_parse [] (Split (CHR 10) output)"

definition apk_List :: "'h host \<Rightarrow> ('h world, string smap res) state" where
  "apk_List h = do {
     (output, _, e) \<leftarrow> RunCommand h apk [''list'', ''-I''];
     ret (case e of Some x \<Rightarrow> Inl x | None \<Rightarrow> Inr (matchPackageOutput output))
   }"

definition apk_UpgradeAll :: "'h host \<Rightarrow> ('h world, err option) state" where
  "apk_UpgradeAll h = check_fail (SimpleRunCommand h apk [''update'']) id
     (SimpleRunCommand h apk [''upgrade''])"

definition Apk :: "'h host \<Rightarrow> 'h package_handler" where
  "Apk h = \<lparr>ph_Install = apk_Install h, ph_Remove = apk_Remove h,
     ph_List = apk_List h, ph_UpgradeAll = apk_UpgradeAll h\<rparr>"

section \<open>pkgng\<close>

definition pkg :: string where
  "pkg = ''/usr/sbin/pkg''"

fun pkgng_parse :: "string smap \<Rightarrow> string list \<Rightarrow> string smap" where
  "pkgng_parse m [] = m"
| "pkgng_parse m (l # ls) =
     (case Fields l of
        [n, v] \<Rightarrow> pkgng_parse (AList.update n v m) ls
      | _ \<Rightarrow> pkgng_parse m ls)"

definition pkgng_List :: "'h host \<Rightarrow> ('h world, string smap res) state" where
  "pkgng_List h = do {
     (output, _, e) \<leftarrow> RunCommand h pkg [''query'', ''-a'', ''%n %v''];
     ret (case e of Some x \<Rightarrow> Inl x | None \<Rightarrow> Inr (pkgng_parse [] (Split (CHR 10) output)))
   }"

definition pkgng_Install :: "'h host \<Rightarrow> string \<Rightarrow> string \<Rightarrow> ('h world, err option) state" where
  "pkgng_Install h name version = or_fail (pkgng_List h) (Wrap ''failed to list packages'') (\<lambda>pkgs.
     if (case map_of pkgs name of Some v \<Rightarrow> version = [] \<or> v = version | None \<Rightarrow> False) then ret None
     else let target = (if version \<noteq> [] then name @ ''-'' @ version else name)
          in SimpleRunCommand h pkg [''install'', ''-qy'', target])"

definition pkgng_Remove :: "'h host \<Rightarrow> string \<Rightarrow> ('h world, err option) state" where
  "pkgng_Remove h name = SimpleRunCommand h pkg [''remove'', ''-qy'', name]"

definition pkgng_UpgradeAll :: "'h host \<Rightarrow> ('h world, err option) state" where
  "pkgng_UpgradeAll h = SimpleRunCommand h pkg [''upgrade'', ''-y'']"

definition Pkgng :: "'h host \<Rightarrow> 'h package_handler" where
  "Pkgng h = \<lparr>ph_Install = pkgng_Install h, ph_Remove = pkgng_Remove h,
     ph_List = pkgng_List h, ph_UpgradeAll = pkgng_UpgradeAll h\<rparr>"

section \<open>systemd services\<close>

definition systemctl_path :: string where
  "systemctl_path = ''/usr/bin/systemctl''"

definition systemctl :: "'h host \<Rightarrow> string \<Rightarrow> string list \<Rightarrow> ('h world, string \<times> int \<times> err option) state" where
  "systemctl h user args =
     (if user \<noteq> [] then RunCommand h systemctl_path ([''--user'', ''-M'', user @ ''@''] @ args)
      else RunCommand h systemctl_path args)"

definition systemctlSimple :: "'h host \<Rightarrow> string \<Rightarrow> string list \<Rightarrow> ('h world, err option) state" where
  "systemctlSimple h user args = do { (_, _, e) \<leftarrow> systemctl h user args; ret e }"

definition systemd_Status :: "'h host \<Rightarrow> string \<Rightarrow> string \<Rightarrow> ('h world, ServiceStatus \<times> err option) state" where
  "systemd_Status h user name = do {
     (_, exit, e) \<leftarrow> systemctl h user [''is-active'', ''--quiet'', name];
     ret (if exit = 0 then (Running, None) else (Stopped, e))
   }"

text \<open>\<^verbatim>\<open>WithContext\<close> gives the handler the user of the context, when there is one.\<close>

definition Systemd :: "'h host \<Rightarrow> string \<Rightarrow> 'h service_handler" where
  "Systemd h user = \<lparr>
     sh_Enable = (\<lambda>name. systemctlSimple h user [''enable'', name]),
     sh_Disable = (\<lambda>name. systemctlSimple h user [''disable'', name]),
     sh_Start = (\<lambda>name. systemctlSimple h user [''start'', name]),
     sh_Stop = (\<lambda>name. systemctlSimple h user [''stop'', name]),
     sh_Restart = (\<lambda>name. systemctlSimple h user [''restart'', name]),
     sh_Status = systemd_Status h user,
     sh_SetArguments = (\<lambda>name args. ret None)\<rparr>"

section \<open>OpenRC services\<close>

text \<open>All matches of \<^verbatim>\<open>(\w+)\s+=\s+(\w+)\<close>, from left to right.\<close>

definition openrc_pair :: "string \<Rightarrow> ((string \<times> string) \<times> string) option" where
  "openrc_pair s =
     (let w = takeWhile is_word s; r = dropWhile is_word s;
          r1 = dropWhile is_re_space r
      in if w = [] \<or> r1 = r then None
         else (case r1 of
                 [] \<Rightarrow> None
               | c # r2 \<Rightarrow>
                   (let r3 = dropWhile is_re_space r2; v = takeWhile is_word r3
                    in if c \<noteq> CHR ''='' \<or> r3 = r2 \<or> v = [] then None
                       else Some ((w, v), dropWhile is_word r3))))"

lemma openrc_pair_shorter: "openrc_pair s = Some (p, r) \<Longrightarrow> length r < length s"
proof -
  assume a: "openrc_pair s = Some (p, r)"
  let ?r = "dropWhile is_word s" and ?r1 = "dropWhile is_re_space (dropWhile is_word s)"
  obtain c r2 where "?r1 = c # r2" "r = dropWhile is_word (dropWhile is_re_space r2)"
    using a by (auto simp: openrc_pair_def Let_def split: if_splits list.splits)
  then have "length r < length ?r1"
    using length_dropWhile_le[of is_word "dropWhile is_re_space r2"] length_dropWhile_le[of is_re_space r2]
    by simp
  also have "length ?r1 \<le> length s"
    using length_dropWhile_le[of is_re_space ?r] length_dropWhile_le[of is_word s] by simp
  finally show ?thesis .
qed

function openrc_pairs :: "string \<Rightarrow> (string \<times> string) list" where
  "openrc_pairs [] = []"
| "openrc_pairs (c # cs) =
     (case openrc_pair (c # cs) of
        Some (p, r) \<Rightarrow> p # openrc_pairs r
      | None \<Rightarrow> openrc_pairs (if is_word c then dropWhile is_word cs else cs))"
  by pat_completeness auto
termination
  by (relation "measure length")
    (auto dest: openrc_pair_shorter simp: le_imp_less_Suc length_dropWhile_le)

definition openrc_Status :: "'h host \<Rightarrow> string \<Rightarrow> ('h world, ServiceStatus \<times> err option) state" where
  "openrc_Status h name = do {
     (output, exit, e) \<leftarrow> RunCommand h ''/bin/rc-status'' [''sysinit'', ''-Cqf'', ''ini''];
     ret (if exit = 0 then (Running, None)
          else if (name, ''running'') \<in> set (openrc_pairs output) then (Running, None)
          else (Stopped, e))
   }"

definition OpenRC :: "'h host \<Rightarrow> 'h service_handler" where
  "OpenRC h = \<lparr>
     sh_Enable = (\<lambda>name. SimpleRunCommand h ''/sbin/rc-update'' [''add'', name]),
     sh_Disable = (\<lambda>name. SimpleRunCommand h ''/sbin/rc-update'' [''del'', name]),
     sh_Start = (\<lambda>name. SimpleRunCommand h ''/sbin/rc-service'' [name, ''start'']),
     sh_Stop = (\<lambda>name. SimpleRunCommand h ''/sbin/rc-service'' [name, ''stop'']),
     sh_Restart = (\<lambda>name. SimpleRunCommand h ''/sbin/rc-service'' [name, ''restart'']),
     sh_Status = openrc_Status h,
     sh_SetArguments = (\<lambda>name args. ret None)\<rparr>"

section \<open>FreeBSD services\<close>

definition rc_file :: "string \<Rightarrow> string" where
  "rc_file name = ''/etc/rc.conf.d/'' @ name"

definition freebsd_Status :: "'h host \<Rightarrow> string \<Rightarrow> ('h world, ServiceStatus \<times> err option) state" where
  "freebsd_Status h name = do {
     (_, exit, e) \<leftarrow> RunCommand h ''service'' [name, ''status''];
     ret (if exit = 0 then Running else Stopped, e)
   }"

definition FreeBSD_services :: "'h host \<Rightarrow> 'h service_handler" where
  "FreeBSD_services h = \<lparr>
     sh_Enable = (\<lambda>name. SimpleRunCommand h ''sysrc'' [''-f'', rc_file name, name @ ''_enable=YES'']),
     sh_Disable = (\<lambda>name. SimpleRunCommand h ''sysrc'' [''-f'', rc_file name, name @ ''_enable=NO'']),
     sh_Start = (\<lambda>name. SimpleRunCommand h ''service'' [name, ''start'']),
     sh_Stop = (\<lambda>name. SimpleRunCommand h ''service'' [name, ''stop'']),
     sh_Restart = (\<lambda>name. SimpleRunCommand h ''service'' [name, ''restart'']),
     sh_Status = freebsd_Status h,
     sh_SetArguments = (\<lambda>name args.
       SimpleRunCommand h ''sysrc'' [''-f'', rc_file name, name @ ''_args='' @ args])\<rparr>"

section \<open>System information\<close>

text \<open>
  \<open>ini content key\<close> stands for \<^verbatim>\<open>go-ini\<close>: the value of a key of the unnamed section of a file with
  that content. When the file cannot be loaded, \<^verbatim>\<open>log.Fatal\<close> ends the process; the model goes on with
  an empty map, and nothing is claimed about that run. The build constants \<^verbatim>\<open>runtime.GOARCH\<close> and
  \<^verbatim>\<open>runtime.GOOS\<close> are arguments.
\<close>

type_synonym ini = "string \<Rightarrow> string \<Rightarrow> string"

definition readOSRelease :: "'h host \<Rightarrow> ini \<Rightarrow> string \<Rightarrow> ('h world, string smap) state" where
  "readOSRelease h ini configfile = do {
     r \<leftarrow> os_ReadFile h configfile;
     ret (case r of Inl _ \<Rightarrow> [] | Inr content \<Rightarrow> [(''ID'', ini content ''ID'')])
   }"

definition getReleaseInfo :: "'h host \<Rightarrow> ini \<Rightarrow> ('h world, string \<times> string) state" where
  "getReleaseInfo h ini = do {
     m \<leftarrow> readOSRelease h ini ''/etc/os-release'';
     ret (case map_of m ''ID'' of Some v \<Rightarrow> ToLower v | None \<Rightarrow> [],
          case map_of m ''NAME'' of Some v \<Rightarrow> v | None \<Rightarrow> [])
   }"

definition resolver_Info :: "'h host \<Rightarrow> ini \<Rightarrow> string \<Rightarrow> string \<Rightarrow> ('h world, sys_info) state" where
  "resolver_Info h ini goarch goos = do {
     (ident, osname) \<leftarrow> getReleaseInfo h ini;
     (output, _, e) \<leftarrow> RunCommand h ''uname'' [''-snrm''];
     ret (let sys = \<lparr>si_name = [], si_kernel = [], si_machine = [], si_osRelease = [], si_osName = osname,
                si_osID = ident, si_runtimeArch = goarch, si_runtimeOS = goos\<rparr>
          in if e \<noteq> None then sys
             else (case Fields output of
                     [k, n, r, m] \<Rightarrow>
                       sys\<lparr>si_kernel := k, si_name := n, si_osRelease := r, si_machine := m\<rparr>
                   | _ \<Rightarrow> sys))
   }"

section \<open>Node handlers\<close>

definition systemd_Reboot :: "'h host \<Rightarrow> ('h world, unit) state" where
  "systemd_Reboot h = do { _ \<leftarrow> SimpleRunCommand h systemctl_path [''reboot'']; ret () }"

definition freebsd_Reboot :: "'h host \<Rightarrow> ('h world, unit) state" where
  "freebsd_Reboot h = do { _ \<leftarrow> SimpleRunCommand h ''/sbin/shutdown'' [''-r'', ''now'']; ret () }"

definition freebsdUpdate :: string where
  "freebsdUpdate = ''/usr/sbin/freebsd-update''"

definition freebsd_Upgrade :: "'h host \<Rightarrow> ('h world, err option) state" where
  "freebsd_Upgrade h = do {
     (_, _, e) \<leftarrow> RunCommand h freebsdUpdate [''--not-running-from-cron'', ''fetch''];
     (case e of
        Some x \<Rightarrow> ret (Some x)
      | None \<Rightarrow> do {
          _ \<leftarrow> RunCommand h freebsdUpdate [''--not-running-from-cron'', ''install''];
          ret None
        })
   }"

definition IsJailed :: "'h host \<Rightarrow> ('h world, bool) state" where
  "IsJailed h = do {
     (out, _, e) \<leftarrow> RunCommand h ''sysctl'' [''-n'', ''security.jail.jailed''];
     ret (e = None \<and> TrimSpace out = ''1'')
   }"

definition SystemdNode :: "'h host \<Rightarrow> ini \<Rightarrow> string \<Rightarrow> string \<Rightarrow> 'h node_handler" where
  "SystemdNode h ini goarch goos = \<lparr>nh_Reboot = systemd_Reboot h, nh_Upgrade = ret None,
     nh_Hostname = ext (h_hostname h), nh_Info = resolver_Info h ini goarch goos\<rparr>"

definition AlpineNode :: "'h host \<Rightarrow> ini \<Rightarrow> string \<Rightarrow> string \<Rightarrow> 'h node_handler" where
  "AlpineNode h ini goarch goos = \<lparr>nh_Reboot = ret (), nh_Upgrade = ret None,
     nh_Hostname = ext (h_hostname h), nh_Info = resolver_Info h ini goarch goos\<rparr>"

definition FreeBSDNode :: "'h host \<Rightarrow> ini \<Rightarrow> string \<Rightarrow> string \<Rightarrow> 'h node_handler" where
  "FreeBSDNode h ini goarch goos = \<lparr>nh_Reboot = freebsd_Reboot h, nh_Upgrade = freebsd_Upgrade h,
     nh_Hostname = ext (h_hostname h), nh_Info = resolver_Info h ini goarch goos\<rparr>"

section \<open>Systems\<close>

datatype OSID = UnhandledOsID | Arch | Alpine | FreeBSD

fun OSID_String :: "OSID \<Rightarrow> string" where
  "OSID_String Arch = ''arch''"
| "OSID_String Alpine = ''alpine''"
| "OSID_String FreeBSD = ''freebsd''"
| "OSID_String UnhandledOsID = ''unhandled''"

definition OSIDFromString :: "string \<Rightarrow> OSID" where
  "OSIDFromString s =
     (if s = ''arch'' \<or> s = ''archarm'' then Arch
      else if s = ''alpine'' then Alpine
      else if s = ''freebsd'' then FreeBSD
      else UnhandledOsID)"

lemma OSID_roundtrip: "OSIDFromString (OSID_String x) = x"
  by (cases x) (simp_all add: OSIDFromString_def)

definition ArchLinux :: "'h host \<Rightarrow> ini \<Rightarrow> string \<Rightarrow> string \<Rightarrow> 'h system" where
  "ArchLinux h ini goarch goos = \<lparr>sy_package = Pacman h, sy_service = Systemd h,
     sy_file = NewFileHandler ''root'' ''root'', sy_node = SystemdNode h ini goarch goos\<rparr>"

definition AlpineLinux :: "'h host \<Rightarrow> ini \<Rightarrow> string \<Rightarrow> string \<Rightarrow> 'h system" where
  "AlpineLinux h ini goarch goos = \<lparr>sy_package = Apk h, sy_service = (\<lambda>user. OpenRC h),
     sy_file = NewFileHandler ''root'' ''root'', sy_node = AlpineNode h ini goarch goos\<rparr>"

definition FreeBSD_system :: "'h host \<Rightarrow> ini \<Rightarrow> string \<Rightarrow> string \<Rightarrow> 'h system" where
  "FreeBSD_system h ini goarch goos = \<lparr>sy_package = Pkgng h, sy_service = (\<lambda>user. FreeBSD_services h),
     sy_file = NewFileHandler ''root'' ''wheel'', sy_node = FreeBSDNode h ini goarch goos\<rparr>"

definition NewSystem :: "'h host \<Rightarrow> ini \<Rightarrow> string \<Rightarrow> string \<Rightarrow> ('h world, ('h system \<times> OSID) res) state" where
  "NewSystem h ini goarch goos = do {
     info \<leftarrow> resolver_Info h ini goarch goos;
     ret (case OSIDFromString (si_osID info) of
            Arch \<Rightarrow> Inr (ArchLinux h ini goarch goos, Arch)
          | Alpine \<Rightarrow> Inr (AlpineLinux h ini goarch goos, Alpine)
          | FreeBSD \<Rightarrow> Inr (FreeBSD_system h ini goarch goos, FreeBSD)
          | UnhandledOsID \<Rightarrow> Inl (Plain ''not found for system''))
   }"

section \<open>What a system may do\<close>

text \<open>
  The contract the controllers rely on: whatever a method of a system does on the host, all it leaves on
  the trace is commands that were run. The three systems of the program keep it.
\<close>

locale system_service =
  fixes sys :: "'h system"
  assumes package_emits: "emits is_exec (ph_Install (sy_package sys) n v)"
      "emits is_exec (ph_Remove (sy_package sys) n)" "emits is_exec (ph_List (sy_package sys))"
      "emits is_exec (ph_UpgradeAll (sy_package sys))"
    and service_emits: "emits is_exec (sh_Enable (sy_service sys u) n)"
      "emits is_exec (sh_Disable (sy_service sys u) n)" "emits is_exec (sh_Start (sy_service sys u) n)"
      "emits is_exec (sh_Stop (sy_service sys u) n)" "emits is_exec (sh_Restart (sy_service sys u) n)"
      "emits is_exec (sh_Status (sy_service sys u) n)"
      "emits is_exec (sh_SetArguments (sy_service sys u) n a)"
    and node_emits: "emits is_exec (nh_Reboot (sy_node sys))" "emits is_exec (nh_Upgrade (sy_node sys))"
      "emits is_exec (nh_Hostname (sy_node sys))" "emits is_exec (nh_Info (sy_node sys))"
begin

lemmas system_emits = package_emits service_emits node_emits

text \<open>Hence an event that is no command is not due to a method of the system.\<close>

lemma system_emits_old:
  assumes "emits is_exec m" and "run_state m w = (r, w')" and "\<not> is_exec e"
  shows "e \<in> set (w_trace w') \<longleftrightarrow> e \<in> set (w_trace w)"
  using emits_old[OF assms(1,2) _ assms(3)] emits_keeps[OF assms(1,2)] by blast

end

lemmas handler_defs =
  Pacman_def pacman_Install_def pacman_Remove_def pacman_List_def pacman_UpgradeAll_def
  Apk_def apk_Install_def apk_Remove_def apk_List_def apk_UpgradeAll_def
  Pkgng_def pkgng_Install_def pkgng_Remove_def pkgng_List_def pkgng_UpgradeAll_def
  Systemd_def systemctlSimple_def systemctl_def systemd_Status_def
  OpenRC_def openrc_Status_def FreeBSD_services_def freebsd_Status_def
  SystemdNode_def systemd_Reboot_def AlpineNode_def FreeBSDNode_def freebsd_Reboot_def freebsd_Upgrade_def

lemma emits_resolver_Info [emits_rules]: "emits is_exec (resolver_Info h ini goarch goos)"
  unfolding resolver_Info_def getReleaseInfo_def readOSRelease_def
  by (intro emits_rules) simp_all

lemmas handler_selects = package_handler.select_convs service_handler.select_convs
  node_handler.select_convs system.select_convs

lemmas handler_unfold = handler_defs Let_def handler_selects ArchLinux_def AlpineLinux_def FreeBSD_system_def

interpretation arch: system_service "ArchLinux h ini goarch goos"
  by (unfold_locales; unfold handler_unfold; intro emits_rules) simp_all

interpretation alpine: system_service "AlpineLinux h ini goarch goos"
  by (unfold_locales; unfold handler_unfold; intro emits_rules) simp_all

interpretation freebsd: system_service "FreeBSD_system h ini goarch goos"
  by (unfold_locales; unfold handler_unfold; intro emits_rules) simp_all

section \<open>Parsing what the package managers print\<close>

text \<open>A package list as the tools print it, one \<open>name version\<close> per line.\<close>

definition pkg_line :: "string \<times> string \<Rightarrow> string" where
  "pkg_line nv = fst nv @ '' '' @ snd nv"

definition pkg_entry_ok :: "string \<times> string \<Rightarrow> bool" where
  "pkg_entry_ok nv \<longleftrightarrow> no_space (fst nv) \<and> no_space (snd nv)"

lemma Fields_pkg_line: "pkg_entry_ok nv \<Longrightarrow> Fields (pkg_line nv) = [fst nv, snd nv]"
  using Fields_Join[of "[fst nv, snd nv]"] by (simp add: pkg_line_def pkg_entry_ok_def)

lemma pacman_parse_lines:
  "\<forall>nv \<in> set ps. pkg_entry_ok nv \<Longrightarrow> distinct (map fst (m @ ps)) \<Longrightarrow>
   pacman_parse m (map pkg_line ps) = Inr (m @ ps)"
proof (induction ps arbitrary: m)
  case (Cons nv ps)
  obtain n v where nv: "nv = (n, v)" by fastforce
  have "AList.update n v m = m @ [(n, v)]"
    using Cons.prems(2) nv by (induction m) auto
  with Cons nv Fields_pkg_line[of nv] show ?case by simp
qed simp

lemma pkgng_parse_lines:
  "\<forall>nv \<in> set ps. pkg_entry_ok nv \<Longrightarrow> distinct (map fst (m @ ps)) \<Longrightarrow>
   pkgng_parse m (map pkg_line ps @ [[]]) = m @ ps"
proof (induction ps arbitrary: m)
  case Nil
  then show ?case by (simp add: Fields_def)
next
  case (Cons nv ps)
  obtain n v where nv: "nv = (n, v)" by fastforce
  have "AList.update n v m = m @ [(n, v)]"
    using Cons.prems(2) nv by (induction m) auto
  with Cons nv Fields_pkg_line[of nv] show ?case by simp
qed

end
