(* ===== verification/Common.thy ===== *)
theory Common
  imports Systems Locker
begin

text \<open>
  What the controllers share: the environment they run in, typed access to the API with every write
  on the trace, label matching (\<^verbatim>\<open>internal/controller/common/common.go\<close>,
  \<^verbatim>\<open>pkg/common/labels\<close>) and the lookup of the local node (\<^verbatim>\<open>pkg/util\<close>).
\<close>

section \<open>The environment of a controller\<close>

record 'h env =
  e_host :: "'h host"
  e_client :: "'h client"
  e_system :: "'h system"
  e_locker :: "'h locker"

section \<open>Typed API access\<close>

definition decode :: "(kobj \<Rightarrow> 'a option) \<Rightarrow> kobj res \<Rightarrow> 'a res" where
  "decode f r = (case r of
     Inl e \<Rightarrow> Inl e
   | Inr x \<Rightarrow> (case f x of Some y \<Rightarrow> Inr y | None \<Rightarrow> Inl (Plain ''unexpected object'')))"

definition decode_list :: "(kobj \<Rightarrow> 'a option) \<Rightarrow> kobj list res \<Rightarrow> 'a list res" where
  "decode_list f r = (case r of Inl e \<Rightarrow> Inl e | Inr xs \<Rightarrow> Inr (List.map_filter f xs))"

fun as_node :: "kobj \<Rightarrow> managednode option" where
  "as_node (OManagedNode x) = Some x"
| "as_node _ = None"

fun as_configset :: "kobj \<Rightarrow> configset option" where
  "as_configset (OConfigSet x) = Some x"
| "as_configset _ = None"

fun as_secret :: "kobj \<Rightarrow> secret option" where
  "as_secret (OSecret x) = Some x"
| "as_secret _ = None"

fun as_configmap :: "kobj \<Rightarrow> configmap option" where
  "as_configmap (OConfigMap x) = Some x"
| "as_configmap _ = None"

fun as_unstructured :: "kobj \<Rightarrow> unstructured option" where
  "as_unstructured (OUnstructured x) = Some x"
| "as_unstructured _ = None"

fun as_pod :: "kobj \<Rightarrow> pod option" where
  "as_pod (OPod x) = Some x"
| "as_pod _ = None"

fun as_k8s_node :: "kobj \<Rightarrow> k8s_node option" where
  "as_k8s_node (ONode x) = Some x"
| "as_k8s_node _ = None"

fun as_jail :: "kobj \<Rightarrow> jail option" where
  "as_jail (OJail x) = Some x"
| "as_jail _ = None"

fun as_jail_template :: "kobj \<Rightarrow> jail_template option" where
  "as_jail_template (OJailTemplate x) = Some x"
| "as_jail_template _ = None"

definition api_get :: "'h env \<Rightarrow> (kobj \<Rightarrow> 'a option) \<Rightarrow> kind \<Rightarrow> nsname \<Rightarrow> ('h world, 'a res) state" where
  "api_get env f k nn = do { r \<leftarrow> ext (cl_get (e_client env) k nn); ret (decode f r) }"

definition api_list :: "'h env \<Rightarrow> (kobj \<Rightarrow> 'a option) \<Rightarrow> kind \<Rightarrow> string option \<Rightarrow>
    ('h world, 'a list res) state" where
  "api_list env f k ns = do { r \<leftarrow> ext (cl_list (e_client env) k ns); ret (decode_list f r) }"

definition api_write :: "verb \<Rightarrow> (kobj \<Rightarrow> ('h, kobj res) state) \<Rightarrow> kobj \<Rightarrow> ('h world, kobj res) state" where
  "api_write v m x = do {
     r \<leftarrow> ext (m x);
     log_event (EvApi v x (case r of Inl _ \<Rightarrow> False | Inr _ \<Rightarrow> True));
     ret r
   }"

definition err_of :: "'a res \<Rightarrow> err option" where
  "err_of r = (case r of Inl e \<Rightarrow> Some e | Inr _ \<Rightarrow> None)"

definition api_create :: "'h env \<Rightarrow> kobj \<Rightarrow> ('h world, kobj res) state" where
  "api_create env x = api_write VCreate (cl_create (e_client env)) x"

definition api_update :: "'h env \<Rightarrow> kobj \<Rightarrow> ('h world, err option) state" where
  "api_update env x = do { r \<leftarrow> api_write VUpdate (cl_update (e_client env)) x; ret (err_of r) }"

definition api_updateStatus :: "'h env \<Rightarrow> kobj \<Rightarrow> ('h world, err option) state" where
  "api_updateStatus env x = do { r \<leftarrow> api_write VUpdateStatus (cl_updateStatus (e_client env)) x; ret (err_of r) }"

definition nsn :: "string \<Rightarrow> string \<Rightarrow> nsname" where
  "nsn namespace name = \<lparr>ns_namespace = namespace, ns_name = name\<rparr>"

lemma err_of_simps [simp]: "err_of (Inl e) = Some e" "err_of (Inr x) = None"
  by (auto simp: err_of_def)

lemma decode_Inr: "decode f r = Inr y \<longleftrightarrow> (\<exists>x. r = Inr x \<and> f x = Some y)"
  by (auto simp: decode_def split: sum.splits option.splits)

lemma emits_api_read [emits_rules]: "emits P (api_get env f k nn)" "emits P (api_list env g k ns)"
  unfolding api_get_def api_list_def by (intro emits_rules)+

lemma emits_api_write [emits_rules]: "(\<And>b. P (EvApi v x b)) \<Longrightarrow> emits P (api_write v m x)"
  unfolding api_write_def by (intro emits_rules)

lemma emits_api_create [emits_rules]: "(\<And>b. P (EvApi VCreate x b)) \<Longrightarrow> emits P (api_create env x)"
  unfolding api_create_def by (intro emits_rules)

lemma emits_api_update [emits_rules]: "(\<And>b. P (EvApi VUpdate x b)) \<Longrightarrow> emits P (api_update env x)"
  unfolding api_update_def by (intro emits_rules)

lemma emits_api_updateStatus [emits_rules]:
  "(\<And>b. P (EvApi VUpdateStatus x b)) \<Longrightarrow> emits P (api_updateStatus env x)"
  unfolding api_updateStatus_def by (intro emits_rules)

text \<open>API access leaves the filesystem alone.\<close>

lemma api_get_fs: "run_state (api_get env f k nn) w = (r, w') \<Longrightarrow> w_fs w' = w_fs w \<and> w_trace w' = w_trace w"
  by (auto simp: api_get_def split: prod.splits)

lemma api_list_fs: "run_state (api_list env f k ns) w = (r, w') \<Longrightarrow> w_fs w' = w_fs w \<and> w_trace w' = w_trace w"
  by (auto simp: api_list_def split: prod.splits)

lemma api_updateStatus_trace:
  "run_state (api_updateStatus env x) w = (e, w') \<Longrightarrow>
   w_trace w' = w_trace w @ [EvApi VUpdateStatus x (e = None)] \<and> w_fs w' = w_fs w"
  by (auto simp: api_updateStatus_def api_write_def err_of_def split: prod.splits sum.splits)

lemma leaves_api [leaves_rules]:
  "leaves w_fs (api_get env f k nn)" "leaves w_fs (api_list env g k ns)" "leaves w_fs (api_write v m x)"
  "leaves w_fs (api_create env x)" "leaves w_fs (api_update env x)" "leaves w_fs (api_updateStatus env x)"
  unfolding api_get_def api_list_def api_create_def api_update_def api_updateStatus_def api_write_def
  by (intro leaves_rules)+

section \<open>Labels\<close>

text \<open>A Go map holds each key once; its comparison does not depend on the order of the entries.\<close>

definition matchAllLabels :: "string smap \<Rightarrow> string smap \<Rightarrow> bool" where
  "matchAllLabels labels matchers =
     (if matchers = [] then False
      else list_all (\<lambda>(k, v). (case map_of labels k of Some val \<Rightarrow> val = v | None \<Rightarrow> False)) matchers)"

lemma matchAllLabels_iff:
  assumes "distinct (map fst matchers)"
  shows "matchAllLabels labels matchers \<longleftrightarrow> matchers \<noteq> [] \<and> map_of matchers \<subseteq>\<^sub>m map_of labels"
proof -
  have "map_of matchers \<subseteq>\<^sub>m map_of labels \<longleftrightarrow> (\<forall>(k, v) \<in> set matchers. map_of labels k = Some v)"
    using map_of_eq_Some_iff[OF assms] by (force simp: map_le_def dom_def)
  then show ?thesis
    by (auto simp: matchAllLabels_def list_all_iff split: option.splits)
qed

definition ErrLabelsNotMatched :: err where
  "ErrLabelsNotMatched = Plain ''labels not matched''"

definition show_labels :: "string smap \<Rightarrow> string" where
  "show_labels m = ''map['' @ Join (map (\<lambda>(k, v). k @ '':'' @ v) m) '' '' @ '']''"

definition nodeLabelMatch :: "managednode \<Rightarrow> string smap \<Rightarrow> err option" where
  "nodeLabelMatch node matchers =
     (if matchAllLabels (om_labels (mn_meta node)) matchers then None
      else Some (Wrap ('': '' @ show_labels (om_labels (mn_meta node)) @ '' to matchers: '' @
        show_labels matchers) ErrLabelsNotMatched))"

lemma nodeLabelMatch_None [simp]:
  "nodeLabelMatch node m = None \<longleftrightarrow> matchAllLabels (om_labels (mn_meta node)) m"
  by (simp add: nodeLabelMatch_def)

datatype logic = Or | And | AnyKey | NoneMatch

text \<open>
  The nested loops of \<open>LabelGate\<close> over the entries of \<open>dest\<close> and of \<open>labels\<close>: an early return is
  \<open>Inr\<close>, and \<open>Inl\<close> carries the number of matches so far.
\<close>

fun gate_inner :: "logic \<Rightarrow> string \<times> string \<Rightarrow> string smap \<Rightarrow> nat \<Rightarrow> nat + bool" where
  "gate_inner lg kv [] n = Inl n"
| "gate_inner lg kv ((k, v) # ls) n =
     (if k = fst kv then
        (if lg = AnyKey then Inr True
         else if v = snd kv then
           (if lg = NoneMatch then Inr False
            else if lg = Or then Inr True
            else gate_inner lg kv ls (Suc n))
         else gate_inner lg kv ls n)
      else gate_inner lg kv ls n)"

fun gate_outer :: "logic \<Rightarrow> string smap \<Rightarrow> string smap \<Rightarrow> nat \<Rightarrow> nat + bool" where
  "gate_outer lg labels [] n = Inl n"
| "gate_outer lg labels (kv # ds) n =
     (case gate_inner lg kv labels n of Inr b \<Rightarrow> Inr b | Inl m \<Rightarrow> gate_outer lg labels ds m)"

definition LabelGate :: "logic \<Rightarrow> string smap \<Rightarrow> string smap \<Rightarrow> bool" where
  "LabelGate lg labels dest =
     (case gate_outer lg labels dest 0 of
        Inr b \<Rightarrow> b
      | Inl matches \<Rightarrow>
          (case lg of
             And \<Rightarrow> matches = length labels
           | NoneMatch \<Rightarrow> matches = 0
           | _ \<Rightarrow> False))"

lemma gate_inner_none:
  "gate_inner NoneMatch kv ls n = (if kv \<in> set ls then Inr False else Inl n)"
  by (induction ls) (auto simp: prod_eq_iff)

lemma gate_outer_none:
  "gate_outer NoneMatch labels ds n = (if set ds \<inter> set labels = {} then Inl n else Inr False)"
  by (induction ds) (auto simp: gate_inner_none)

lemma gate_inner_or: "gate_inner Or kv ls n = (if kv \<in> set ls then Inr True else Inl n)"
  by (induction ls) (auto simp: prod_eq_iff)

lemma gate_outer_or:
  "gate_outer Or labels ds n = (if set ds \<inter> set labels = {} then Inl n else Inr True)"
  by (induction ds) (auto simp: gate_inner_or)

lemma gate_inner_any:
  "gate_inner AnyKey kv ls n = (if fst kv \<in> fst ` set ls then Inr True else Inl n)"
  by (induction ls) force+

lemma gate_outer_any:
  "gate_outer AnyKey labels ds n = (if fst ` set ds \<inter> fst ` set labels = {} then Inl n else Inr True)"
  by (induction ds) (auto simp: gate_inner_any)

lemma gate_inner_and:
  "gate_inner And kv ls n = Inl (n + length (filter (\<lambda>x. x = kv) ls))"
proof (induction ls arbitrary: n)
  case (Cons x ls)
  then show ?case by (cases x, cases kv) simp
qed simp

lemma gate_outer_and:
  "gate_outer And labels ds n = Inl (n + (\<Sum>kv \<leftarrow> ds. length (filter (\<lambda>x. x = kv) labels)))"
  by (induction ds arbitrary: n) (auto simp: gate_inner_and)

section \<open>The local node\<close>

definition createInitialNode :: "'h env \<Rightarrow> managednode \<Rightarrow> ('h world, managednode res) state" where
  "createInitialNode env node =
     or_return (do { r \<leftarrow> api_create env (OManagedNode node); ret (decode as_node r) })
       (Wrap ''failed to craete initial node'') (\<lambda>n. ret (Inr n))"

definition createOrGetNode :: "'h env \<Rightarrow> nsname \<Rightarrow> ('h world, managednode res) state" where
  "createOrGetNode env req = or_return (ext (h_hostname (e_host env))) id (\<lambda>hostname. do {
     r \<leftarrow> api_get env as_node KManagedNode (nsn (ns_namespace req) hostname);
     (case r of
        Inr node \<Rightarrow> ret (Inr node)
      | Inl _ \<Rightarrow> createInitialNode env (empty_node\<lparr>mn_meta :=
          empty_meta\<lparr>om_name := hostname, om_namespace := ns_namespace req\<rparr>\<rparr>))
   })"

text \<open>\<^verbatim>\<open>util.GetNode\<close>: nil, nil for a request that is not about this host or a node that is gone.\<close>

definition GetNode :: "'h env \<Rightarrow> nsname \<Rightarrow> ('h world, managednode option res) state" where
  "GetNode env req = do {
     r \<leftarrow> nh_Hostname (sy_node (e_system env));
     (case r of
        Inl e \<Rightarrow> ret (case ignore_not_found e of Some x \<Rightarrow> Inl x | None \<Rightarrow> Inr None)
      | Inr hostname \<Rightarrow>
          if hostname \<noteq> ns_name req then ret (Inr None)
          else do {
            n \<leftarrow> api_get env as_node KManagedNode req;
            ret (case n of
                   Inl e \<Rightarrow> (case ignore_not_found e of Some x \<Rightarrow> Inl x | None \<Rightarrow> Inr None)
                 | Inr node \<Rightarrow> Inr (Some node))
          })
   }"

definition LabelOS :: string where "LabelOS = ''kubernetes.io/os''"

definition LabelArch :: string where "LabelArch = ''kubernetes.io/arch''"

definition LabelHostname :: string where "LabelHostname = ''kubernetes.io/hostname''"

definition DefaultLabels :: "'h env \<Rightarrow> ('h world, string smap) state" where
  "DefaultLabels env = do {
     info \<leftarrow> nh_Info (sy_node (e_system env));
     ret [(LabelOS, si_osID info), (LabelArch, si_machine info), (LabelHostname, si_name info)]
   }"

text \<open>Only a write of the node object itself is left by the lookup of the node.\<close>

definition is_node_create :: "event \<Rightarrow> bool" where
  "is_node_create e = (case e of EvApi VCreate (OManagedNode _) _ \<Rightarrow> True | _ \<Rightarrow> False)"

lemma emits_createOrGetNode [emits_rules]:
  "(\<And>n b. P (EvApi VCreate (OManagedNode n) b)) \<Longrightarrow> emits P (createOrGetNode env req)"
  unfolding createOrGetNode_def createInitialNode_def by (intro emits_rules)

lemma leaves_createOrGetNode [leaves_rules]: "leaves w_fs (createOrGetNode env req)"
  unfolding createOrGetNode_def createInitialNode_def by (intro leaves_rules)

end
