(* ===== verification/Poudriere.thy ===== *)
theory Poudriere
  imports GoTime Common
begin

text \<open>
  The Poudriere reconciler, \<^verbatim>\<open>internal/controller/freebsd/poudriere_controller.go\<close>, and the wrapper of the
  \<^verbatim>\<open>poudriere\<close> command it drives, \<^verbatim>\<open>pkg/poudriere\<close>: ports trees, build jails and bulk builds.
\<close>

section \<open>The poudriere command\<close>

definition poudriere :: string where
  "poudriere = ''/usr/local/bin/poudriere''"

definition portshaker :: string where
  "portshaker = ''/usr/local/bin/portshaker''"

subsection \<open>Ports trees\<close>

record ports_tree =
  pt_name :: string
  pt_fetchMethod :: string
  pt_branch :: string
  pt_creationDate :: string
  pt_creationTime :: string
  pt_mountpoint :: string

definition ports_Create :: "'h host \<Rightarrow> ports_tree \<Rightarrow> ('h world, err option) state" where
  "ports_Create h t = SimpleRunCommand h poudriere [''ports'', ''-c'', ''-p'', pt_name t, ''-m'', pt_fetchMethod t]"

definition ports_Delete :: "'h host \<Rightarrow> ports_tree \<Rightarrow> ('h world, err option) state" where
  "ports_Delete h t = SimpleRunCommand h poudriere [''ports'', ''-d'', ''-p'', pt_name t]"

definition ports_Update :: "'h host \<Rightarrow> ports_tree \<Rightarrow> ('h world, err option) state" where
  "ports_Update h t = ret None"

text \<open>A line that does not fit the scanner's buffer is an error after the lines before it.\<close>

definition scanner_err :: "string \<Rightarrow> err option" where
  "scanner_err s =
     (if list_all (\<lambda>l. length l < 65536) (Split (CHR 10) s) then None
      else Some (Plain ''bufio.Scanner: token too long''))"

definition ports_line :: "string \<Rightarrow> ports_tree option" where
  "ports_line l = (case Fields l of
     [name, method, d, t, mp] \<Rightarrow>
       Some \<lparr>pt_name = name, pt_fetchMethod = method, pt_branch = [], pt_creationDate = d, pt_creationTime = t,
         pt_mountpoint = mp\<rparr>
   | _ \<Rightarrow> None)"

definition readPoudrierePortsStatus :: "string \<Rightarrow> ports_tree list res" where
  "readPoudrierePortsStatus out = (case scanner_err out of
     Some e \<Rightarrow> Inl e
   | None \<Rightarrow> Inr (List.map_filter ports_line (scan_lines out)))"

definition ports_List :: "'h host \<Rightarrow> ('h world, ports_tree list res) state" where
  "ports_List h = do {
     (out, _, e) \<leftarrow> RunCommand h poudriere [''ports'', ''-l''];
     ret (case e of Some x \<Rightarrow> Inl x | None \<Rightarrow> readPoudrierePortsStatus out)
   }"

subsection \<open>Build jails\<close>

record build_jail =
  bj_name :: string
  bj_version :: string
  bj_arch :: string
  bj_fetchMethod :: string
  bj_creation :: instant
  bj_path :: string

definition bjail_Create :: "'h host \<Rightarrow> build_jail \<Rightarrow> ('h world, err option) state" where
  "bjail_Create h j = SimpleRunCommand h poudriere [''jail'', ''-c'', ''-j'', bj_name j, ''-v'', bj_version j, ''-m'', ''http'']"

definition bjail_Delete :: "'h host \<Rightarrow> build_jail \<Rightarrow> ('h world, err option) state" where
  "bjail_Delete h j = SimpleRunCommand h poudriere [''jail'', ''-d'', ''-j'', bj_name j]"

definition bjail_Update :: "'h host \<Rightarrow> build_jail \<Rightarrow> ('h world, err option) state" where
  "bjail_Update h j = SimpleRunCommand h poudriere [''jail'', ''-u'', ''-j'', bj_name j]"

fun jail_lines :: "string list \<Rightarrow> build_jail list res" where
  "jail_lines [] = Inr []"
| "jail_lines (l # ls) = (case Fields l of
     [name, version, arch, method, d, t, path] \<Rightarrow>
       (case Parse_DateTime (d @ '' '' @ t) of
          Inl e \<Rightarrow> Inl e
        | Inr created \<Rightarrow> (case jail_lines ls of
            Inl e \<Rightarrow> Inl e
          | Inr js \<Rightarrow> Inr (\<lparr>bj_name = name, bj_version = version, bj_arch = arch, bj_fetchMethod = method,
              bj_creation = created, bj_path = path\<rparr> # js)))
   | _ \<Rightarrow> jail_lines ls)"

definition readPoudriereJailList :: "string \<Rightarrow> build_jail list res" where
  "readPoudriereJailList out = (case jail_lines (scan_lines out) of
     Inl e \<Rightarrow> Inl e
   | Inr js \<Rightarrow> (case scanner_err out of Some e \<Rightarrow> Inl e | None \<Rightarrow> Inr js))"

definition bjail_List :: "'h host \<Rightarrow> ('h world, build_jail list res) state" where
  "bjail_List h = do {
     (out, _, e) \<leftarrow> RunCommand h poudriere [''jail'', ''-l''];
     ret (case e of Some x \<Rightarrow> Inl x | None \<Rightarrow> readPoudriereJailList out)
   }"

subsection \<open>Bulk builds\<close>

definition bulk_Build :: "'h host \<Rightarrow> string \<Rightarrow> string \<Rightarrow> string list \<Rightarrow> ('h world, err option) state" where
  "bulk_Build h jail tree ports =
     SimpleRunCommand h poudriere [''bulk'', ''-p'', tree, ''-j'', jail, ''-j'', ''2'', Join ports []]"

definition bulk_Sync :: "'h host \<Rightarrow> ('h world, err option) state" where
  "bulk_Sync h = SimpleRunCommand h portshaker [''-v'']"

section \<open>The reconciler\<close>

fun as_poudriere_bulk :: "kobj \<Rightarrow> poudriere_bulk option" where
  "as_poudriere_bulk (OPoudriereBulk x) = Some x"
| "as_poudriere_bulk _ = None"

fun as_poudriere_jail :: "kobj \<Rightarrow> poudriere_jail option" where
  "as_poudriere_jail (OPoudriereJail x) = Some x"
| "as_poudriere_jail _ = None"

fun as_poudriere_ports :: "kobj \<Rightarrow> poudriere_ports option" where
  "as_poudriere_ports (OPoudrierePorts x) = Some x"
| "as_poudriere_ports _ = None"

definition PoudriereBuild :: string where
  "PoudriereBuild = ''freebsd.nodemanager/poudriere''"

text \<open>\<^verbatim>\<open>exists\<close>: the first entry of the given name.\<close>

definition named :: "('a \<Rightarrow> string) \<Rightarrow> string \<Rightarrow> 'a list \<Rightarrow> 'a option" where
  "named name n l = find (\<lambda>x. name x = n) l"

text \<open>The loops stop at the first error.\<close>

fun each :: "('a \<Rightarrow> ('s, err option) state) \<Rightarrow> 'a list \<Rightarrow> ('s, err option) state" where
  "each f [] = ret None"
| "each f (x # xs) = check_fail (f x) id (each f xs)"

definition ensure_tree :: "'h host \<Rightarrow> ports_tree list \<Rightarrow> poudriere_ports \<Rightarrow> ('h world, err option) state" where
  "ensure_tree h existing t =
     (let name = om_name (pp_meta t) in
      check_fail (case named pt_name name existing of
        Some v \<Rightarrow> ports_Update h v
      | None \<Rightarrow> ports_Create h \<lparr>pt_name = name, pt_fetchMethod = pp_fetchMethod t, pt_branch = pp_branch t,
          pt_creationDate = [], pt_creationTime = [], pt_mountpoint = []\<rparr>) id
        (each (ports_Update h) (filter (\<lambda>e. pt_name e = name) existing)))"

definition ensureAllTrees :: "'h env \<Rightarrow> ('h world, err option) state" where
  "ensureAllTrees env =
     or_fail (api_list env as_poudriere_ports KPoudrierePorts None) id (\<lambda>trees.
       or_fail (ports_List (e_host env)) id (\<lambda>existing. each (ensure_tree (e_host env) existing) trees))"

definition ensure_build_jail :: "'h host \<Rightarrow> build_jail list \<Rightarrow> poudriere_jail \<Rightarrow> ('h world, err option) state" where
  "ensure_build_jail h existing t =
     (let name = om_name (pj_meta t) in
      check_fail (case named bj_name name existing of
        Some v \<Rightarrow> bjail_Update h v
      | None \<Rightarrow> bjail_Create h \<lparr>bj_name = name, bj_version = pj_version t, bj_arch = [], bj_fetchMethod = ''http'',
          bj_creation = zero_time, bj_path = []\<rparr>) id
        (each (bjail_Update h) (filter (\<lambda>e. bj_name e = name) existing)))"

definition ensureAllJails :: "'h env \<Rightarrow> ('h world, err option) state" where
  "ensureAllJails env =
     or_fail (api_list env as_poudriere_jail KPoudriereJail None) id (\<lambda>jails.
       or_fail (bjail_List (e_host env)) id (\<lambda>existing. each (ensure_build_jail (e_host env) existing) jails))"

fun build_each :: "'h host \<Rightarrow> poudriere_bulk list \<Rightarrow> ('h world, unit) state" where
  "build_each h [] = ret ()"
| "build_each h (b # bs) = do { _ \<leftarrow> bulk_Build h (pb_jail b) (pb_tree b) (pb_ports b); build_each h bs }"

definition buildAll :: "'h env \<Rightarrow> ('h world, err option) state" where
  "buildAll env =
     or_fail (api_list env as_poudriere_bulk KPoudriereBulk None) id (\<lambda>bulks.
       check_fail (bulk_Sync (e_host env)) id (do { build_each (e_host env) bulks; ret None }))"

definition build_everything :: "'h env \<Rightarrow> ('h world, err option) state" where
  "build_everything env =
     check_fail (ensureAllTrees env) id (check_fail (ensureAllJails env) id (buildAll env))"

definition Poudriere_Reconcile :: "'h env \<Rightarrow> nsname \<Rightarrow> ('h world, err option) state" where
  "Poudriere_Reconcile env req =
     or_fail (nh_Hostname (sy_node (e_system env))) id (\<lambda>hostname. do {
       r \<leftarrow> api_get env as_node KManagedNode (nsn (ns_namespace req) hostname);
       (case r of
          Inl e \<Rightarrow> ret (ignore_not_found e)
        | Inr node \<Rightarrow>
            if LabelGate NoneMatch (om_labels (mn_meta node)) [(PoudriereBuild, ''disabled'')] then ret None
            else if \<not> LabelGate AnyKey (om_labels (mn_meta node)) [(PoudriereBuild, [])] then ret None
            else build_everything env)
     })"

definition bulksOnChange :: "'h env \<Rightarrow> string \<Rightarrow> ('h world, nsname list) state" where
  "bulksOnChange env namespace = do {
     r \<leftarrow> api_list env as_poudriere_bulk KPoudriereBulk (Some namespace);
     ret (case r of
            Inl _ \<Rightarrow> []
          | Inr bs \<Rightarrow> map (\<lambda>b. nsn (om_namespace (pb_meta b)) (om_name (pb_meta b))) bs)
   }"

end
