(* ===== verification/Trace.thy ===== *)
theory Trace
  imports OsFile
begin

text \<open>
  A calculus for the calls a program makes. Commands are how the handlers work; what the controllers
  decide is which handler calls and API writes happen, in which order and with which outcome. These
  visible events of a run, together with its result, are what \<open>makes\<close> speaks about.
\<close>

definition visible :: "event list \<Rightarrow> event list" where
  "visible es = filter (\<lambda>e. \<not> is_exec e) es"

lemma visible_simps [simp]: "visible [] = []" "visible (xs @ ys) = visible xs @ visible ys"
  "visible (e # es) = (if is_exec e then visible es else e # visible es)"
  by (auto simp: visible_def)

lemma visible_execs: "list_all is_exec es \<Longrightarrow> visible es = []"
  by (induction es) auto

definition makes :: "('a \<Rightarrow> event list \<Rightarrow> bool) \<Rightarrow> ('h world, 'a) state \<Rightarrow> bool" where
  "makes Q m \<longleftrightarrow> (\<forall>w. case run_state m w of (r, w') \<Rightarrow>
     \<exists>es. w_trace w' = w_trace w @ es \<and> Q r (visible es))"

lemma makesD:
  "makes Q m \<Longrightarrow> run_state m w = (r, w') \<Longrightarrow> \<exists>es. w_trace w' = w_trace w @ es \<and> Q r (visible es)"
  unfolding makes_def by (erule allE[of _ w]) simp

lemma makesI:
  assumes "\<And>w r w'. run_state m w = (r, w') \<Longrightarrow> \<exists>es. w_trace w' = w_trace w @ es \<and> Q r (visible es)"
  shows "makes Q m"
  using assms by (auto simp: makes_def split: prod.split)

lemma makes_mono: "makes R m \<Longrightarrow> (\<And>r es. R r es \<Longrightarrow> Q r es) \<Longrightarrow> makes Q m"
  by (fastforce simp: makes_def split: prod.splits)

lemma makes_conj: "makes Q m \<Longrightarrow> makes R m \<Longrightarrow> makes (\<lambda>r es. Q r es \<and> R r es) m"
  by (fastforce simp: makes_def split: prod.splits)

lemma makes_ret: "Q x [] \<Longrightarrow> makes Q (ret x)"
  by (simp add: makes_def)

lemma makes_bind:
  assumes "makes R m" and "\<And>x es. R x es \<Longrightarrow> makes (\<lambda>r fs. Q r (es @ fs)) (f x)"
  shows "makes Q (State_Monad.bind m f)"
proof (rule makesI)
  fix w r w' assume run: "run_state (State_Monad.bind m f) w = (r, w')"
  obtain x w1 where m: "run_state m w = (x, w1)" by fastforce
  obtain es where es: "w_trace w1 = w_trace w @ es" "R x (visible es)" using makesD[OF assms(1) m] by blast
  from run m have "run_state (f x) w1 = (r, w')" by simp
  then obtain fs where "w_trace w' = w_trace w1 @ fs" "Q r (visible es @ visible fs)"
    using makesD[OF assms(2)[OF es(2)]] by blast
  with es show "\<exists>es. w_trace w' = w_trace w @ es \<and> Q r (visible es)"
    by (intro exI[of _ "es @ fs"]) simp
qed

lemma makes_execs: "emits is_exec m \<Longrightarrow> makes (\<lambda>r es. es = []) m"
  by (rule makesI) (auto dest!: emitsD simp: visible_execs)

text \<open>Steps that leave nothing visible can be passed over.\<close>

lemma makes_bind_quiet:
  assumes "emits is_exec m" and "\<And>x. makes Q (f x)"
  shows "makes Q (State_Monad.bind m f)"
  by (rule makes_bind[OF makes_execs[OF assms(1)]]) (simp add: assms(2))

lemma makes_called:
  assumes "emits is_exec m"
  shows "makes (\<lambda>r es. es = [EvCall c (r = None)]) (called c m)"
  unfolding called_def
proof (rule makes_bind_quiet[OF assms])
  fix e :: "err option"
  have "makes (\<lambda>_ es. es = [EvCall c (e = None)]) (log_event (EvCall c (e = None)) :: ('h world, unit) state)"
    by (rule makesI) auto
  then show "makes (\<lambda>r es. es = [EvCall c (r = None)])
      (log_event (EvCall c (e = None)) \<bind> (\<lambda>_. ret e) :: ('h world, err option) state)"
    by (rule makes_bind) (auto intro: makes_ret)
qed

lemma makes_if: "(b \<Longrightarrow> makes Q m) \<Longrightarrow> (\<not> b \<Longrightarrow> makes Q n) \<Longrightarrow> makes Q (if b then m else n)"
  by simp

lemma makes_emits: "emits P m \<Longrightarrow> makes (\<lambda>r es. list_all P es) m"
  by (rule makesI) (auto dest!: emitsD simp: visible_def list_all_iff)

lemma makes_retry:
  assumes "makes Q f" and again: "\<And>x es r fs. Q (Some x) es \<Longrightarrow> Q r fs \<Longrightarrow> Q r (es @ fs)"
  shows "makes Q (RetryOnConflict f)"
proof -
  have "makes Q (retry_on_conflict (Suc n) f)" for n
  proof (induction n)
    case (Suc n)
    show ?case
      unfolding retry_on_conflict.simps
    proof (rule makes_bind[OF assms(1)])
      fix x es assume q: "Q x es"
      show "makes (\<lambda>r fs. Q r (es @ fs)) (case x of None \<Rightarrow> ret None
          | Some y \<Rightarrow> if is_conflict y then retry_on_conflict (Suc n) f else ret (Some y))"
        using q by (auto split: option.split intro!: makes_ret intro: makes_mono[OF Suc.IH] again)
    qed
  qed (simp add: assms(1))
  from this[of 3] show ?thesis by (simp add: RetryOnConflict_def default_backoff_steps_def numeral_eq_Suc)
qed

lemma makes_case_option:
  "(x = None \<Longrightarrow> makes Q m) \<Longrightarrow> (\<And>y. x = Some y \<Longrightarrow> makes Q (f y)) \<Longrightarrow>
   makes Q (case x of None \<Rightarrow> m | Some y \<Rightarrow> f y)"
  by (cases x) auto

lemma makes_case_sum:
  "(\<And>e. x = Inl e \<Longrightarrow> makes Q (f e)) \<Longrightarrow> (\<And>y. x = Inr y \<Longrightarrow> makes Q (g y)) \<Longrightarrow>
   makes Q (case x of Inl e \<Rightarrow> f e | Inr y \<Rightarrow> g y)"
  by (cases x) auto

lemmas makes_split = makes_if makes_case_option makes_case_sum

text \<open>The handler calls among the events, and whether everything on record succeeded.\<close>

definition calls_of :: "event list \<Rightarrow> call list" where
  "calls_of es = List.map_filter (\<lambda>e. case e of EvCall c _ \<Rightarrow> Some c | _ \<Rightarrow> None) es"

definition all_ok :: "event list \<Rightarrow> bool" where
  "all_ok es = list_all (\<lambda>e. case e of EvCall _ b \<Rightarrow> b | EvApi _ _ b \<Rightarrow> b | EvExec _ _ _ _ \<Rightarrow> True) es"

lemma calls_of_simps [simp]:
  "calls_of [] = []" "calls_of (xs @ ys) = calls_of xs @ calls_of ys"
  "calls_of (EvCall c b # es) = c # calls_of es" "calls_of (EvApi v x b # es) = calls_of es"
  "calls_of (EvExec n a i k # es) = calls_of es"
  by (auto simp: calls_of_def List.map_filter_def)

lemma all_ok_simps [simp]:
  "all_ok []" "all_ok (xs @ ys) \<longleftrightarrow> all_ok xs \<and> all_ok ys"
  "all_ok (EvCall c b # es) \<longleftrightarrow> b \<and> all_ok es" "all_ok (EvApi v x b # es) \<longleftrightarrow> b \<and> all_ok es"
  "all_ok (EvExec n a i k # es) \<longleftrightarrow> all_ok es"
  by (auto simp: all_ok_def)

lemma calls_of_none: "list_all (\<lambda>e. \<forall>c b. e \<noteq> EvCall c b) es \<Longrightarrow> calls_of es = []"
proof (induction es)
  case (Cons e es)
  then show ?case by (cases e) auto
qed simp

lemma visible_calls [simp]: "calls_of (visible es) = calls_of es" "all_ok (visible es) = all_ok es"
proof -
  have "calls_of (visible es) = calls_of es \<and> all_ok (visible es) = all_ok es"
  proof (induction es)
    case (Cons e es)
    then show ?case by (cases e) auto
  qed simp
  then show "calls_of (visible es) = calls_of es" "all_ok (visible es) = all_ok es" by auto
qed

end
