(* ===== verification/ExecTrace.thy ===== *)
theory ExecTrace
  imports Trace
begin

text \<open>
  The calculus of \<open>Trace\<close> with the commands kept: \<open>does Q m\<close> relates the result of a program to all the
  events it leaves, the commands it runs with their exit codes included. The jail manager decides by
  commands alone, so its order of work is stated with it.
\<close>

definition does :: "('a \<Rightarrow> event list \<Rightarrow> bool) \<Rightarrow> ('h world, 'a) state \<Rightarrow> bool" where
  "does Q m \<longleftrightarrow> (\<forall>w. case run_state m w of (r, w') \<Rightarrow> \<exists>es. w_trace w' = w_trace w @ es \<and> Q r es)"

lemma doesD:
  "does Q m \<Longrightarrow> run_state m w = (r, w') \<Longrightarrow> \<exists>es. w_trace w' = w_trace w @ es \<and> Q r es"
  unfolding does_def by (erule allE[of _ w]) simp

lemma doesI:
  assumes "\<And>w r w'. run_state m w = (r, w') \<Longrightarrow> \<exists>es. w_trace w' = w_trace w @ es \<and> Q r es"
  shows "does Q m"
  using assms by (auto simp: does_def split: prod.split)

lemma does_mono: "does R m \<Longrightarrow> (\<And>r es. R r es \<Longrightarrow> Q r es) \<Longrightarrow> does Q m"
  by (fastforce simp: does_def split: prod.splits)

lemma does_ret: "Q x [] \<Longrightarrow> does Q (ret x)"
  by (simp add: does_def)

lemma does_bind:
  assumes "does R m" and "\<And>x es. R x es \<Longrightarrow> does (\<lambda>r fs. Q r (es @ fs)) (f x)"
  shows "does Q (State_Monad.bind m f)"
proof (rule doesI)
  fix w r w' assume run: "run_state (State_Monad.bind m f) w = (r, w')"
  obtain x w1 where m: "run_state m w = (x, w1)" by fastforce
  obtain es where es: "w_trace w1 = w_trace w @ es" "R x es" using doesD[OF assms(1) m] by blast
  from run m have "run_state (f x) w1 = (r, w')" by simp
  then obtain fs where "w_trace w' = w_trace w1 @ fs" "Q r (es @ fs)" using doesD[OF assms(2)[OF es(2)]] by blast
  with es show "\<exists>es. w_trace w' = w_trace w @ es \<and> Q r es" by (intro exI[of _ "es @ fs"]) simp
qed

lemma does_emits: "emits P m \<Longrightarrow> does (\<lambda>r es. list_all P es) m"
  by (rule doesI) (auto dest!: emitsD)

lemma emits_does: "does (\<lambda>r es. list_all P es) m \<Longrightarrow> emits P m"
  unfolding emits_def using doesD[of _ m] by (metis prod.collapse)

text \<open>Silent steps: reads of files and of the API, the clock, answers from outside.\<close>

lemma does_silent: "emits (\<lambda>e. False) m \<Longrightarrow> does (\<lambda>r es. es = []) m"
  by (rule does_mono[OF does_emits]) (auto simp: list_all_iff)

lemma does_bind_silent:
  assumes "emits (\<lambda>e. False) m" and "\<And>x. does Q (f x)"
  shows "does Q (State_Monad.bind m f)"
  by (rule does_bind[OF does_silent[OF assms(1)]]) (simp add: assms(2))

lemma does_if: "(b \<Longrightarrow> does Q m) \<Longrightarrow> (\<not> b \<Longrightarrow> does Q n) \<Longrightarrow> does Q (if b then m else n)"
  by simp

lemma does_case_option:
  "(x = None \<Longrightarrow> does Q m) \<Longrightarrow> (\<And>y. x = Some y \<Longrightarrow> does Q (f y)) \<Longrightarrow>
   does Q (case x of None \<Rightarrow> m | Some y \<Rightarrow> f y)"
  by (cases x) auto

lemma does_case_sum:
  "(\<And>e. x = Inl e \<Longrightarrow> does Q (f e)) \<Longrightarrow> (\<And>y. x = Inr y \<Longrightarrow> does Q (g y)) \<Longrightarrow>
   does Q (case x of Inl e \<Rightarrow> f e | Inr y \<Rightarrow> g y)"
  by (cases x) auto

lemma does_case_prod: "(\<And>a b. x = (a, b) \<Longrightarrow> does Q (f a b)) \<Longrightarrow> does Q (case x of (a, b) \<Rightarrow> f a b)"
  by (cases x) auto

lemmas does_split = does_if does_case_option does_case_sum does_case_prod

lemma does_RunCommand:
  "does (\<lambda>(out, n, e) es. es = [EvExec cmd args [] n] \<and> (e = None \<longleftrightarrow> n = 0)) (RunCommand h cmd args)"
proof (rule doesI)
  fix w and r :: "string \<times> int \<times> err option" and w' assume "run_state (RunCommand h cmd args) w = (r, w')"
  then show "\<exists>es. w_trace w' = w_trace w @ es \<and> (case r of (out, n, e) \<Rightarrow> \<lambda>es. es = [EvExec cmd args [] n] \<and> (e = None \<longleftrightarrow> n = 0)) es"
    using RunCommand_trace by (cases r) fastforce
qed

lemma does_SimpleRunCommand:
  "does (\<lambda>r es. \<exists>n. es = [EvExec cmd args [] n] \<and> (r = None \<longleftrightarrow> n = 0)) (SimpleRunCommand h cmd args)"
  by (rule doesI) (use SimpleRunCommand_trace in fastforce)

text \<open>The early-return combinators: the error ends the run, success goes on.\<close>

lemma does_check_fail:
  assumes "does R m" and "\<And>e es. R (Some e) es \<Longrightarrow> Q (Some (wrap e)) es"
    and "\<And>es. R None es \<Longrightarrow> does (\<lambda>r fs. Q r (es @ fs)) k"
  shows "does Q (check_fail m wrap k)"
  unfolding check_fail_def using assms(2,3)
  by (intro does_bind[OF assms(1)]) (auto split: option.split intro!: does_ret)

lemma does_or_fail:
  assumes "does R m" and "\<And>e es. R (Inl e) es \<Longrightarrow> Q (Some (wrap e)) es"
    and "\<And>x es. R (Inr x) es \<Longrightarrow> does (\<lambda>r fs. Q r (es @ fs)) (k x)"
  shows "does Q (or_fail m wrap k)"
  unfolding or_fail_def using assms(2,3)
  by (intro does_bind[OF assms(1)]) (auto split: sum.split intro!: does_ret)

lemma does_check:
  assumes "does R m" and "\<And>e es. R (Some e) es \<Longrightarrow> Q (Inl (wrap e)) es"
    and "\<And>es. R None es \<Longrightarrow> does (\<lambda>r fs. Q r (es @ fs)) k"
  shows "does Q (check m wrap k)"
  unfolding check_def using assms(2,3)
  by (intro does_bind[OF assms(1)]) (auto split: option.split intro!: does_ret)

lemma does_or_return:
  assumes "does R m" and "\<And>e es. R (Inl e) es \<Longrightarrow> Q (Inl (wrap e)) es"
    and "\<And>x es. R (Inr x) es \<Longrightarrow> does (\<lambda>r fs. Q r (es @ fs)) (k x)"
  shows "does Q (or_return m wrap k)"
  unfolding or_return_def using assms(2,3)
  by (intro does_bind[OF assms(1)]) (auto split: sum.split intro!: does_ret)

lemma does_retry:
  assumes "does Q f" and again: "\<And>x es r fs. Q (Some x) es \<Longrightarrow> Q r fs \<Longrightarrow> Q r (es @ fs)"
  shows "does Q (RetryOnConflict f)"
proof -
  have "does Q (retry_on_conflict (Suc n) f)" for n
  proof (induction n)
    case (Suc n)
    have "does (\<lambda>r fs. Q r (es @ fs)) (case x of None \<Rightarrow> ret None
        | Some y \<Rightarrow> if is_conflict y then retry_on_conflict (Suc n) f else ret (Some y))" if "Q x es" for x es
      using that by (auto split: option.split intro!: does_ret intro: does_mono[OF Suc.IH] again)
    then show ?case unfolding retry_on_conflict.simps by (rule does_bind[OF assms(1)])
  qed (simp add: assms(1))
  from this[of 3] show ?thesis by (simp add: RetryOnConflict_def default_backoff_steps_def numeral_eq_Suc)
qed

end
