(* ===== verification/ConfigSetApply.thy ===== *)
theory ConfigSetApply
  imports Common
begin

text \<open>
  How a ConfigSet is brought about on the host: the handlers of
  \<^verbatim>\<open>internal/controller/common/configset_controller.go\<close> for packages, files, services and
  executions. A loop that collects errors and goes on is \<open>collect\<close>.
\<close>

section \<open>Configuration and loops\<close>

record configset_config =
  cc_namespace :: string
  cc_gomplatePath :: string
  cc_reconcilePeriod :: duration
  cc_bucketEnabled :: bool
  cc_bucketPath :: string
  cc_bucketMaxFileSize :: int
  cc_bucketMaxAge :: duration

fun collect :: "('a \<Rightarrow> ('s, err list) state) \<Rightarrow> 'a list \<Rightarrow> ('s, err list) state" where
  "collect f [] = ret []"
| "collect f (x # xs) = do { es \<leftarrow> f x; rest \<leftarrow> collect f xs; ret (es @ rest) }"

lemma emits_collect [emits_rules]:
  "(\<And>x. x \<in> set xs \<Longrightarrow> emits P (f x)) \<Longrightarrow> emits P (collect f xs)"
  by (induction xs) (auto intro!: emits_rules)

lemma valid_collect:
  assumes "\<And>x. x \<in> set xs \<Longrightarrow> valid I (f x) (\<lambda>_. I)"
  shows "valid I (collect f xs) (\<lambda>_. I)"
  using assms
proof (induction xs)
  case (Cons x xs)
  have "valid I (collect f xs) (\<lambda>_. I)" using Cons by simp
  moreover have "valid I (f x) (\<lambda>_. I)" using Cons.prems by simp
  ultimately show ?case by (auto intro!: valid_bind[where R = "\<lambda>_. I"] valid_ret)
qed (simp add: valid_ret)

definition opt_err :: "(err \<Rightarrow> err) \<Rightarrow> err option \<Rightarrow> err list" where
  "opt_err wrap e = (case e of None \<Rightarrow> [] | Some x \<Rightarrow> [wrap x])"

lemma opt_err_Nil [simp]: "opt_err wrap e = [] \<longleftrightarrow> e = None"
  by (simp add: opt_err_def split: option.split)

section \<open>Packages\<close>

definition handle_package :: "'h env \<Rightarrow> string smap \<Rightarrow> package \<Rightarrow> ('h world, err list) state" where
  "handle_package env pkgs p =
     (let hd = sy_package (e_system env) in
      case PackageEnsureFromString (p_ensure p) of
        Installed \<Rightarrow>
          (let needsInstall = (case map_of pkgs (p_name p) of
                 None \<Rightarrow> True
               | Some v \<Rightarrow> p_version p \<noteq> [] \<and> v \<noteq> p_version p)
           in if needsInstall then do {
                e \<leftarrow> called (PkgInstall (p_name p) (p_version p)) (ph_Install hd (p_name p) (p_version p));
                ret (opt_err id e)
              } else ret [])
      | AbsentP \<Rightarrow>
          (if map_of pkgs (p_name p) \<noteq> None then do {
             e \<leftarrow> called (PkgRemove (p_name p)) (ph_Remove hd (p_name p));
             ret (opt_err id e)
           } else ret [])
      | UnhandledPackageEnsure \<Rightarrow>
          ret [Plain (''unhandled Ensure value '' @ Quote (p_ensure p) @ '' for package '' @
            Quote (p_name p))])"

definition handlePackageSet :: "'h env \<Rightarrow> package list \<Rightarrow> ('h world, err option) state" where
  "handlePackageSet env packageSet = do {
     r \<leftarrow> ph_List (sy_package (e_system env));
     (case r of
        Inl e \<Rightarrow> ret (Some e)
      | Inr pkgs \<Rightarrow> do {
          errs \<leftarrow> collect (handle_package env pkgs) packageSet;
          ret (errors_join errs)
        })
   }"

section \<open>Services\<close>

text \<open>
  The services to restart, by name: those that should run and subscribe to a changed file. A later
  entry of the same name replaces an earlier one.
\<close>

definition note_service :: "string \<Rightarrow> service \<Rightarrow> service smap \<Rightarrow> service smap" where
  "note_service cf svc m =
     (if s_ensure svc = ServiceStatus_String Running \<and> cf \<in> set (s_subscribeFiles svc)
      then AList.update (s_name svc) svc m else m)"

definition restart_services :: "string list \<Rightarrow> service list \<Rightarrow> service smap" where
  "restart_services changedFiles serviceSet =
     fold (\<lambda>cf m. fold (note_service cf) serviceSet m) changedFiles []"

definition svc_err :: "string \<Rightarrow> string \<Rightarrow> err \<Rightarrow> err" where
  "svc_err what name e = Wrap (''failed to '' @ what @ '' service '' @ Quote name) e"

definition configure_service :: "'h env \<Rightarrow> service \<Rightarrow> ('h world, err list) state" where
  "configure_service env svc =
     (let hd = sy_service (e_system env) (s_user svc); n = s_name svc in do {
        es \<leftarrow> (if s_enable svc then do {
                 e \<leftarrow> called (SvcEnable n) (sh_Enable hd n); ret (opt_err (svc_err ''enable'' n) e)
               } else do {
                 e \<leftarrow> called (SvcDisable n) (sh_Disable hd n); ret (opt_err (svc_err ''disable'' n) e)
               });
        as \<leftarrow> (if s_arguments svc \<noteq> [] then do {
                 e \<leftarrow> called (SvcSetArguments n (s_arguments svc)) (sh_SetArguments hd n (s_arguments svc));
                 ret (opt_err (Wrap (''failed to set service arguments for '' @ Quote n)) e)
               } else ret []);
        ret (es @ as)
      })"

definition handle_service :: "'h env \<Rightarrow> managed_file list \<Rightarrow> service \<Rightarrow> ('h world, err list) state" where
  "handle_service env fileSet svc =
     (let hd = sy_service (e_system env) (s_user svc); n = s_name svc;
          rcFileManaged = list_ex (\<lambda>f. f_path f = ''/etc/rc.conf.d/'' @ n) fileSet
      in do {
        es \<leftarrow> (if rcFileManaged then ret [] else configure_service env svc);
        (status, _) \<leftarrow> sh_Status hd n;
        as \<leftarrow> (case ServiceStatusFromString (s_ensure svc) of
                 Running \<Rightarrow>
                   (if status \<noteq> Running then do {
                      e \<leftarrow> called (SvcStart n) (sh_Start hd n); ret (opt_err (svc_err ''start'' n) e)
                    } else ret [])
               | Stopped \<Rightarrow>
                   (if status \<noteq> Stopped then do {
                      e \<leftarrow> called (SvcStop n) (sh_Stop hd n); ret (opt_err (svc_err ''stop'' n) e)
                    } else ret [])
               | UnknownServiceStatus \<Rightarrow> ret []);
        ret (es @ as)
      })"

definition locked_call :: "'h env \<Rightarrow> nsname \<Rightarrow> ('h world, err option) state" where
  "locked_call env req = called (LockCall req) (ext (lk_Lock (e_locker env) req))"

definition unlock_call :: "'h env \<Rightarrow> nsname \<Rightarrow> ('h world, err option) state" where
  "unlock_call env req = called (UnlockCall req) (ext (lk_Unlock (e_locker env) req))"

definition restart_call :: "'h env \<Rightarrow> service \<Rightarrow> ('h world, err option) state" where
  "restart_call env svc = do {
     e \<leftarrow> called (SvcRestart (s_name svc)) (sh_Restart (sy_service (e_system env) (s_user svc)) (s_name svc));
     ret (map_option (svc_err ''restart'' (s_name svc)) e)
   }"

text \<open>\<open>restartF\<close>: a service with a lock group is restarted between \<open>Lock\<close> and \<open>Unlock\<close> of that group.\<close>

definition restartF :: "'h env \<Rightarrow> string \<Rightarrow> service \<Rightarrow> ('h world, err option) state" where
  "restartF env namespace svc =
     (if s_lockGroup svc \<noteq> [] then
        (let req = nsn namespace (s_lockGroup svc)
         in check_fail (locked_call env req) (Wrap ''failed to acquire lock'') (do {
              e \<leftarrow> restart_call env svc;
              _ \<leftarrow> unlock_call env req;
              ret e
            }))
      else restart_call env svc)"

definition handleServiceSet :: "'h env \<Rightarrow> string \<Rightarrow> service list \<Rightarrow> managed_file list \<Rightarrow> string list \<Rightarrow>
    ('h world, err option) state" where
  "handleServiceSet env namespace serviceSet fileSet changedFiles = do {
     errs \<leftarrow> collect (handle_service env fileSet) serviceSet;
     rerrs \<leftarrow> collect (\<lambda>(_, svc). do { e \<leftarrow> restartF env namespace svc; ret (opt_err id e) })
               (restart_services changedFiles serviceSet);
     ret (errors_join (errs @ rerrs))
   }"

section \<open>Executions\<close>

definition subscribed_execs :: "exec list \<Rightarrow> string list \<Rightarrow> exec list" where
  "subscribed_execs execs changedFiles =
     concat (map (\<lambda>cf. concat (map (\<lambda>x. concat (map (\<lambda>sub. if sub = cf then [x] else [])
       (x_subscribeFiles x))) execs)) changedFiles)"

definition run_exec :: "'h env \<Rightarrow> exec \<Rightarrow> ('h world, err list) state" where
  "run_exec env x = do {
     e \<leftarrow> called (RunExec (x_command x) (x_args x))
           (do { (_, _, e) \<leftarrow> RunCommand (e_host env) (x_command x) (x_args x); ret e });
     ret (opt_err id e)
   }"

text \<open>The errors are chained with \<^verbatim>\<open>"%w: %s"\<close>, starting from nil.\<close>

definition handleExecutions :: "'h env \<Rightarrow> exec list \<Rightarrow> string list \<Rightarrow> ('h world, err option) state" where
  "handleExecutions env execs changedFiles = do {
     errs \<leftarrow> collect (run_exec env) (subscribed_execs execs changedFiles);
     ret (if errs = [] then None
          else Some (Plain (''%!w(<nil>)'' @ concat (map (\<lambda>e. '': '' @ err_text e) errs))))
   }"

section \<open>Templates\<close>

record template_data =
  td_labels :: "string smap"
  td_configMaps :: "string smap"
  td_secrets :: "string smap"
  td_status :: managednode_status
  td_nodes :: "(string \<times> string smap \<times> managednode_status) list"

text \<open>\<open>marshal\<close> is \<^verbatim>\<open>json.Marshal\<close> of the template data, which only the template engine reads.\<close>

type_synonym marshal = "template_data \<Rightarrow> string res"

definition buildTemplate :: "'h env \<Rightarrow> configset_config \<Rightarrow> marshal \<Rightarrow> string \<Rightarrow> template_data \<Rightarrow>
    ('h world, string res) state" where
  "buildTemplate env cfg marshal template data =
     or_return (ret (marshal data)) id (\<lambda>b. do {
       p \<leftarrow> run_proc (e_host env) (cc_gomplatePath cfg)
             [''-i'', template, ''-d'', ''data=stdin:///data.json''] b;
       ret (case p of
              Exited n out er \<Rightarrow>
                (if n = 0 then Inr out
                 else Inl (Wrap (''failed to execute '' @ Quote (cc_gomplatePath cfg) @ '': '' @ er)
                        (Plain (''exit status '' @ Itoa n))))
            | Killed out er \<Rightarrow>
                Inl (Wrap (''failed to execute '' @ Quote (cc_gomplatePath cfg) @ '': '' @ er)
                  (Plain ''signal: killed''))
            | NotStarted m \<Rightarrow>
                Inl (Wrap (''failed to execute '' @ Quote (cc_gomplatePath cfg) @ '': '') (Plain m)))
     })"

definition copy_map :: "'v smap \<Rightarrow> 'v smap \<Rightarrow> 'v smap" where
  "copy_map dst src = fold (\<lambda>(k, v). AList.update k v) src dst"

definition node_data :: "managednode \<Rightarrow> template_data" where
  "node_data node = \<lparr>td_labels = om_labels (mn_meta node), td_configMaps = [], td_secrets = [],
     td_status = mn_status node, td_nodes = []\<rparr>"

fun collect_secrets :: "'h env \<Rightarrow> configset_config \<Rightarrow> marshal \<Rightarrow> string \<Rightarrow> managednode \<Rightarrow> string list \<Rightarrow>
    string smap \<Rightarrow> ('h world, string smap res) state" where
  "collect_secrets env cfg marshal namespace node [] acc = ret (Inr acc)"
| "collect_secrets env cfg marshal namespace node (s # ss) acc =
     or_return (buildTemplate env cfg marshal s (node_data node))
       (Wrap ''failed to build template string rendering secretRef'') (\<lambda>st.
     or_return (api_get env as_secret KSecret (nsn namespace st)) id (\<lambda>sec.
       collect_secrets env cfg marshal namespace node ss (copy_map acc (sec_data sec))))"

fun collect_configmaps :: "'h env \<Rightarrow> string \<Rightarrow> string list \<Rightarrow> string smap \<Rightarrow>
    ('h world, string smap res) state" where
  "collect_configmaps env namespace [] acc = ret (Inr acc)"
| "collect_configmaps env namespace (c # cs) acc =
     or_return (api_get env as_configmap KConfigMap (nsn namespace c)) id (\<lambda>cm.
       collect_configmaps env namespace cs (copy_map acc (cm_data cm)))"

definition node_infos :: "managednode list \<Rightarrow> (string \<times> string smap \<times> managednode_status) list" where
  "node_infos ns = sort_key fst (map (\<lambda>n. (om_name (mn_meta n), om_labels (mn_meta n), mn_status n)) ns)"

definition collectData :: "'h env \<Rightarrow> configset_config \<Rightarrow> marshal \<Rightarrow> string \<Rightarrow> managed_file \<Rightarrow> managednode \<Rightarrow>
    ('h world, template_data res) state" where
  "collectData env cfg marshal namespace f node =
     or_return (collect_secrets env cfg marshal namespace node (f_secretRefs f) []) id (\<lambda>secrets.
     or_return (collect_configmaps env namespace (f_configMapRefs f) []) id (\<lambda>cms.
     or_return (api_list env as_node KManagedNode (Some namespace)) (Wrap ''listing ManagedNodes'') (\<lambda>ns.
       ret (Inr ((node_data node)\<lparr>td_secrets := secrets, td_configMaps := cms, td_nodes := node_infos ns\<rparr>)))))"

section \<open>Files\<close>

text \<open>The size of what a path denotes: the length of a file's content, zero for anything else.\<close>

definition inode_size :: "inode \<Rightarrow> int" where
  "inode_size i = (case i_kind i of FFile c \<Rightarrow> int (length c) | _ \<Rightarrow> 0)"

definition backup_file :: "'h env \<Rightarrow> configset_config \<Rightarrow> managed_file \<Rightarrow> ('h world, string) state" where
  "backup_file env cfg f =
     (if \<not> cc_bucketEnabled cfg then ret []
      else do {
        r \<leftarrow> os_Stat (e_host env) (f_path f);
        (case r of
           Inl _ \<Rightarrow> ret []
         | Inr info \<Rightarrow>
             if i_kind info = FDir then ret []
             else if 0 < cc_bucketMaxFileSize cfg \<and> cc_bucketMaxFileSize cfg < inode_size info then ret []
             else do {
               c \<leftarrow> os_ReadFile (e_host env) (f_path f);
               (case c of
                  Inl _ \<Rightarrow> ret []
                | Inr current \<Rightarrow> do {
                    b \<leftarrow> SaveToFileBucket (e_host env) (cc_bucketPath cfg) (f_path f) current info;
                    ret (case b of Inl _ \<Rightarrow> [] | Inr hash \<Rightarrow> hash)
                  })
             })
      })"

definition writeFileContent :: "'h env \<Rightarrow> configset_config \<Rightarrow> managed_file \<Rightarrow>
    ('h world, bool \<times> string \<times> err option) state" where
  "writeFileContent env cfg f =
     (let h = e_host env; fh = sy_file (e_system env) in do {
        backupHash \<leftarrow> backup_file env cfg f;
        (contentChanged, e) \<leftarrow> WriteContentFile h (f_path f) (f_content f);
        (case e of
           Some x \<Rightarrow> ret (False, backupHash, Some (Wrap ''failed to write content to file'' x))
         | None \<Rightarrow> do {
             (ownerChanged, e) \<leftarrow> Chown h fh (f_path f) (f_owner f) (f_group f);
             (case e of
                Some x \<Rightarrow> ret (True, backupHash, Some (Wrap ''failed to chown file'' x))
              | None \<Rightarrow>
                  if f_mode f \<noteq> [] then do {
                    (modeChanged, e) \<leftarrow> SetMode h (f_path f) (f_mode f);
                    (case e of
                       Some x \<Rightarrow> ret (True, backupHash, Some (Wrap ''failed to set file mode'' x))
                     | None \<Rightarrow> ret (contentChanged \<or> ownerChanged \<or> modeChanged, backupHash, None))
                  } else ret (contentChanged \<or> ownerChanged, backupHash, None))
           })
      })"

text \<open>What one file of the set contributes: changed paths, backup hashes by path, and errors.\<close>

type_synonym file_outcome = "string list \<times> string smap \<times> err list"

definition failed :: "err \<Rightarrow> file_outcome" where
  "failed e = ([], [], [e])"

definition write_regular :: "'h env \<Rightarrow> configset_config \<Rightarrow> managed_file \<Rightarrow> ('h world, file_outcome) state" where
  "write_regular env cfg f =
     (if f_content f \<noteq> [] \<and> f_ensure f \<noteq> FileEnsure_String Absent then do {
        st \<leftarrow> (if f_createOnly f then os_Stat (e_host env) (f_path f) else ret (Inl (Plain ''not asked'')));
        (case st of
           Inr _ \<Rightarrow> ret ([], [], [])
         | Inl _ \<Rightarrow> do {
             (changed, backupHash, e) \<leftarrow> writeFileContent env cfg f;
             ret (case e of
                    Some x \<Rightarrow> failed x
                  | None \<Rightarrow> (if changed then [f_path f] else [],
                             if backupHash \<noteq> [] then [(f_path f, backupHash)] else [], []))
           })
      } else ret ([], [], []))"

definition ensure_regular :: "'h env \<Rightarrow> configset_config \<Rightarrow> marshal \<Rightarrow> string \<Rightarrow> managednode \<Rightarrow>
    managed_file \<Rightarrow> ('h world, file_outcome) state" where
  "ensure_regular env cfg marshal namespace node f =
     (if f_template f = [] then write_regular env cfg f
      else do {
        d \<leftarrow> collectData env cfg marshal namespace f node;
        (case d of
           Inl e \<Rightarrow> ret (failed e)
         | Inr data \<Rightarrow> do {
             c \<leftarrow> buildTemplate env cfg marshal (f_template f) data;
             (case c of
                Inl e \<Rightarrow> ret (failed (Wrap (''failed to build template for file '' @ Quote (f_path f) @ '': '' @
                    f_template f) e))
              | Inr content \<Rightarrow>
                  write_regular env cfg (if content \<noteq> [] then f\<lparr>f_content := content\<rparr> else f))
           })
      })"

text \<open>\<open>managedPathsUnder\<close> is only called with the path of a directory that exists, so not with the
  empty path.\<close>

definition dir_prefix :: "string \<Rightarrow> string" where
  "dir_prefix p = (if p \<noteq> [] \<and> last p = slash then p else p @ ''/'')"

definition managedPathsUnder :: "'h env \<Rightarrow> string \<Rightarrow> managednode \<Rightarrow> string \<Rightarrow> ('h world, string list) state" where
  "managedPathsUnder env namespace node dirPath = do {
     r \<leftarrow> api_list env as_configset KConfigSet (Some namespace);
     ret (case r of
            Inl _ \<Rightarrow> []
          | Inr sets \<Rightarrow>
              [f_path f. cs \<leftarrow> sets, nodeLabelMatch node (om_labels (cs_meta cs)) = None,
                 f \<leftarrow> css_files (cs_spec cs),
                 f_path f = dirPath \<or> HasPrefix (f_path f) (dir_prefix dirPath)])
   }"

fun purge_entries :: "'h env \<Rightarrow> string \<Rightarrow> string list \<Rightarrow> (string \<times> bool) list \<Rightarrow>
    ('h world, string list \<times> err list) state" where
  "purge_entries env dir managed [] = ret ([], [])"
| "purge_entries env dir managed ((name, isDir) # es) =
     (let entryPath = dir @ ''/'' @ name
      in if isDir \<or> entryPath \<in> set managed then purge_entries env dir managed es
         else do {
           e \<leftarrow> os_Remove (e_host env) entryPath;
           (cs, errs) \<leftarrow> purge_entries env dir managed es;
           ret (case e of
                  Some x \<Rightarrow> (cs, Wrap (''purge: failed to remove '' @ Quote entryPath) x # errs)
                | None \<Rightarrow> (entryPath # cs, errs))
         })"

definition purge_dir :: "'h env \<Rightarrow> string \<Rightarrow> managednode \<Rightarrow> managed_file \<Rightarrow> ('h world, string list \<times> err list) state" where
  "purge_dir env namespace node f = do {
     managed \<leftarrow> managedPathsUnder env namespace node (f_path f);
     r \<leftarrow> os_ReadDir (e_host env) (f_path f);
     (case r of
        Inl e \<Rightarrow> ret ([], [Wrap (''purge: failed to read directory '' @ Quote (f_path f)) e])
      | Inr entries \<Rightarrow> purge_entries env (f_path f) managed entries)
   }"

text \<open>The directory itself: created with its mode, or given its mode; \<open>Inl\<close> ends the file's turn.\<close>

definition set_dir_mode :: "'h env \<Rightarrow> managed_file \<Rightarrow> ('h world, err + string list) state" where
  "set_dir_mode env f =
     (if f_mode f = [] then ret (Inr [])
      else do {
        (changed, e) \<leftarrow> SetMode (e_host env) (f_path f) (f_mode f);
        ret (case e of
               Some x \<Rightarrow> Inl (Wrap ''failed to set file mode'' x)
             | None \<Rightarrow> Inr (if changed then [f_path f] else []))
      })"

definition make_dir :: "'h env \<Rightarrow> managed_file \<Rightarrow> ('h world, err + string list) state" where
  "make_dir env f = do {
     st \<leftarrow> os_Stat (e_host env) (f_path f);
     (case st of
        Inl e \<Rightarrow>
          if os_is_not_exist e then
            (case (if f_mode f = [] then Inr 0x1B0 else GetFileModeFromString (f_mode f)) of
               Inl x \<Rightarrow> ret (Inl (Wrap ''failed to get file mode from string'' x))
             | Inr m \<Rightarrow> do {
                 x \<leftarrow> os_Mkdir (e_host env) (f_path f) m;
                 ret (case x of Some y \<Rightarrow> Inl y | None \<Rightarrow> Inr [f_path f])
               })
          else set_dir_mode env f
      | Inr _ \<Rightarrow> set_dir_mode env f)
   }"

definition ensure_dir :: "'h env \<Rightarrow> string \<Rightarrow> managednode \<Rightarrow> managed_file \<Rightarrow> ('h world, file_outcome) state" where
  "ensure_dir env namespace node f = do {
     r \<leftarrow> make_dir env f;
     (case r of
        Inl e \<Rightarrow> ret (failed e)
      | Inr changed \<Rightarrow>
          if f_purge f then do {
            (cs, errs) \<leftarrow> purge_dir env namespace node f;
            ret (changed @ cs, [], errs)
          } else ret (changed, [], []))
   }"

definition ensure_symlink :: "'h env \<Rightarrow> managed_file \<Rightarrow> ('h world, file_outcome) state" where
  "ensure_symlink env f = do {
     r \<leftarrow> os_Readlink (e_host env) (f_path f);
     (case r of
        Inl e \<Rightarrow> ret (failed (Wrap (''failed to read symlink '' @ Quote (f_path f)) e))
      | Inr target \<Rightarrow>
          if target = f_target f then ret ([], [], [])
          else do {
            (changed, e) \<leftarrow> Remove (e_host env) (f_path f);
            (case e of
               Some x \<Rightarrow> ret (failed x)
             | None \<Rightarrow> do {
                 s \<leftarrow> os_Symlink (e_host env) (f_target f) (f_path f);
                 ret (if changed then [f_path f] else [], [],
                   opt_err (Wrap (''failed to create symlink '' @ Quote (f_path f) @ '' -> '' @
                     Quote (f_target f))) s)
               })
          })
   }"

definition ensure_absent :: "'h env \<Rightarrow> managed_file \<Rightarrow> ('h world, file_outcome) state" where
  "ensure_absent env f = do {
     (changed, e) \<leftarrow> Remove (e_host env) (f_path f);
     ret (if changed then [f_path f] else [], [], opt_err id e)
   }"

definition handle_file :: "'h env \<Rightarrow> configset_config \<Rightarrow> marshal \<Rightarrow> string \<Rightarrow> managednode \<Rightarrow> managed_file \<Rightarrow>
    ('h world, file_outcome) state" where
  "handle_file env cfg marshal namespace node f =
     (case FileEnsureFromString (f_ensure f) of
        FileE \<Rightarrow> ensure_regular env cfg marshal namespace node f
      | Directory \<Rightarrow> ensure_dir env namespace node f
      | Symlink \<Rightarrow> ensure_symlink env f
      | Absent \<Rightarrow> ensure_absent env f
      | UnhandledFileEnsure \<Rightarrow> ret (failed (Plain (''unhandled file ensure '' @ Quote (f_ensure f)))))"

fun handle_files :: "('a \<Rightarrow> ('s, file_outcome) state) \<Rightarrow> 'a list \<Rightarrow> ('s, file_outcome) state" where
  "handle_files g [] = ret ([], [], [])"
| "handle_files g (f # fs) = do {
     (cs, bs, es) \<leftarrow> g f;
     (cs', bs', es') \<leftarrow> handle_files g fs;
     ret (cs @ cs', copy_map bs bs', es @ es')
   }"

definition handleFileSet :: "'h env \<Rightarrow> configset_config \<Rightarrow> marshal \<Rightarrow> string \<Rightarrow> managed_file list \<Rightarrow>
    managednode \<Rightarrow> ('h world, string list \<times> string smap \<times> err option) state" where
  "handleFileSet env cfg marshal namespace fileSet node = do {
     (changed, backups, errs) \<leftarrow> handle_files (handle_file env cfg marshal namespace node) fileSet;
     ret (changed, backups, errors_join errs)
   }"

end
