(* ===== verification/ConfigSet.thy ===== *)
theory ConfigSet
  imports ConfigSetApply
begin

text \<open>
  The ConfigSet reconciler of \<^verbatim>\<open>internal/controller/common/configset_controller.go\<close>: conflict detection
  between ConfigSets, the record of every apply in the node's status, the condition on the ConfigSet,
  the notification of other resources, the maps from watched objects to reconcile requests, the
  schedule of the filebucket's garbage collection, and \<open>Reconcile\<close> itself. Metrics are left out,
  except for the gauge whose stale label sets the reconciler has to delete itself.
\<close>

type_synonym requeue = duration

section \<open>Conflicts\<close>

text \<open>The last ConfigSet in list order that claims a resource is the owner that is reported.\<close>

definition claim_all :: "(configset_spec \<Rightarrow> string list) \<Rightarrow> configset list \<Rightarrow> string smap" where
  "claim_all keys others =
     fold (\<lambda>cs m. fold (\<lambda>k. AList.update k (om_name (cs_meta cs))) (keys (cs_spec cs)) m) others []"

definition conflict_text :: "string \<Rightarrow> string \<Rightarrow> string \<Rightarrow> string" where
  "conflict_text what name owner = what @ '':'' @ name @ '' (also in configset '' @ Quote owner @ '')''"

definition conflicts_of :: "string \<Rightarrow> string smap \<Rightarrow> string list \<Rightarrow> string list" where
  "conflicts_of what claimed names =
     List.map_filter (\<lambda>n. map_option (conflict_text what n) (map_of claimed n)) names"

definition file_keys :: "configset_spec \<Rightarrow> string list" where
  "file_keys s = map f_path (css_files s)"

definition service_keys :: "configset_spec \<Rightarrow> string list" where
  "service_keys s = map s_name (css_services s)"

definition package_keys :: "configset_spec \<Rightarrow> string list" where
  "package_keys s = map p_name (css_packages s)"

definition relevant_others :: "configset \<Rightarrow> managednode \<Rightarrow> configset list \<Rightarrow> configset list" where
  "relevant_others cs node all = filter (\<lambda>other. om_name (cs_meta other) \<noteq> om_name (cs_meta cs) \<and>
     nodeLabelMatch node (om_labels (cs_meta other)) = None) all"

definition conflicts_with :: "configset \<Rightarrow> configset list \<Rightarrow> string list" where
  "conflicts_with cs others =
     conflicts_of ''file'' (claim_all file_keys others) (file_keys (cs_spec cs)) @
     conflicts_of ''service'' (claim_all service_keys others) (service_keys (cs_spec cs)) @
     conflicts_of ''package'' (claim_all package_keys others) (package_keys (cs_spec cs))"

definition detectConflicts :: "'h env \<Rightarrow> configset \<Rightarrow> managednode \<Rightarrow> ('h world, string list res) state" where
  "detectConflicts env cs node =
     or_return (api_list env as_configset KConfigSet (Some (om_namespace (cs_meta cs)))) id (\<lambda>all.
       ret (Inr (conflicts_with cs (relevant_others cs node all))))"

section \<open>The node's record of applied ConfigSets\<close>

text \<open>The entry for one ConfigSet is replaced or appended; \<open>None\<close> when it already says the same.\<close>

fun upsert_status :: "configset_apply_status \<Rightarrow> configset_apply_status list \<Rightarrow>
    configset_apply_status list option" where
  "upsert_status entry [] = Some [entry]"
| "upsert_status entry (c # cs) =
     (if cas_name c = cas_name entry then
        (if cas_resourceVersion c = cas_resourceVersion entry \<and> cas_error c = cas_error entry \<and>
            cas_conflicts c = cas_conflicts entry then None
         else Some (entry # cs))
      else map_option (\<lambda>r. c # r) (upsert_status entry cs))"

definition updateConfigSetStatus :: "'h env \<Rightarrow> string \<Rightarrow> string \<Rightarrow> string \<Rightarrow> string \<Rightarrow> err option \<Rightarrow>
    string list \<Rightarrow> ('h world, err option) state" where
  "updateConfigSetStatus env nodeName nodeNamespace name version applyErr conflicts = do {
     t \<leftarrow> now (e_host env);
     let entry = \<lparr>cas_name = name, cas_resourceVersion = version, cas_lastApplied = t,
       cas_error = (case applyErr of None \<Rightarrow> [] | Some e \<Rightarrow> err_text e), cas_conflicts = conflicts\<rparr>;
     RetryOnConflict (or_fail (api_get env as_node KManagedNode (nsn nodeNamespace nodeName)) id (\<lambda>node.
       (case upsert_status entry (st_configSets (mn_status node)) of
          None \<Rightarrow> ret None
        | Some l \<Rightarrow> api_updateStatus env (OManagedNode (node\<lparr>mn_status := (mn_status node)\<lparr>st_configSets := l\<rparr>\<rparr>)))))
   }"

definition getLocalManagedNode :: "'h env \<Rightarrow> configset_config \<Rightarrow> ('h world, managednode res) state" where
  "getLocalManagedNode env cfg = or_return (ext (h_hostname (e_host env))) id (\<lambda>hostname.
     api_get env as_node KManagedNode (nsn (cc_namespace cfg) hostname))"

definition without_set :: "string \<Rightarrow> configset_apply_status list \<Rightarrow> configset_apply_status list" where
  "without_set name l = filter (\<lambda>c. cas_name c \<noteq> name) l"

text \<open>The gauge of applied versions, with one label set per node and ConfigSet.\<close>

definition rv_key :: "string \<Rightarrow> string \<Rightarrow> string" where
  "rv_key node name = node @ ''/'' @ name"

definition drop_gauge :: "string \<times> string \<times> string \<Rightarrow> (string \<times> string \<times> string) list \<Rightarrow>
    (string \<times> string \<times> string) list" where
  "drop_gauge x g = filter (\<lambda>y. y \<noteq> x) g"

definition record_rv :: "string \<Rightarrow> string \<Rightarrow> string \<Rightarrow> rv_state \<Rightarrow> rv_state" where
  "record_rv node name version s =
     (let prev = (case map_of (rv_last s) (rv_key node name) of Some p \<Rightarrow> p | None \<Rightarrow> []);
          g = (if prev \<noteq> [] \<and> prev \<noteq> version then drop_gauge (node, name, prev) (rv_gauge s) else rv_gauge s)
      in \<lparr>rv_last = AList.update (rv_key node name) version (rv_last s),
          rv_gauge = (if (node, name, version) \<in> set g then g else (node, name, version) # g)\<rparr>)"

definition forget_rv :: "string \<Rightarrow> string \<Rightarrow> rv_state \<Rightarrow> rv_state" where
  "forget_rv node name s =
     (let prev = (case map_of (rv_last s) (rv_key node name) of Some p \<Rightarrow> p | None \<Rightarrow> [])
      in \<lparr>rv_last = AList.delete (rv_key node name) (rv_last s),
          rv_gauge = (if prev \<noteq> [] then drop_gauge (node, name, prev) (rv_gauge s) else rv_gauge s)\<rparr>)"

definition modify_rv :: "(rv_state \<Rightarrow> rv_state) \<Rightarrow> ('h world, unit) state" where
  "modify_rv f = State (\<lambda>w. ((), w\<lparr>w_rv := f (w_rv w)\<rparr>))"

definition recordResourceVersion :: "string \<Rightarrow> string \<Rightarrow> string \<Rightarrow> ('h world, unit) state" where
  "recordResourceVersion node name version = modify_rv (record_rv node name version)"

definition removeConfigSetStatus :: "'h env \<Rightarrow> configset_config \<Rightarrow> string \<Rightarrow> ('h world, unit) state" where
  "removeConfigSetStatus env cfg name = do {
     r \<leftarrow> getLocalManagedNode env cfg;
     (case r of
        Inl _ \<Rightarrow> ret ()
      | Inr node \<Rightarrow> do {
          _ \<leftarrow> (if list_ex (\<lambda>c. cas_name c = name) (st_configSets (mn_status node)) then
                  RetryOnConflict (or_fail (api_get env as_node KManagedNode
                      (nsn (om_namespace (mn_meta node)) (om_name (mn_meta node)))) id (\<lambda>n.
                    api_updateStatus env (OManagedNode (n\<lparr>mn_status := (mn_status n)\<lparr>st_configSets :=
                      without_set name (st_configSets (mn_status n))\<rparr>\<rparr>))))
                else ret None);
          modify_rv (forget_rv (om_name (mn_meta node)) name)
        })
   }"

section \<open>The Conflicted condition\<close>

definition conflict_condition :: "instant \<Rightarrow> int \<Rightarrow> string list \<Rightarrow> condition" where
  "conflict_condition t gen conflicts =
     (if conflicts \<noteq> [] then
        \<lparr>c_type = ''Conflicted'', c_status = CondTrue, c_reason = ''ResourceConflict'',
         c_message = ''resource overlap with another ConfigSet: '' @ show_slice conflicts,
         c_lastTransition = t, c_observedGeneration = gen\<rparr>
      else
        \<lparr>c_type = ''Conflicted'', c_status = CondFalse, c_reason = ''NoConflict'', c_message = [],
         c_lastTransition = t, c_observedGeneration = gen\<rparr>)"

definition same_condition :: "condition \<Rightarrow> condition \<Rightarrow> bool" where
  "same_condition a b \<longleftrightarrow> c_status a = c_status b \<and> c_reason a = c_reason b \<and>
     c_message a = c_message b \<and> c_observedGeneration a = c_observedGeneration b"

definition updateConfigSetCondition :: "'h env \<Rightarrow> nsname \<Rightarrow> string list \<Rightarrow> ('h world, err option) state" where
  "updateConfigSetCondition env req conflicts =
     RetryOnConflict (or_fail (api_get env as_configset KConfigSet req) id (\<lambda>cs. do {
       t \<leftarrow> now (e_host env);
       let new = conflict_condition t (om_generation (cs_meta cs)) conflicts;
       (case FindStatusCondition (cs_conditions cs) (c_type new) of
          Some old \<Rightarrow>
            if same_condition old new then ret None
            else do { u \<leftarrow> now (e_host env);
              api_updateStatus env (OConfigSet (cs\<lparr>cs_conditions := SetStatusCondition u (cs_conditions cs) new\<rparr>)) }
        | None \<Rightarrow> do { u \<leftarrow> now (e_host env);
            api_updateStatus env (OConfigSet (cs\<lparr>cs_conditions := SetStatusCondition u (cs_conditions cs) new\<rparr>)) })
     }))"

section \<open>Notifying other resources\<close>

definition touchNotifyTarget :: "'h env \<Rightarrow> string \<Rightarrow> string \<Rightarrow> nsname \<Rightarrow> string \<Rightarrow> string \<Rightarrow>
    ('h world, unit) state" where
  "touchNotifyTarget env apiVersion kind nn key value = do {
     r \<leftarrow> api_get env as_unstructured (KUnstructured apiVersion kind) nn;
     (case r of
        Inl _ \<Rightarrow> ret ()
      | Inr u \<Rightarrow>
          if (case map_of (om_annotations (u_meta u)) key of Some v \<Rightarrow> v | None \<Rightarrow> []) = value then ret ()
          else do {
            _ \<leftarrow> api_update env (OUnstructured (u\<lparr>u_meta := (u_meta u)\<lparr>om_annotations :=
                  AList.update key value (om_annotations (u_meta u))\<rparr>\<rparr>));
            ret ()
          })
   }"

fun for_each :: "('a \<Rightarrow> ('s, unit) state) \<Rightarrow> 'a list \<Rightarrow> ('s, unit) state" where
  "for_each f [] = ret ()"
| "for_each f (x # xs) = do { f x; for_each f xs }"

definition notify_one :: "'h env \<Rightarrow> configset \<Rightarrow> notify_ref \<Rightarrow> ('h world, unit) state" where
  "notify_one env cs ref =
     (let ns = (if nr_namespace ref = [] then om_namespace (cs_meta cs) else nr_namespace ref);
          key = ''nodemanager.io/notify-'' @ om_name (cs_meta cs);
          value = Itoa (om_generation (cs_meta cs))
      in if nr_name ref \<noteq> [] then
           touchNotifyTarget env (nr_apiVersion ref) (nr_kind ref) (nsn ns (nr_name ref)) key value
         else do {
           r \<leftarrow> api_list env as_unstructured (KUnstructured (nr_apiVersion ref) (nr_kind ref)) (Some ns);
           (case r of
              Inl _ \<Rightarrow> ret ()
            | Inr items \<Rightarrow> for_each (\<lambda>u. touchNotifyTarget env (nr_apiVersion ref) (nr_kind ref)
                (nsn (om_namespace (u_meta u)) (om_name (u_meta u))) key value) items)
         })"

definition notifyResources :: "'h env \<Rightarrow> configset \<Rightarrow> ('h world, unit) state" where
  "notifyResources env cs = for_each (notify_one env cs) (css_notifies (cs_spec cs))"

section \<open>Watches\<close>

definition request_of :: "configset \<Rightarrow> nsname" where
  "request_of cs = nsn (om_namespace (cs_meta cs)) (om_name (cs_meta cs))"

definition configSetsReferencing :: "'h env \<Rightarrow> (managed_file \<Rightarrow> string list) \<Rightarrow> nsname \<Rightarrow>
    ('h world, nsname list) state" where
  "configSetsReferencing env refs obj = do {
     r \<leftarrow> api_list env as_configset KConfigSet (Some (ns_namespace obj));
     ret (case r of
            Inl _ \<Rightarrow> []
          | Inr l \<Rightarrow> map request_of (filter (\<lambda>cs.
              list_ex (\<lambda>f. ns_name obj \<in> set (refs f)) (css_files (cs_spec cs))) l))
   }"

definition configSetsReferencingSecret :: "'h env \<Rightarrow> nsname \<Rightarrow> ('h world, nsname list) state" where
  "configSetsReferencingSecret env obj = configSetsReferencing env f_secretRefs obj"

definition configSetsReferencingConfigMap :: "'h env \<Rightarrow> nsname \<Rightarrow> ('h world, nsname list) state" where
  "configSetsReferencingConfigMap env obj = configSetsReferencing env f_configMapRefs obj"

definition configSetsOnNodeChange :: "'h env \<Rightarrow> configset_config \<Rightarrow> string \<Rightarrow> nsname \<Rightarrow>
    ('h world, nsname list) state" where
  "configSetsOnNodeChange env cfg hostname obj =
     (if ns_name obj \<noteq> hostname then ret []
      else do {
        r \<leftarrow> api_list env as_configset KConfigSet (Some (cc_namespace cfg));
        ret (case r of Inl _ \<Rightarrow> [] | Inr l \<Rightarrow> map request_of l)
      })"

section \<open>The schedule of the filebucket's garbage collection\<close>

definition updateLastGCTimestamp :: "'h env \<Rightarrow> managednode \<Rightarrow> ('h world, unit) state" where
  "updateLastGCTimestamp env node = do {
     _ \<leftarrow> RetryOnConflict (or_fail (api_get env as_node KManagedNode
           (nsn (om_namespace (mn_meta node)) (om_name (mn_meta node)))) id (\<lambda>n. do {
         t \<leftarrow> now (e_host env);
         api_updateStatus env (OManagedNode (n\<lparr>mn_status := (mn_status n)\<lparr>st_lastFileBucketGC := Some t\<rparr>\<rparr>))
       }));
     ret ()
   }"

definition maybeRunGC :: "'h env \<Rightarrow> configset_config \<Rightarrow> ('h world, unit) state" where
  "maybeRunGC env cfg = do {
     r \<leftarrow> getLocalManagedNode env cfg;
     (case r of
        Inl _ \<Rightarrow> ret ()
      | Inr node \<Rightarrow> do {
          t \<leftarrow> now (e_host env);
          if (case st_lastFileBucketGC (mn_status node) of
                Some l \<Rightarrow> time_sub t l < cc_bucketMaxAge cfg | None \<Rightarrow> False) then ret ()
          else do {
            e \<leftarrow> GCFileBucket (e_host env) (cc_bucketPath cfg) (cc_bucketMaxAge cfg);
            (case e of Some _ \<Rightarrow> ret () | None \<Rightarrow> updateLastGCTimestamp env node)
          }
        })
   }"

section \<open>File backups\<close>

definition updateFileBackups :: "'h env \<Rightarrow> string \<Rightarrow> string \<Rightarrow> string smap \<Rightarrow> ('h world, err option) state" where
  "updateFileBackups env nodeName nodeNamespace updates =
     RetryOnConflict (or_fail (api_get env as_node KManagedNode (nsn nodeNamespace nodeName)) id (\<lambda>node.
       api_updateStatus env (OManagedNode (node\<lparr>mn_status := (mn_status node)\<lparr>st_fileBackups :=
         copy_map (st_fileBackups (mn_status node)) updates\<rparr>\<rparr>))))"

section \<open>Reconcile\<close>

text \<open>
  The result of a reconcile: after how long to run again (zero: not by itself) and the error that
  makes the work queue retry with its own backoff.
\<close>

type_synonym reconcile_result = "requeue \<times> err option"

text \<open>The four phases in order; every phase runs, whatever the ones before it returned.\<close>

definition apply_configset :: "'h env \<Rightarrow> configset_config \<Rightarrow> marshal \<Rightarrow> nsname \<Rightarrow> configset \<Rightarrow> managednode \<Rightarrow>
    ('h world, string smap \<times> err option) state" where
  "apply_configset env cfg marshal req cs node = do {
     pkgErr \<leftarrow> handlePackageSet env (css_packages (cs_spec cs));
     (changedFiles, backups, fileErr) \<leftarrow>
       handleFileSet env cfg marshal (ns_namespace req) (css_files (cs_spec cs)) node;
     svcErr \<leftarrow> handleServiceSet env (ns_namespace req) (css_services (cs_spec cs)) (css_files (cs_spec cs))
       changedFiles;
     execErr \<leftarrow> handleExecutions env (css_executions (cs_spec cs)) changedFiles;
     ret (backups, join_opts [pkgErr, fileErr, svcErr, execErr])
   }"

definition finish_configset :: "'h env \<Rightarrow> configset_config \<Rightarrow> configset \<Rightarrow> managednode \<Rightarrow> string smap \<Rightarrow>
    err option \<Rightarrow> ('h world, reconcile_result) state" where
  "finish_configset env cfg cs node backups e = do {
     let nodeName = om_name (mn_meta node);
     let ns = om_namespace (mn_meta node);
     let name = om_name (cs_meta cs);
     let version = om_resourceVersion (cs_meta cs);
     _ \<leftarrow> (if backups \<noteq> [] then updateFileBackups env nodeName ns backups else ret None);
     _ \<leftarrow> (if e = None then recordResourceVersion nodeName name version else ret ());
     _ \<leftarrow> updateConfigSetStatus env nodeName ns name version e [];
     (case e of
        Some _ \<Rightarrow> ret (30 * second, None)
      | None \<Rightarrow> do {
          notifyResources env cs;
          ret (if 0 < cc_reconcilePeriod cfg then cc_reconcilePeriod cfg else 0, None)
        })
   }"

definition report_conflicts :: "'h env \<Rightarrow> nsname \<Rightarrow> configset \<Rightarrow> managednode \<Rightarrow> string list \<Rightarrow>
    ('h world, reconcile_result) state" where
  "report_conflicts env req cs node conflicts = do {
     _ \<leftarrow> updateConfigSetStatus env (om_name (mn_meta node)) (om_namespace (mn_meta node))
           (om_name (cs_meta cs)) (om_resourceVersion (cs_meta cs)) None conflicts;
     _ \<leftarrow> updateConfigSetCondition env req conflicts;
     ret (60 * second, None)
   }"

definition reconcile_found :: "'h env \<Rightarrow> configset_config \<Rightarrow> marshal \<Rightarrow> nsname \<Rightarrow> configset \<Rightarrow> managednode \<Rightarrow>
    ('h world, reconcile_result) state" where
  "reconcile_found env cfg marshal req cs node =
     (if nodeLabelMatch node (om_labels (cs_meta cs)) \<noteq> None then do {
        removeConfigSetStatus env cfg (om_name (cs_meta cs));
        ret (120 * second, None)
      } else do {
        c \<leftarrow> detectConflicts env cs node;
        (case c of
           Inl _ \<Rightarrow> ret (30 * second, None)
         | Inr conflicts \<Rightarrow>
             if conflicts \<noteq> [] then report_conflicts env req cs node conflicts
             else do {
               _ \<leftarrow> updateConfigSetCondition env req [];
               (backups, e) \<leftarrow> apply_configset env cfg marshal req cs node;
               finish_configset env cfg cs node backups e
             })
      })"

definition ConfigSet_Reconcile :: "'h env \<Rightarrow> configset_config \<Rightarrow> marshal \<Rightarrow> nsname \<Rightarrow>
    ('h world, reconcile_result) state" where
  "ConfigSet_Reconcile env cfg marshal req = do {
     c \<leftarrow> ext (h_ctxErr (e_host env));
     if c \<noteq> None then ret (0, None)
     else do {
       r \<leftarrow> api_get env as_configset KConfigSet req;
       (case r of
          Inl e \<Rightarrow> do {
            _ \<leftarrow> (if is_not_found e then removeConfigSetStatus env cfg (ns_name req) else ret ());
            ret (0, ignore_not_found e)
          }
        | Inr cs \<Rightarrow> do {
            n \<leftarrow> createOrGetNode env req;
            (case n of
               Inl _ \<Rightarrow> ret (30 * second, None)
             | Inr node \<Rightarrow> reconcile_found env cfg marshal req cs node)
          })
     }
   }"

end
