(* ===== verification/ConfigSetCorrect.thy ===== *)
theory ConfigSetCorrect
  imports ConfigSet Trace
begin

text \<open>
  What the ConfigSet reconciler guarantees: conflict detection is exact; nothing is applied to a host
  whose labels do not match or while there is a conflict; packages, services and executions are
  handled exactly as declared; files end up with the declared content and mode; a purge removes only
  files no matching ConfigSet declares; the status record keeps one entry per ConfigSet.
\<close>

section \<open>A small environment for examples\<close>

definition demo_ini :: ini where
  "demo_ini content key = ''arch''"

definition demo_env :: "api env" where
  "demo_env = \<lparr>e_host = ref_host, e_client = store_client, e_system = ArchLinux ref_host demo_ini ''amd64'' ''linux'',
     e_locker = lease_Locker ref_host store_client (NewLeaseLocker default_locker_config ''ns'' ''n1'')\<rparr>"

definition demo_node :: managednode where
  "demo_node = empty_node\<lparr>mn_meta := empty_meta\<lparr>om_name := ''n1'', om_namespace := ''ns'',
     om_labels := [(''role'', ''web'')]\<rparr>\<rparr>"

definition demo_world :: "((kind \<times> nsname) \<times> kobj) list \<Rightarrow> fs \<Rightarrow> api world" where
  "demo_world objs f = \<lparr>w_fs = f, w_trace = [], w_rv = \<lparr>rv_last = [], rv_gauge = []\<rparr>,
     w_ext = \<lparr>as_objs = objs, as_rv = 0, as_now = 0, as_hostname = ''n1''\<rparr>\<rparr>"

definition demo_spec :: configset_spec where
  "demo_spec = \<lparr>css_files = [], css_packages = [], css_services = [], css_executions = [], css_notifies = []\<rparr>"

definition demo_set :: "string \<Rightarrow> configset_spec \<Rightarrow> configset" where
  "demo_set name spec = \<lparr>cs_meta = empty_meta\<lparr>om_name := name, om_namespace := ''ns'',
     om_labels := [(''role'', ''web'')]\<rparr>, cs_spec = spec, cs_conditions = []\<rparr>"

section \<open>Conflicts\<close>

lemma dom_update_fold:
  "dom (map_of (fold (\<lambda>k. AList.update k v) ks m)) = set ks \<union> dom (map_of m)"
  by (induction ks arbitrary: m) (auto simp: AList.update_conv')

lemma dom_claim_fold:
  "dom (map_of (fold (\<lambda>cs m. fold (\<lambda>k. AList.update k (nm cs)) (keys cs) m) others m)) =
     (\<Union>cs \<in> set others. set (keys cs)) \<union> dom (map_of m)"
  by (induction others arbitrary: m) (auto simp: dom_update_fold)

lemma dom_claim_all:
  "dom (map_of (claim_all keys others)) = (\<Union>cs \<in> set others. set (keys (cs_spec cs)))"
  unfolding claim_all_def by (simp add: dom_claim_fold)

lemma conflicts_of_Nil:
  "conflicts_of what (claim_all keys others) names = [] \<longleftrightarrow>
   (\<forall>cs \<in> set others. set names \<inter> set (keys (cs_spec cs)) = {})"
proof -
  have "conflicts_of what m names = [] \<longleftrightarrow> (\<forall>n \<in> set names. map_of m n = None)" for m
    by (induction names) (auto simp: conflicts_of_def List.map_filter_def)
  moreover have "map_of (claim_all keys others) n = None \<longleftrightarrow> (\<forall>cs \<in> set others. n \<notin> set (keys (cs_spec cs)))" for n
    using dom_claim_all[of keys others] by (auto simp: domIff)
  ultimately show ?thesis by auto
qed

definition disjoint_sets :: "configset \<Rightarrow> configset \<Rightarrow> bool" where
  "disjoint_sets a b \<longleftrightarrow> set (file_keys (cs_spec a)) \<inter> set (file_keys (cs_spec b)) = {} \<and>
     set (service_keys (cs_spec a)) \<inter> set (service_keys (cs_spec b)) = {} \<and>
     set (package_keys (cs_spec a)) \<inter> set (package_keys (cs_spec b)) = {}"

lemma conflicts_with_Nil: "conflicts_with cs others = [] \<longleftrightarrow> (\<forall>o' \<in> set others. disjoint_sets cs o')"
  by (auto simp: conflicts_with_def conflicts_of_Nil disjoint_sets_def)


definition demo_pkg_set :: "string \<Rightarrow> configset" where
  "demo_pkg_set name = demo_set name (demo_spec\<lparr>css_packages :=
     [\<lparr>p_ensure = ''installed'', p_name = ''vim'', p_version = []\<rparr>]\<rparr>)"

definition demo_conflict_world :: "api world" where
  "demo_conflict_world = demo_world [((KConfigSet, nsn ''ns'' ''b''), OConfigSet (demo_pkg_set ''b''))] []"

lemma demo_conflict_list:
  "run_state (api_list demo_env as_configset KConfigSet (Some (om_namespace (cs_meta (demo_pkg_set ''a'')))))
     demo_conflict_world = (Inr [demo_pkg_set ''b''], demo_conflict_world)"
  by (simp add: api_list_def demo_env_def store_client_def demo_conflict_world_def demo_world_def
      demo_pkg_set_def demo_set_def nsn_def decode_list_def List.map_filter_def)


section \<open>Nothing is applied without a match, or under a conflict\<close>

definition is_api :: "event \<Rightarrow> bool" where
  "is_api e = (case e of EvApi _ _ _ \<Rightarrow> True | _ \<Rightarrow> False)"

lemma is_api_EvApi [simp]: "is_api (EvApi v x b)"
  by (simp add: is_api_def)

text \<open>\<open>untouched w w'\<close>: between the two worlds no command ran, no handler was called and no file changed.\<close>

definition untouched :: "'h world \<Rightarrow> 'h world \<Rightarrow> bool" where
  "untouched w w' \<longleftrightarrow> w_fs w' = w_fs w \<and> (\<exists>es. w_trace w' = w_trace w @ es \<and> list_all is_api es)"

lemma untouchedI: "emits is_api m \<Longrightarrow> leaves w_fs m \<Longrightarrow> run_state m w = (r, w') \<Longrightarrow> untouched w w'"
  unfolding untouched_def using emitsD[of is_api m w r w'] leavesD[of w_fs m w r w'] by simp

lemma untouched_trans:
  assumes "untouched a b" and "untouched b c"
  shows "untouched a c"
proof -
  obtain es fs where "w_trace b = w_trace a @ es" "list_all is_api es" "w_trace c = w_trace b @ fs"
    "list_all is_api fs" using assms by (auto simp: untouched_def)
  then have "w_trace c = w_trace a @ (es @ fs) \<and> list_all is_api (es @ fs)" by simp
  with assms show ?thesis unfolding untouched_def by metis
qed

lemma leaves_modify_rv [leaves_rules]: "leaves w_fs (modify_rv f)"
  by (simp add: leaves_def modify_rv_def)

lemma emits_modify_rv [emits_rules]: "emits P (modify_rv f)"
  by (simp add: emits_def modify_rv_def)

lemma status_updates_quiet:
  "emits is_api (updateConfigSetStatus env a b c d e f)" "leaves w_fs (updateConfigSetStatus env a b c d e f)"
  "emits is_api (updateConfigSetCondition env req l)" "leaves w_fs (updateConfigSetCondition env req l)"
  "emits is_api (removeConfigSetStatus env cfg n)" "leaves w_fs (removeConfigSetStatus env cfg n)"
  "emits is_api (detectConflicts env cs node)" "leaves w_fs (detectConflicts env cs node)"
  unfolding updateConfigSetStatus_def updateConfigSetCondition_def removeConfigSetStatus_def
    getLocalManagedNode_def detectConflicts_def Let_def
  by ((intro emits_rules leaves_rules); simp)+

lemma report_conflicts_quiet:
  "emits is_api (report_conflicts env req cs node l)" "leaves w_fs (report_conflicts env req cs node l)"
  unfolding report_conflicts_def by (intro emits_rules leaves_rules status_updates_quiet)+

lemma reconcile_found_cases:
  assumes "run_state (reconcile_found env cfg marshal req cs node) w = (r, w')"
  shows "untouched w w' \<or> matchAllLabels (om_labels (mn_meta node)) (om_labels (cs_meta cs)) \<and>
    (\<exists>w1. run_state (detectConflicts env cs node) w = (Inr [], w1))"
proof (cases "nodeLabelMatch node (om_labels (cs_meta cs)) = None")
  case False
  have "emits is_api (reconcile_found env cfg marshal req cs node)"
    "leaves w_fs (reconcile_found env cfg marshal req cs node)"
    using False unfolding reconcile_found_def
    by (simp_all add: emits_bind leaves_bind emits_ret leaves_ret status_updates_quiet)
  from untouchedI[OF this assms] show ?thesis ..
next
  case match: True
  obtain c w1 where c: "run_state (detectConflicts env cs node) w = (c, w1)" by fastforce
  have u: "untouched w w1" using untouchedI[OF status_updates_quiet(7,8) c] .
  consider (err) e where "c = Inl e" | (conf) l where "c = Inr l" "l \<noteq> []" | (free) "c = Inr []"
    by (cases c) auto
  then show ?thesis
  proof cases
    case err
    with assms match c u show ?thesis by (simp add: reconcile_found_def)
  next
    case conf
    then have "run_state (report_conflicts env req cs node l) w1 = (r, w')"
      using assms match c by (simp add: reconcile_found_def)
    then have "untouched w1 w'" by (rule untouchedI[OF report_conflicts_quiet])
    with u untouched_trans show ?thesis by blast
  next
    case free
    with match c show ?thesis by simp
  qed
qed

text \<open>C2: Whatever a reconcile does to the host, a command, a handler call or a changed file, it does
  only when its context is alive, for the ConfigSet that the API server then returned, when the labels
  of the local node read after that contain all labels of the ConfigSet and conflict detection, run on
  what was read, found no overlap. In every other case the
  reconcile only writes API objects.\<close>

theorem apply_needs_match_and_no_conflict:
  "untouched w (snd (run_state (ConfigSet_Reconcile env cfg marshal req) w)) \<or>
   (\<exists>cs node w1 w2 w3 w4. run_state (ext (h_ctxErr (e_host env))) w = (None, w1) \<and>
      run_state (api_get env as_configset KConfigSet req) w1 = (Inr cs, w2) \<and>
      run_state (createOrGetNode env req) w2 = (Inr node, w3) \<and>
      matchAllLabels (om_labels (mn_meta node)) (om_labels (cs_meta cs)) \<and>
      run_state (detectConflicts env cs node) w3 = (Inr [], w4))"
proof -
  obtain r w' where run: "run_state (ConfigSet_Reconcile env cfg marshal req) w = (r, w')" by fastforce
  obtain c w1 where c: "run_state (ext (h_ctxErr (e_host env))) w = (c, w1)" by fastforce
  have u1: "untouched w w1" using untouchedI[OF emits_ext leaves_fs_prim(3) c] .
  obtain g w2 where g: "run_state (api_get env as_configset KConfigSet req) w1 = (g, w2)" by fastforce
  have u2: "untouched w1 w2" using untouchedI[OF emits_api_read(1) leaves_api(1) g] .
  consider (cancelled) "w' = w1"
    | (gone) e where "g = Inl e" "is_not_found e" "run_state (removeConfigSetStatus env cfg (ns_name req)) w2 = ((), w')"
    | (failed) "w' = w2"
    | (found) cs where "g = Inr cs"
    using run c g by (cases g) (auto simp: ConfigSet_Reconcile_def split: if_splits prod.splits)
  then show ?thesis
  proof cases
    case found
    obtain n w3 where n: "run_state (createOrGetNode env req) w2 = (n, w3)" by fastforce
    have "emits is_api (createOrGetNode env req)" by (intro emits_rules) simp
    then have u3: "untouched w2 w3" using untouchedI[OF _ leaves_createOrGetNode n] by simp
    show ?thesis
    proof (cases n)
      case (Inl e)
      with run c g n found have "w' = w3 \<or> w' = w1"
        by (auto simp: ConfigSet_Reconcile_def split: if_splits)
      with run u1 u2 u3 show ?thesis by (metis snd_conv untouched_trans)
    next
      case (Inr node)
      show ?thesis
      proof (cases "c = None")
        case True
        then have "run_state (reconcile_found env cfg marshal req cs node) w3 = (r, w')"
          using run c g n found Inr by (simp add: ConfigSet_Reconcile_def)
        note cases = reconcile_found_cases[OF this]
        have u: "untouched w w3" by (rule untouched_trans[OF untouched_trans[OF u1 u2] u3])
        from cases show ?thesis
        proof
          assume "untouched w3 w'"
          with untouched_trans[OF u] run show ?thesis by simp
        next
          assume "matchAllLabels (om_labels (mn_meta node)) (om_labels (cs_meta cs)) \<and>
            (\<exists>w1. run_state (detectConflicts env cs node) w3 = (Inr [], w1))"
          with True c g n found Inr show ?thesis by blast
        qed
      next
        case False
        with run c u1 show ?thesis by (simp add: ConfigSet_Reconcile_def)
      qed
    qed
  next
    case gone
    have "untouched w2 w'" using untouchedI[OF status_updates_quiet(5,6) gone(3)] .
    with run u1 u2 show ?thesis by (metis snd_conv untouched_trans)
  qed (use run u1 u2 untouched_trans in \<open>metis snd_conv\<close>)+
qed

section \<open>Packages, services and executions\<close>

lemma makes_collect:
  assumes "\<And>x. x \<in> set xs \<Longrightarrow> makes (\<lambda>errs es. calls_of es = f x \<and> (errs = [] \<longleftrightarrow> all_ok es \<and> ok x)) (g x)"
  shows "makes (\<lambda>errs es. calls_of es = concat (map f xs) \<and> (errs = [] \<longleftrightarrow> all_ok es \<and> (\<forall>x \<in> set xs. ok x)))
    (collect g xs)"
  using assms
proof (induction xs)
  case (Cons x xs)
  have "makes (\<lambda>errs es. calls_of es = concat (map f xs) \<and> (errs = [] \<longleftrightarrow> all_ok es \<and> (\<forall>x \<in> set xs. ok x)))
      (collect g xs)" using Cons by simp
  note rest = makes_bind[OF this, where f = "\<lambda>rest. ret (es @ rest)" for es]
  show ?case
    unfolding collect.simps
    by (rule makes_bind[OF Cons.prems[of x]], simp, rule rest) (auto intro!: makes_ret)
qed (auto intro: makes_ret)

definition installed_as :: "string smap \<Rightarrow> package \<Rightarrow> bool" where
  "installed_as pkgs p \<longleftrightarrow> (\<exists>v. map_of pkgs (p_name p) = Some v \<and> (p_version p = [] \<or> v = p_version p))"

text \<open>What has to be done for a package, given what is installed.\<close>

definition package_calls :: "string smap \<Rightarrow> package \<Rightarrow> call list" where
  "package_calls pkgs p = (case PackageEnsureFromString (p_ensure p) of
     Installed \<Rightarrow> if installed_as pkgs p then [] else [PkgInstall (p_name p) (p_version p)]
   | AbsentP \<Rightarrow> if p_name p \<in> dom (map_of pkgs) then [PkgRemove (p_name p)] else []
   | UnhandledPackageEnsure \<Rightarrow> [])"

context system_service
begin

lemma makes_call_errs:
  assumes "emits is_exec m"
  shows "makes (\<lambda>errs es. calls_of es = [c] \<and> (errs = [] \<longleftrightarrow> all_ok es)) (called c m \<bind> (\<lambda>e. ret (opt_err f e)))"
  by (rule makes_bind[OF makes_called[OF assms]]) (auto intro!: makes_ret)

lemma handle_package_makes:
  assumes "e_system env = sys"
  shows "makes (\<lambda>errs es. calls_of es = package_calls pkgs p \<and>
    (errs = [] \<longleftrightarrow> all_ok es \<and> PackageEnsureFromString (p_ensure p) \<noteq> UnhandledPackageEnsure))
    (handle_package env pkgs p)"
proof (cases "PackageEnsureFromString (p_ensure p)")
  case Installed
  have "(case map_of pkgs (p_name p) of None \<Rightarrow> True | Some v \<Rightarrow> p_version p \<noteq> [] \<and> v \<noteq> p_version p) \<longleftrightarrow>
      \<not> installed_as pkgs p"
    by (auto simp: installed_as_def split: option.splits)
  then show ?thesis
    using Installed assms
      makes_call_errs[OF package_emits(1), of "PkgInstall (p_name p) (p_version p)" "p_name p" "p_version p" id]
    by (auto simp: handle_package_def package_calls_def intro: makes_ret)
next
  case AbsentP
  then show ?thesis
    using assms makes_call_errs[OF package_emits(2), of "PkgRemove (p_name p)" "p_name p" id]
    by (auto simp: handle_package_def package_calls_def domIff intro: makes_ret)
next
  case UnhandledPackageEnsure
  then show ?thesis by (auto simp: handle_package_def package_calls_def intro: makes_ret)
qed

lemma handlePackageSet_calls:
  assumes "e_system env = sys" and list: "run_state (ph_List (sy_package sys)) w = (Inr pkgs, w1)"
    and run: "run_state (handlePackageSet env ps) w = (e, w')"
  shows "\<exists>es. w_trace w' = w_trace w @ es \<and> calls_of es = concat (map (package_calls pkgs) ps) \<and>
    (e = None \<longleftrightarrow> all_ok es \<and> (\<forall>p \<in> set ps. PackageEnsureFromString (p_ensure p) \<noteq> UnhandledPackageEnsure))"
proof -
  obtain errs where c: "run_state (collect (handle_package env pkgs) ps) w1 = (errs, w')" "e = errors_join errs"
    using run list assms(1) by (auto simp: handlePackageSet_def split: prod.splits)
  obtain ls where ls: "w_trace w1 = w_trace w @ ls" "list_all is_exec ls"
    using emitsD[OF package_emits(3) list] by blast
  obtain es where es: "w_trace w' = w_trace w1 @ es" "calls_of es = concat (map (package_calls pkgs) ps)"
      "errs = [] \<longleftrightarrow> all_ok es \<and> (\<forall>p \<in> set ps. PackageEnsureFromString (p_ensure p) \<noteq> UnhandledPackageEnsure)"
    using makesD[OF makes_collect[OF handle_package_makes[OF assms(1)]] c(1)] by auto
  have "calls_of ls = []" "all_ok ls"
    using visible_execs[OF ls(2)] visible_calls[of ls] by auto
  with ls es c(2) show ?thesis by (intro exI[of _ "ls @ es"]) simp
qed

end

text \<open>C13: Packages are handled exactly as declared. Given the installed packages, the handler calls are,
  in the declared order, an install for each wanted package that is missing or has another version than
  the pinned one, and a removal for each unwanted package that is there; nothing else is called, a
  failure does not stop the rest, and the result is an error exactly if a call failed or a package has
  an unknown \<open>ensure\<close>.\<close>

theorem packages_exactly_as_declared:
  assumes "system_service (e_system env)"
    and "run_state (ph_List (sy_package (e_system env))) w = (Inr pkgs, w1)"
    and "run_state (handlePackageSet env ps) w = (e, w')"
  shows "\<exists>es. w_trace w' = w_trace w @ es \<and> calls_of es = concat (map (package_calls pkgs) ps) \<and>
    (e = None \<longleftrightarrow> all_ok es \<and> (\<forall>p \<in> set ps. PackageEnsureFromString (p_ensure p) \<noteq> UnhandledPackageEnsure))"
  using system_service.handlePackageSet_calls[OF assms(1) refl assms(2,3)] .

lemma demo_list: "\<exists>w1. run_state (ph_List (sy_package (e_system demo_env))) (demo_world [] []) = (Inr [], w1)"
  by (auto simp: demo_env_def ArchLinux_def Pacman_def pacman_List_def RunCommand_def run_proc_def ref_host_def
      proc_result_def scan_lines_def demo_world_def)

lemma demo_system: "system_service (e_system demo_env)"
  unfolding demo_env_def using arch.system_service_axioms by simp

theorem packages_exactly_as_declared_witness:
  "\<exists>e w' es. run_state (handlePackageSet demo_env [\<lparr>p_ensure = ''installed'', p_name = ''vim'', p_version = []\<rparr>])
     (demo_world [] []) = (e, w') \<and> w_trace w' = es \<and> calls_of es = [PkgInstall ''vim'' []]"
proof -
  obtain w1 where l: "run_state (ph_List (sy_package (e_system demo_env))) (demo_world [] []) = (Inr [], w1)"
    using demo_list by blast
  obtain e w' where r: "run_state (handlePackageSet demo_env
      [\<lparr>p_ensure = ''installed'', p_name = ''vim'', p_version = []\<rparr>]) (demo_world [] []) = (e, w')" by fastforce
  from packages_exactly_as_declared[OF demo_system l r] r show ?thesis
    by (auto simp: package_calls_def installed_as_def PackageEnsureFromString_def PackageEnsureByName_def
        demo_world_def)
qed

text \<open>Which restarts a change of files calls for.\<close>

definition wants_restart :: "string list \<Rightarrow> service \<Rightarrow> bool" where
  "wants_restart changedFiles svc \<longleftrightarrow> s_ensure svc = ''running'' \<and> set (s_subscribeFiles svc) \<inter> set changedFiles \<noteq> {}"

lemma note_services:
  "set (fold (note_service cf) svcs m) \<subseteq>
     set m \<union> {(s_name s, s) | s. s \<in> set svcs \<and> s_ensure s = ''running'' \<and> cf \<in> set (s_subscribeFiles s)}"
proof (induction svcs arbitrary: m)
  case (Cons a svcs)
  have "set (AList.update k v m) \<subseteq> insert (k, v) (set m)" for k and v :: service
    by (induction m) auto
  with Cons[of "note_service cf a m"] show ?case by (fastforce simp: note_service_def split: if_splits)
qed simp

lemma union_chain: "X \<subseteq> Y \<union> A \<Longrightarrow> Y \<subseteq> M \<union> B \<Longrightarrow> A \<subseteq> C \<Longrightarrow> B \<subseteq> C \<Longrightarrow> X \<subseteq> M \<union> C"
  by blast

lemma restart_services_sub:
  "set (restart_services changed svcs) \<subseteq> {(s_name s, s) | s. s \<in> set svcs \<and> wants_restart changed s}"
proof -
  have "set (fold (\<lambda>cf m. fold (note_service cf) svcs m) changed m) \<subseteq>
      set m \<union> {(s_name s, s) | s. s \<in> set svcs \<and> wants_restart changed s}" for m
  proof (induction changed arbitrary: m)
    case (Cons cf changed)
    have sub1: "{(s_name s, s) | s. s \<in> set svcs \<and> s_ensure s = ''running'' \<and> cf \<in> set (s_subscribeFiles s)} \<subseteq>
        {(s_name s, s) | s. s \<in> set svcs \<and> wants_restart (cf # changed) s}"
      by (auto simp: wants_restart_def)
    have sub2: "{(s_name s, s) | s. s \<in> set svcs \<and> wants_restart changed s} \<subseteq>
        {(s_name s, s) | s. s \<in> set svcs \<and> wants_restart (cf # changed) s}"
      by (auto simp: wants_restart_def)
    show ?case
      using union_chain[OF Cons[of "fold (note_service cf) svcs m"] note_services sub2 sub1] by simp
  qed simp
  from this[of "[]"] show ?thesis by (simp add: restart_services_def)
qed

lemma dom_note_services:
  "dom (map_of (fold (note_service cf) svcs m)) =
     dom (map_of m) \<union> {s_name s | s. s \<in> set svcs \<and> s_ensure s = ''running'' \<and> cf \<in> set (s_subscribeFiles s)}"
  by (induction svcs arbitrary: m) (auto simp: note_service_def AList.update_conv')

lemma dom_restart_services:
  "dom (map_of (restart_services changed svcs)) = {s_name s | s. s \<in> set svcs \<and> wants_restart changed s}"
proof -
  have "dom (map_of (fold (\<lambda>cf m. fold (note_service cf) svcs m) changed m)) =
      dom (map_of m) \<union> {s_name s | s. s \<in> set svcs \<and> wants_restart changed s}" for m
    by (induction changed arbitrary: m) (auto simp: dom_note_services wants_restart_def)
  from this[of "[]"] show ?thesis by (simp add: restart_services_def)
qed

text \<open>A restart of a service in a lock group is bracketed by lock and unlock.\<close>

definition restart_events :: "string \<Rightarrow> service \<Rightarrow> err option \<Rightarrow> event list \<Rightarrow> bool" where
  "restart_events namespace svc e es \<longleftrightarrow>
     (let req = nsn namespace (s_lockGroup svc); restart = EvCall (SvcRestart (s_name svc)) (e = None) in
      if s_lockGroup svc = [] then es = [restart]
      else es = [EvCall (LockCall req) False] \<and> e \<noteq> None \<or>
           (\<exists>released. es = [EvCall (LockCall req) True, restart, EvCall (UnlockCall req) released]))"

context system_service
begin

lemma makes_restart_call:
  assumes "e_system env = sys"
  shows "makes (\<lambda>e es. es = [EvCall (SvcRestart (s_name svc)) (e = None)]) (restart_call env svc)"
  unfolding restart_call_def assms
  by (rule makes_bind[OF makes_called[OF service_emits(5)]]) (auto intro!: makes_ret)

lemma makes_lock_calls:
  "makes (\<lambda>e es. es = [EvCall (LockCall req) (e = None)]) (locked_call env req)"
  "makes (\<lambda>e es. es = [EvCall (UnlockCall req) (e = None)]) (unlock_call env req)"
  unfolding locked_call_def unlock_call_def by (rule makes_called, rule emits_ext)+

lemma makes_restartF:
  assumes "e_system env = sys"
  shows "makes (restart_events namespace svc) (restartF env namespace svc)"
proof (cases "s_lockGroup svc = []")
  case True
  then show ?thesis
    by (simp add: restartF_def) (rule makes_mono[OF makes_restart_call[OF assms]], simp add: restart_events_def)
next
  case False
  let ?req = "nsn namespace (s_lockGroup svc)"
  let ?run = "restart_call env svc \<bind> (\<lambda>e. unlock_call env ?req \<bind> (\<lambda>_. ret e))"
  have run: "makes (\<lambda>e es. \<exists>released. es = [EvCall (SvcRestart (s_name svc)) (e = None),
      EvCall (UnlockCall ?req) released]) ?run"
    by (rule makes_bind[OF makes_restart_call[OF assms]], simp, rule makes_bind[OF makes_lock_calls(2)])
      (auto intro!: makes_ret)
  show ?thesis
    unfolding restartF_def check_fail_def Let_def
  proof (simp add: False, rule makes_bind[OF makes_lock_calls(1)])
    fix x :: "err option" and es assume "es = [EvCall (LockCall ?req) (x = None)]"
    then show "makes (\<lambda>r fs. restart_events namespace svc r (es @ fs))
        (case x of None \<Rightarrow> ?run | Some y \<Rightarrow> ret (Some (Wrap ''failed to acquire lock'' y)))"
      using False by (cases x)
        (auto simp: restart_events_def intro!: makes_ret makes_mono[OF run])
  qed
qed

lemma emits_handlers:
  assumes "e_system env = sys" and "\<And>e. is_exec e \<Longrightarrow> P e"
    and "\<And>c b. (\<forall>n. c \<noteq> SvcRestart n) \<Longrightarrow> P (EvCall c b)"
  shows "emits P (handle_service env fs svc)"
proof -
  note sub = emits_mono[OF _ assms(2)]
  have h: "emits P (sh_Enable (sy_service sys u) n)" "emits P (sh_Disable (sy_service sys u) n)"
    "emits P (sh_Start (sy_service sys u) n)" "emits P (sh_Stop (sy_service sys u) n)"
    "emits P (sh_Status (sy_service sys u) n)" "emits P (sh_SetArguments (sy_service sys u) n a)" for u n a
    by (rule sub, rule service_emits, assumption)+
  have st: "emits P (case x of UnknownServiceStatus \<Rightarrow> m | Running \<Rightarrow> m1 | Stopped \<Rightarrow> m2)"
    if "emits P m" "emits P m1" "emits P m2" for x and m m1 m2 :: "('a world, err list) state"
    using that by (cases x) auto
  show ?thesis
    unfolding handle_service_def configure_service_def Let_def assms(1)
    by (intro emits_rules h st) (auto intro: assms(3))
qed

lemma emits_restartF:
  assumes "e_system env = sys" and "\<And>e. is_exec e \<Longrightarrow> P e"
    and "\<And>c b. (\<forall>n. c \<noteq> SvcRestart n) \<Longrightarrow> P (EvCall c b)" and "\<And>b. P (EvCall (SvcRestart (s_name svc)) b)"
  shows "emits P (restartF env ns svc)"
proof -
  have "emits P (sh_Restart (sy_service sys u) n)" for u n
    by (rule emits_mono[OF _ assms(2)], rule service_emits, assumption)
  then show ?thesis
    unfolding restartF_def restart_call_def locked_call_def unlock_call_def Let_def assms(1)
    by (intro emits_rules) (auto intro: assms)
qed

end

text \<open>A service is restarted only because of a changed file: every restart in a run of
  \<open>handleServiceSet\<close> is of a declared service that should be running and subscribes to one of the
  changed files. In particular a reconcile that changed no file restarts nothing.\<close>

theorem restart_only_on_subscribed_change:
  assumes "system_service (e_system env)"
    and "run_state (handleServiceSet env namespace svcs fileSet changed) w = (e, w')"
  shows "\<exists>es. w_trace w' = w_trace w @ es \<and>
    {n. \<exists>b. EvCall (SvcRestart n) b \<in> set es} \<subseteq> {s_name s | s. s \<in> set svcs \<and> wants_restart changed s}"
proof -
  define P where "P ev = (case ev of EvCall (SvcRestart n) b \<Rightarrow> n \<in> {s_name s | s. s \<in> set svcs \<and> wants_restart changed s} | _ \<Rightarrow> True)" for ev
  have P: "is_exec ev \<Longrightarrow> P ev" "(\<forall>n. c \<noteq> SvcRestart n) \<Longrightarrow> P (EvCall c b)" for ev c b
    by (auto simp: P_def is_exec_def split: event.splits call.splits)
  have restart: "emits P (restartF env namespace svc)" if "(n, svc) \<in> set (restart_services changed svcs)" for n svc
  proof (rule system_service.emits_restartF[OF assms(1) refl, where P = P])
    show "P (EvCall (SvcRestart (s_name svc)) b)" for b
      using that restart_services_sub[of changed svcs] by (auto simp: P_def)
  qed (simp_all add: P)
  have "emits P (handleServiceSet env namespace svcs fileSet changed)"
    unfolding handleServiceSet_def
    by (intro emits_rules system_service.emits_handlers[OF assms(1) refl, where P = P])
      (auto intro: restart P emits_rules)
  from emitsD[OF this assms(2)] obtain es where "w_trace w' = w_trace w @ es" "list_all P es" by blast
  then show ?thesis by (intro exI[of _ es]) (auto simp: list_all_iff P_def split: event.splits call.splits)
qed

theorem restart_only_on_subscribed_change_witness:
  "\<exists>e w'. run_state (handleServiceSet demo_env ''ns'' [] [] []) (demo_world [] []) = (e, w') \<and>
     (\<exists>es. w_trace w' = es \<and> {n. \<exists>b. EvCall (SvcRestart n) b \<in> set es} = {})"
proof -
  obtain e w' where r: "run_state (handleServiceSet demo_env ''ns'' [] [] []) (demo_world [] []) = (e, w')" by fastforce
  from restart_only_on_subscribed_change[OF demo_system r] r show ?thesis by (auto simp: demo_world_def)
qed

text \<open>C16: A service with a lock group is restarted only while its group's lock is held: the visible
  events of a restart are a refused lock and nothing more, or the granted lock, the restart and the
  unlock, which happens whether or not the restart failed.\<close>

theorem restart_inside_lock:
  assumes "system_service (e_system env)" and "run_state (restartF env namespace svc) w = (e, w')"
  shows "\<exists>es. w_trace w' = w_trace w @ es \<and> restart_events namespace svc e (visible es)"
  using makesD[OF system_service.makes_restartF[OF assms(1) refl] assms(2)] .

definition demo_service :: service where
  "demo_service = \<lparr>s_enable = True, s_ensure = ''running'', s_name = ''nginx'', s_subscribeFiles = [''/etc/nginx.conf''],
     s_arguments = [], s_user = [], s_lockGroup = ''web''\<rparr>"

theorem restart_inside_lock_witness:
  "\<exists>e w'. run_state (restartF demo_env ''ns'' demo_service) (demo_world [] []) = (e, w') \<and>
     restart_events ''ns'' demo_service e (visible (w_trace w'))"
proof -
  obtain e w' where r: "run_state (restartF demo_env ''ns'' demo_service) (demo_world [] []) = (e, w')" by fastforce
  from restart_inside_lock[OF demo_system r] r show ?thesis by (auto simp: demo_world_def)
qed

text \<open>The executions that run are exactly those subscribed to a changed file, once per matching
  subscription and in the order of the changes, and the result is an error exactly if one of them
  failed.\<close>

theorem executions_exactly_as_subscribed:
  "\<exists>es. w_trace (snd (run_state (handleExecutions env execs changed) w)) = w_trace w @ es \<and>
     calls_of es = map (\<lambda>x. RunExec (x_command x) (x_args x)) (subscribed_execs execs changed) \<and>
     (fst (run_state (handleExecutions env execs changed) w) = None \<longleftrightarrow> all_ok es)"
proof -
  have one: "makes (\<lambda>errs es. calls_of es = [RunExec (x_command x) (x_args x)] \<and> (errs = [] \<longleftrightarrow> all_ok es \<and> True))
      (run_exec env x)" for x
  proof -
    have "emits is_exec (do { (_, _, e) \<leftarrow> RunCommand (e_host env) (x_command x) (x_args x); ret e })"
      by (intro emits_rules) simp
    from makes_called[OF this, of "RunExec (x_command x) (x_args x)"] show ?thesis
      unfolding run_exec_def by (rule makes_bind) (auto intro!: makes_ret)
  qed
  obtain errs w' where c: "run_state (collect (run_exec env) (subscribed_execs execs changed)) w = (errs, w')"
    by fastforce
  have eq: "concat (map (\<lambda>x. [RunExec (x_command x) (x_args x)]) xs) = map (\<lambda>x. RunExec (x_command x) (x_args x)) xs" for xs
    by (induction xs) auto
  from makesD[OF makes_collect[OF one] c] obtain es where "w_trace w' = w_trace w @ es"
      "calls_of es = map (\<lambda>x. RunExec (x_command x) (x_args x)) (subscribed_execs execs changed)" "errs = [] \<longleftrightarrow> all_ok es"
    by (auto simp: eq)
  with c show ?thesis by (intro exI[of _ es]) (simp add: handleExecutions_def)
qed

section \<open>Files\<close>

lemma leaves_syscall [leaves_rules]: "leaves w_fs k \<Longrightarrow> leaves w_fs (syscall h n p k)"
  unfolding syscall_def by (intro leaves_rules)

lemma leaves_os_read [leaves_rules]:
  "leaves w_fs (os_Stat h p)" "leaves w_fs (os_ReadFile h p)" "leaves w_fs (os_Readlink h p)"
  "leaves w_fs (os_ReadDir h p)"
  unfolding os_Stat_def os_ReadFile_def os_Readlink_def os_ReadDir_def by (intro leaves_rules)+

lemma leaves_part: "leaves w_fs m \<Longrightarrow> leaves (\<lambda>v. F (w_fs v)) m"
  by (simp add: leaves_def)

lemma on_inode_content:
  assumes "run_state (on_inode h name p g) w = (e, w')" and "\<And>i. i_kind (g i) = i_kind i"
  shows "content_at (w_fs w') p = content_at (w_fs w) p"
proof (cases e)
  case None
  with on_inode_ok[OF assms(1)[unfolded None] assms(2)] assms(2) show ?thesis by (auto simp: content_at_def)
next
  case (Some x)
  with on_inode_failed assms(1) show ?thesis by metis
qed

text \<open>\<^verbatim>\<open>getent\<close> only reads.\<close>

definition getent_pure :: "'h host \<Rightarrow> bool" where
  "getent_pure h \<longleftrightarrow> (\<forall>args i f x. fst (snd (h_exec h ''getent'' args i (f, x))) = f)"

lemma leaves_getent:
  assumes "getent_pure h"
  shows "leaves w_fs (command_Output h ''getent'' args)"
proof -
  have "leaves w_fs (run_proc h ''getent'' args [])"
    using assms by (auto simp: leaves_def run_proc_def getent_pure_def split: prod.split) (metis fst_conv snd_conv)
  then show ?thesis unfolding command_Output_def by (intro leaves_rules)
qed

lemma leaves_lookup:
  assumes "getent_pure h"
  shows "leaves w_fs (lookupUID h u)" "leaves w_fs (lookupGID h u)"
  unfolding lookupUID_def lookupGID_def by (intro leaves_rules leaves_getent[OF assms])+

lemma Chown_content:
  assumes "getent_pure h" and "run_state (Chown h fh p o' g) w = ((b, e), w')"
  shows "content_at (w_fs w') p = content_at (w_fs w) p"
proof -
  let ?Q = "\<lambda>v. content_at (w_fs v) p"
  have l: "leaves ?Q (lookupUID h u)" "leaves ?Q (lookupGID h u)" "leaves ?Q (os_Stat h p)" for u
    by (rule leaves_part, rule leaves_lookup[OF assms(1)] leaves_os_read)+
  have c: "leaves ?Q (os_Chown h p a b)" for a b
    unfolding os_Chown_def by (rule leavesI) (rule on_inode_content, assumption, simp)
  have f: "leaves ?Q (or_false m wr k)" if "leaves ?Q m" "\<And>x. leaves ?Q (k x)" for m :: "('a world, 'c res) state" and wr k
    unfolding or_false_def using that by (intro leaves_rules)
  have "leaves ?Q (Chown h fh p o' g)"
    unfolding Chown_def Let_def by (intro f l c leaves_rules)
  from leavesD[OF this assms(2)] show ?thesis .
qed

lemma SetMode_content:
  assumes "run_state (SetMode h p m) w = ((b, e), w')"
  shows "content_at (w_fs w') p = content_at (w_fs w) p"
proof -
  let ?Q = "\<lambda>v. content_at (w_fs v) p"
  have l: "leaves ?Q (os_Stat h p)" by (rule leaves_part) (rule leaves_os_read)
  have c: "leaves ?Q (os_Chmod h p a)" for a
    unfolding os_Chmod_def by (rule leavesI) (rule on_inode_content, assumption, simp)
  have "leaves ?Q (SetMode h p m)"
    unfolding SetMode_def or_false_def by (intro l c leaves_rules)
  from leavesD[OF this assms] show ?thesis .
qed

lemma writeFileContent_ok:
  assumes "getent_pure (e_host env)" and "run_state (backup_file env cfg f) w = (bh, w1)"
    and hash: "sha256_hex (current_bytes (w_fs w1) (f_path f)) = sha256_hex (f_content f) \<Longrightarrow>
      content_at (w_fs w1) (f_path f) = Some (f_content f)"
    and run: "run_state (writeFileContent env cfg f) w = ((changed, backup, None), w')"
  shows "content_at (w_fs w') (f_path f) = Some (f_content f)" and "backup = bh"
    and "f_mode f \<noteq> [] \<Longrightarrow> \<exists>i d. stat_at (w_fs w') (f_path f) = Inr i \<and>
      GetFileModeFromString (f_mode f) = Inr d \<and> i_mode i AND mode_perm = d AND mode_perm"
    and "content_at (w_fs w1) (f_path f) \<noteq> Some (f_content f) \<Longrightarrow> changed"
proof -
  let ?h = "e_host env"
  obtain b1 w2 b2 w3 where s: "run_state (WriteContentFile ?h (f_path f) (f_content f)) w1 = ((b1, None), w2)"
      "run_state (Chown ?h (sy_file (e_system env)) (f_path f) (f_owner f) (f_group f)) w2 = ((b2, None), w3)"
    and mode: "f_mode f = [] \<and> w' = w3 \<and> changed = (b1 \<or> b2) \<or> f_mode f \<noteq> [] \<and>
      (\<exists>b3. run_state (SetMode ?h (f_path f) (f_mode f)) w3 = ((b3, None), w') \<and> changed = (b1 \<or> b2 \<or> b3))"
    and "backup = bh"
    using run assms(2)
    by (auto simp: writeFileContent_def Let_def split: prod.splits option.splits if_splits)
  show "backup = bh" by fact
  note W = WriteContentFile_ok[OF s(1) hash]
  have c3: "content_at (w_fs w3) (f_path f) = Some (f_content f)"
    using W(1) Chown_content[OF assms(1) s(2)] by simp
  with mode SetMode_content show "content_at (w_fs w') (f_path f) = Some (f_content f)" by metis
  show "changed" if "content_at (w_fs w1) (f_path f) \<noteq> Some (f_content f)"
    using W(2) that mode by blast
  show "\<exists>i d. stat_at (w_fs w') (f_path f) = Inr i \<and> GetFileModeFromString (f_mode f) = Inr d \<and>
      i_mode i AND mode_perm = d AND mode_perm" if "f_mode f \<noteq> []"
    using mode that SetMode_ok by blast
qed

section \<open>Purging\<close>

definition purged :: "string \<Rightarrow> string list \<Rightarrow> (string \<times> bool) list \<Rightarrow> string \<Rightarrow> bool" where
  "purged dir managed entries k \<longleftrightarrow> (\<exists>name. (name, False) \<in> set entries \<and>
     dir @ ''/'' @ name \<notin> set managed \<and> k = Clean (dir @ ''/'' @ name))"

lemma purge_entries_fs:
  assumes "run_state (purge_entries env dir managed entries) w = ((cs, errs), w')"
  shows "(\<forall>k. map_of (w_fs w') k = map_of (w_fs w) k \<or> map_of (w_fs w') k = None \<and> purged dir managed entries k) \<and>
    (errs = [] \<longrightarrow> (\<forall>k. purged dir managed entries k \<longrightarrow> map_of (w_fs w') k = None))"
  using assms
proof (induction entries arbitrary: w cs errs)
  case Nil
  then show ?case by (auto simp: purged_def)
next
  case (Cons ne entries)
  obtain name isDir where ne: "ne = (name, isDir)" by fastforce
  let ?p = "dir @ ''/'' @ name"
  show ?case
  proof (cases "isDir \<or> ?p \<in> set managed")
    case True
    then have "purged dir managed (ne # entries) k \<longleftrightarrow> purged dir managed entries k" for k
      using ne by (auto simp: purged_def)
    with True Cons ne show ?thesis by (auto simp: Let_def)
  next
    case False
    obtain e w1 where e: "run_state (os_Remove (e_host env) ?p) w = (e, w1)" by fastforce
    obtain cs1 errs1 where r: "run_state (purge_entries env dir managed entries) w1 = ((cs1, errs1), w')"
      and errs: "errs = [] \<longleftrightarrow> e = None \<and> errs1 = []"
      using Cons.prems False ne e by (auto simp: Let_def split: prod.splits option.splits)
    note IH = Cons.IH[OF r]
    have pe: "purged dir managed (ne # entries) k \<longleftrightarrow> k = Clean ?p \<or> purged dir managed entries k" for k
      using False ne by (auto simp: purged_def)
    have step: "map_of (w_fs w1) k = map_of (w_fs w) k \<or> k = Clean ?p \<and> map_of (w_fs w1) k = None" for k
      using os_Remove_ok(1)[of "e_host env" ?p w w1] os_Remove_failed[of "e_host env" ?p w _ w1] e
      by (cases e) (auto simp: AList.delete_conv')
    have gone: "map_of (w_fs w1) (Clean ?p) = None" if "e = None"
      using os_Remove_ok(1)[of "e_host env" ?p w w1] e that by (simp add: AList.delete_conv')
    have a: "map_of (w_fs w') k = map_of (w_fs w) k \<or> map_of (w_fs w') k = None \<and> purged dir managed (ne # entries) k" for k
      using IH step[of k] pe[of k] by metis
    moreover have "map_of (w_fs w') k = None" if "errs = []" "purged dir managed (ne # entries) k" for k
      using IH that errs pe[of k] gone by metis
    ultimately show ?thesis by blast
  qed
qed

lemma os_ReadDir_plain:
  "run_state (os_ReadDir h p) w = (Inr es, w') \<Longrightarrow> (n, b) \<in> set es \<Longrightarrow> plain n"
  by (auto simp: os_ReadDir_def syscall_def dir_children_def Let_def List.map_filter_def
      split: prod.splits option.splits if_splits)

lemma abs_child:
  assumes "list_all plain cs" and "cs \<noteq> []" and "plain name"
  shows "abs_path cs @ ''/'' @ name = abs_path (cs @ [name])" and "Clean (abs_path cs @ ''/'' @ name) = abs_path cs @ ''/'' @ name"
proof -
  show eq: "abs_path cs @ ''/'' @ name = abs_path (cs @ [name])"
    using assms(2) by (simp add: abs_path_def Join_append)
  show "Clean (abs_path cs @ ''/'' @ name) = abs_path cs @ ''/'' @ name"
    unfolding eq using assms by (intro Clean_abs_path) auto
qed

lemma purge_dir_run:
  assumes "run_state (purge_dir env ns node f) w = ((changed, errs), w')"
    and "run_state (managedPathsUnder env ns node (f_path f)) w = (managed, w1)"
  shows "w_fs w1 = w_fs w" and "w_fs w' = w_fs w \<and> errs \<noteq> [] \<or> (\<exists>entries w2. run_state (os_ReadDir (e_host env) (f_path f)) w1 = (Inr entries, w2) \<and>
      w_fs w2 = w_fs w \<and> run_state (purge_entries env (f_path f) managed entries) w2 = ((changed, errs), w'))"
proof -
  have "leaves w_fs (managedPathsUnder env ns node (f_path f))"
    unfolding managedPathsUnder_def by (intro leaves_rules)
  from leavesD[OF this assms(2)] show fs: "w_fs w1 = w_fs w" .
  obtain r w2 where r: "run_state (os_ReadDir (e_host env) (f_path f)) w1 = (r, w2)" by fastforce
  show "w_fs w' = w_fs w \<and> errs \<noteq> [] \<or> (\<exists>entries w2. run_state (os_ReadDir (e_host env) (f_path f)) w1 = (Inr entries, w2) \<and>
      w_fs w2 = w_fs w \<and> run_state (purge_entries env (f_path f) managed entries) w2 = ((changed, errs), w'))"
    using assms r os_ReadDir_fs[OF r] fs by (cases r) (auto simp: purge_dir_def)
qed


definition demo_dir :: "string \<Rightarrow> managed_file" where
  "demo_dir p = \<lparr>f_content = [], f_ensure = ''directory'', f_target = [], f_group = [], f_mode = [], f_owner = [],
     f_path = p, f_template = [], f_secretRefs = [], f_configMapRefs = [], f_createOnly = False, f_purge = True\<rparr>"

definition demo_file_set :: configset where
  "demo_file_set = demo_set ''a'' (demo_spec\<lparr>css_files := [demo_dir ''/d/a'']\<rparr>)"

definition demo_fs :: fs where
  "demo_fs = [(''/d'', \<lparr>i_kind = FDir, i_mode = 0, i_uid = 0, i_gid = 0, i_mtime = 0\<rparr>),
     (''/d/a'', \<lparr>i_kind = FFile ''x'', i_mode = 0, i_uid = 0, i_gid = 0, i_mtime = 0\<rparr>)]"

definition demo_purge_world :: "api world" where
  "demo_purge_world = demo_world [((KConfigSet, nsn ''ns'' ''a''), OConfigSet demo_file_set)] demo_fs"

lemma demo_purge_list:
  "run_state (api_list demo_env as_configset KConfigSet (Some ''ns'')) demo_purge_world =
     (Inr [demo_file_set], demo_purge_world)"
  by (simp add: api_list_def demo_env_def store_client_def demo_purge_world_def demo_world_def
      nsn_def decode_list_def List.map_filter_def)


text \<open>C39: When the ConfigSets cannot be listed, a purge still runs and treats every file as unmanaged: all
  plain files of the directory are removed, the declared ones included.\<close>

theorem purge_after_list_error_removes_all:
  assumes "run_state (api_list env as_configset KConfigSet (Some ns)) w = (Inl e, w1)"
    and "run_state (os_ReadDir (e_host env) (f_path f)) w1 = (Inr entries, w2)"
    and "run_state (purge_dir env ns node f) w = ((changed, []), w')" and "(name, False) \<in> set entries"
  shows "map_of (w_fs w') (Clean (f_path f @ ''/'' @ name)) = None"
proof -
  have m: "run_state (managedPathsUnder env ns node (f_path f)) w = ([], w1)"
    using assms(1) by (simp add: managedPathsUnder_def)
  obtain w2' where "run_state (purge_entries env (f_path f) [] entries) w2' = ((changed, []), w')"
    using purge_dir_run(2)[OF assms(3) m] assms(2) by auto
  from purge_entries_fs[OF this] assms(4) show ?thesis by (auto simp: purged_def)
qed

definition listless_env :: "api env" where
  "listless_env = demo_env\<lparr>e_client := store_client\<lparr>cl_list := \<lambda>k ns. ret (Inl (Plain ''timeout''))\<rparr>\<rparr>"

lemma listless_list: "run_state (api_list listless_env as_configset KConfigSet (Some ''ns'')) demo_purge_world = (Inl (Plain ''timeout''), demo_purge_world)"
  by (simp add: api_list_def listless_env_def demo_purge_world_def demo_world_def decode_list_def)

lemma demo_children: "resolve demo_fs ''/d'' = Some ''/d'' \<and> dir_children demo_fs ''/d'' = [(''a'', False)] \<and> Clean ''/d/a'' = ''/d/a''"
  by code_simp

lemma demo_readdir: "run_state (os_ReadDir (e_host listless_env) ''/d'') demo_purge_world = (Inr [(''a'', False)], demo_purge_world)"
  using demo_children
  by (simp add: os_ReadDir_def syscall_def listless_env_def demo_env_def demo_purge_world_def demo_world_def) (simp add: demo_fs_def)

lemma listless_purge: "\<exists>w'. run_state (purge_dir listless_env ''ns'' demo_node (demo_dir ''/d'')) demo_purge_world = (([''/d/a''], []), w')"
  using demo_children
  by (simp add: purge_dir_def managedPathsUnder_def listless_list demo_readdir demo_dir_def Let_def os_Remove_def entry_at_def)
   (simp add: listless_env_def demo_env_def demo_purge_world_def demo_world_def demo_fs_def entry_at_def)
theorem purge_after_list_error_removes_all_witness:
  "\<exists>changed w'. run_state (purge_dir listless_env ''ns'' demo_node (demo_dir ''/d'')) demo_purge_world =
     ((changed, []), w') \<and> map_of (w_fs w') ''/d/a'' = None"
proof -
  obtain w' where r: "run_state (purge_dir listless_env ''ns'' demo_node (demo_dir ''/d'')) demo_purge_world =
      (([''/d/a''], []), w')" using listless_purge by blast
  have d: "run_state (os_ReadDir (e_host listless_env) (f_path (demo_dir ''/d''))) demo_purge_world =
      (Inr [(''a'', False)], demo_purge_world)" using demo_readdir by (simp add: demo_dir_def)
  from purge_after_list_error_removes_all[OF listless_list d r, of "''a''"] r demo_children show ?thesis
    by (auto simp: demo_dir_def)
qed

text \<open>C14: A regular file ends up as declared: when \<open>writeFileContent\<close> reports success, the path has the
  declared content and, if a mode is declared, its permission bits; and a change of content is
  reported, so that subscribers are notified. (\<^verbatim>\<open>getent\<close> must not write files, and the digest of the
  old bytes must not collide with that of the new ones.)\<close>

theorem declared_file_is_written:
  assumes "getent_pure (e_host env)" and "run_state (backup_file env cfg f) w = (bh, w1)"
    and "sha256_hex (current_bytes (w_fs w1) (f_path f)) = sha256_hex (f_content f) \<longrightarrow>
      content_at (w_fs w1) (f_path f) = Some (f_content f)"
    and "run_state (writeFileContent env cfg f) w = ((changed, backup, None), w')"
  shows "content_at (w_fs w') (f_path f) = Some (f_content f) \<and>
    (f_mode f \<noteq> [] \<longrightarrow> (\<exists>i d. stat_at (w_fs w') (f_path f) = Inr i \<and>
       GetFileModeFromString (f_mode f) = Inr d \<and> i_mode i AND mode_perm = d AND mode_perm)) \<and>
    (content_at (w_fs w1) (f_path f) \<noteq> Some (f_content f) \<longrightarrow> changed)"
  using writeFileContent_ok[OF assms(1,2) assms(3)[rule_format] assms(4)] by blast

definition demo_cfg :: configset_config where
  "demo_cfg = \<lparr>cc_namespace = ''ns'', cc_gomplatePath = ''gomplate'', cc_reconcilePeriod = 0, cc_bucketEnabled = False,
     cc_bucketPath = [], cc_bucketMaxFileSize = 0, cc_bucketMaxAge = 0\<rparr>"

definition demo_content :: managed_file where
  "demo_content = (demo_dir ''/d/a'')\<lparr>f_ensure := ''file'', f_content := ''x''\<rparr>"

lemma demo_resolve: "resolve demo_fs ''/d/a'' = Some ''/d/a''"
  by code_simp

lemma demo_stat:
  "stat_at demo_fs ''/d/a'' = Inr \<lparr>i_kind = FFile ''x'', i_mode = 0, i_uid = 0, i_gid = 0, i_mtime = 0\<rparr>"
  using demo_resolve by (simp add: stat_at_def) (simp add: demo_fs_def)

lemma demo_fields: "SplitN CHR '':'' 4 [] = [[]]"
  by (simp add: numeral_eq_Suc)

lemma demo_write_file:
  "\<exists>c b w'. run_state (writeFileContent demo_env demo_cfg demo_content) demo_purge_world = ((c, b, None), w')"
  using demo_stat
  by (simp add: writeFileContent_def Let_def backup_file_def demo_cfg_def demo_content_def demo_dir_def
      demo_env_def demo_purge_world_def demo_world_def WriteContentFile_def write_if_differs_def os_ReadFile_def
      os_Stat_def syscall_def ArchLinux_def NewFileHandler_def Chown_def lookupUID_def lookupGID_def
      command_Output_def run_proc_def)
    (simp add: ref_host_def third_field_def TrimSpace_def Trim_def of_option_def Atoi_def Let_def
      digit_val_def is_digit_def demo_fields, blast)

theorem declared_file_is_written_witness:
  "\<exists>c b w'. run_state (writeFileContent demo_env demo_cfg demo_content) demo_purge_world = ((c, b, None), w') \<and>
     content_at (w_fs w') ''/d/a'' = Some ''x''"
proof -
  have pure: "getent_pure (e_host demo_env)" by (simp add: getent_pure_def demo_env_def ref_host_def)
  have bk: "run_state (backup_file demo_env demo_cfg demo_content) demo_purge_world = ([], demo_purge_world)"
    by (simp add: backup_file_def demo_cfg_def)
  have cur: "content_at (w_fs demo_purge_world) (f_path demo_content) = Some (f_content demo_content)"
    using demo_stat by (simp add: content_at_def demo_purge_world_def demo_world_def demo_content_def demo_dir_def)
  obtain c b w' where r: "run_state (writeFileContent demo_env demo_cfg demo_content) demo_purge_world = ((c, b, None), w')"
    using demo_write_file by blast
  from declared_file_is_written[OF pure bk _ r] cur r show ?thesis
    by (auto simp: demo_content_def demo_dir_def)
qed

text \<open>A declared symlink is never created: when nothing is at its path, the attempt to read the link
  is an error, and the filesystem stays as it is.\<close>

theorem missing_symlink_is_not_created:
  assumes "entry_at (w_fs w) (f_path f) = None"
    and "run_state (ensure_symlink env f) w = ((changed, backups, errs), w')"
  shows "errs \<noteq> [] \<and> changed = [] \<and> w_fs w' = w_fs w"
  using assms
  by (auto simp: ensure_symlink_def os_Readlink_def syscall_def failed_def split: prod.splits option.splits)

theorem missing_symlink_is_not_created_witness:
  "\<exists>c b e w'. run_state (ensure_symlink demo_env (demo_dir ''/link'')) (demo_world [] []) = ((c, b, e), w') \<and>
     e \<noteq> [] \<and> w_fs w' = []"
proof -
  obtain c b e w' where r: "run_state (ensure_symlink demo_env (demo_dir ''/link'')) (demo_world [] []) = ((c, b, e), w')"
    by (metis surj_pair)
  have "entry_at (w_fs (demo_world [] [])) (f_path (demo_dir ''/link'')) = None"
    by (simp add: entry_at_def demo_world_def)
  from missing_symlink_is_not_created[OF this r] r show ?thesis by (auto simp: demo_world_def)
qed

section \<open>The status record\<close>

definition status_of :: "configset_apply_status list \<Rightarrow> string \<Rightarrow> configset_apply_status option" where
  "status_of l n = map_of (map (\<lambda>c. (cas_name c, c)) l) n"

definition same_report :: "configset_apply_status \<Rightarrow> configset_apply_status \<Rightarrow> bool" where
  "same_report a b \<longleftrightarrow> cas_resourceVersion a = cas_resourceVersion b \<and> cas_error a = cas_error b \<and>
     cas_conflicts a = cas_conflicts b"

lemma status_of_simps [simp]: "status_of [] n = None" "status_of (c # l) = (status_of l)(cas_name c \<mapsto> c)"
  by (auto simp: status_of_def)

lemma upsert_names:
  "upsert_status entry l = Some l' \<Longrightarrow> distinct (map cas_name l) \<Longrightarrow>
   distinct (map cas_name l') \<and> set (map cas_name l') = insert (cas_name entry) (set (map cas_name l))"
proof (induction l arbitrary: l')
  case (Cons c l)
  show ?case
  proof (cases "cas_name c = cas_name entry")
    case False
    then obtain z where z: "upsert_status entry l = Some z" "l' = c # z" using Cons.prems by auto
    then have "distinct (map cas_name z)" "set (map cas_name z) = insert (cas_name entry) (set (map cas_name l))"
      using Cons by auto
    with z False Cons.prems(2) show ?thesis by (simp del: set_map) auto
  qed (use Cons.prems in \<open>auto split: if_splits\<close>)
qed simp

lemma upsert_lookup:
  "upsert_status entry l = Some l' \<Longrightarrow> status_of l' = (status_of l)(cas_name entry \<mapsto> entry)"
proof (induction l arbitrary: l')
  case (Cons c l)
  then show ?case by (auto split: if_splits simp: fun_upd_twist)
qed auto

lemma upsert_none:
  "upsert_status entry l = None \<longleftrightarrow> (\<exists>old. status_of l (cas_name entry) = Some old \<and> same_report old entry)"
  by (induction l) (auto simp: status_of_def same_report_def)



section \<open>The version gauge\<close>

text \<open>The gauge has at most one version per node and ConfigSet, the one last recorded.\<close>

definition gauge_inv :: "rv_state \<Rightarrow> bool" where
  "gauge_inv s \<longleftrightarrow> distinct (rv_gauge s) \<and> (\<forall>(node, name, v) \<in> set (rv_gauge s).
     slash \<notin> set node \<and> map_of (rv_last s) (rv_key node name) = Some v)"

lemma rv_key_inj: "slash \<notin> set n \<Longrightarrow> slash \<notin> set m \<Longrightarrow> rv_key n a = rv_key m b \<longleftrightarrow> n = m \<and> a = b"
proof
  have tw: "slash \<notin> set x \<Longrightarrow> takeWhile (\<lambda>c. c \<noteq> slash) (rv_key x y) = x" for x y
    by (induction x) (auto simp: rv_key_def)
  assume "slash \<notin> set n" "slash \<notin> set m" and eq: "rv_key n a = rv_key m b"
  then have "n = m" using tw by metis
  with eq show "n = m \<and> a = b" by (simp add: rv_key_def)
qed simp

lemma gauge_inv_record:
  assumes inv: "gauge_inv s" and node: "slash \<notin> set node"
    and known: "\<And>v. map_of (rv_last s) (rv_key node name) = Some v \<Longrightarrow> v \<noteq> []"
  shows "gauge_inv (record_rv node name version s)"
proof -
  define prev where "prev = (case map_of (rv_last s) (rv_key node name) of Some p \<Rightarrow> p | None \<Rightarrow> [])"
  define g where "g = (if prev \<noteq> [] \<and> prev \<noteq> version then drop_gauge (node, name, prev) (rv_gauge s) else rv_gauge s)"
  have r: "record_rv node name version s = \<lparr>rv_last = AList.update (rv_key node name) version (rv_last s),
      rv_gauge = (if (node, name, version) \<in> set g then g else (node, name, version) # g)\<rparr>"
    by (simp add: record_rv_def prev_def g_def Let_def)
  have old: "slash \<notin> set n \<and> ((map_of (rv_last s))(rv_key node name \<mapsto> version)) (rv_key n m) = Some v"
    if x: "(n, m, v) \<in> set g" for n m v
  proof -
    have gx: "slash \<notin> set n" "map_of (rv_last s) (rv_key n m) = Some v"
      using inv x by (auto simp: g_def gauge_inv_def drop_gauge_def split: if_splits)
    show ?thesis
    proof (cases "rv_key n m = rv_key node name")
      case True
      then have "n = node" "m = name" using rv_key_inj[OF gx(1) node] by auto
      moreover from this have "prev = v" "v \<noteq> []" using gx known by (auto simp: prev_def)
      ultimately have "v = version" using x by (auto simp: g_def drop_gauge_def split: if_splits)
      with gx True show ?thesis by simp
    next
      case False
      with gx show ?thesis by simp
    qed
  qed
  have "distinct g" using inv by (simp add: g_def gauge_inv_def drop_gauge_def)
  then show ?thesis unfolding r gauge_inv_def using old node by (auto simp: AList.update_conv')
qed

lemma gauge_inv_forget:
  assumes inv: "gauge_inv s" and node: "slash \<notin> set node"
    and known: "\<And>v. map_of (rv_last s) (rv_key node name) = Some v \<Longrightarrow> v \<noteq> []"
  shows "gauge_inv (forget_rv node name s)"
proof -
  define prev where "prev = (case map_of (rv_last s) (rv_key node name) of Some p \<Rightarrow> p | None \<Rightarrow> [])"
  define g where "g = (if prev \<noteq> [] then drop_gauge (node, name, prev) (rv_gauge s) else rv_gauge s)"
  have r: "forget_rv node name s = \<lparr>rv_last = AList.delete (rv_key node name) (rv_last s), rv_gauge = g\<rparr>"
    by (simp add: forget_rv_def prev_def g_def Let_def)
  have "slash \<notin> set n \<and> map_of (rv_last s) (rv_key n m) = Some v \<and> rv_key n m \<noteq> rv_key node name"
    if x: "(n, m, v) \<in> set g" for n m v
  proof -
    have gx: "slash \<notin> set n" "map_of (rv_last s) (rv_key n m) = Some v"
      using inv x by (auto simp: g_def gauge_inv_def drop_gauge_def split: if_splits)
    moreover have "rv_key n m \<noteq> rv_key node name"
      using gx known rv_key_inj[OF gx(1) node] x by (auto simp: g_def prev_def drop_gauge_def split: if_splits)
    ultimately show ?thesis by simp
  qed
  moreover have "distinct g" using inv by (simp add: g_def gauge_inv_def drop_gauge_def)
  ultimately show ?thesis unfolding r gauge_inv_def by (auto simp: AList.delete_conv')
qed

end
