(* ===== verification/PoudriereCorrect.thy ===== *)
theory PoudriereCorrect
  imports Poudriere ExecTrace ConfigSetCorrect
begin

text \<open>
  What the Poudriere reconciler runs, and on which nodes. \<open>runs cs r es\<close> is the contract of a sequence
  of commands that stops at the first failure.
\<close>

section \<open>Sequences of commands\<close>

inductive runs :: "(string \<times> string list) list \<Rightarrow> err option \<Rightarrow> event list \<Rightarrow> bool" where
  runs_done: "runs [] None []"
| runs_ok: "runs cs r es \<Longrightarrow> runs ((c, a) # cs) r (EvExec c a [] 0 # es)"
| runs_failed: "n \<noteq> 0 \<Longrightarrow> runs ((c, a) # cs) (Some e) [EvExec c a [] n]"

inductive_cases runs_NoneE: "runs cs None es"

lemma runs_append: "runs xs r es \<Longrightarrow> r = None \<Longrightarrow> runs ys s fs \<Longrightarrow> runs (xs @ ys) s (es @ fs)"
  by (induction rule: runs.induct) (auto intro: runs.intros)

lemma runs_stop: "runs xs r es \<Longrightarrow> r = Some e \<Longrightarrow> runs (xs @ ys) r es"
  by (induction rule: runs.induct) (auto intro: runs.intros)

lemma runs_success: "runs cs r es \<Longrightarrow> r = None \<longleftrightarrow> es = map (\<lambda>(c, a). EvExec c a [] 0) cs"
  by (induction rule: runs.induct) auto

lemma does_runs_command: "does (runs [(c, a)]) (SimpleRunCommand h c a)"
proof (rule does_mono[OF does_SimpleRunCommand])
  fix r :: "err option" and es assume "\<exists>n. es = [EvExec c a [] n] \<and> (r = None \<longleftrightarrow> n = 0)"
  then show "runs [(c, a)] r es" by (cases r) (auto intro: runs.intros)
qed

lemma does_runs_nil: "does (runs []) (ret None)"
  by (simp add: does_ret runs_done)

lemma does_runs_then: "does (runs xs) m \<Longrightarrow> does (runs ys) k \<Longrightarrow> does (runs (xs @ ys)) (check_fail m id k)"
  by (erule does_check_fail) (auto intro: runs_stop runs_append elim: does_mono)

lemma does_runs_each: "(\<And>x. does (runs (g x)) (f x)) \<Longrightarrow> does (runs (concat (map g xs))) (each f xs)"
  by (induction xs) (auto intro: does_runs_then does_runs_nil)

section \<open>Build jails\<close>

definition jail_commands :: "build_jail list \<Rightarrow> poudriere_jail \<Rightarrow> (string \<times> string list) list" where
  "jail_commands existing t =
     (let name = om_name (pj_meta t); same = filter (\<lambda>e. bj_name e = name) existing in
      if same = [] then [(poudriere, [''jail'', ''-c'', ''-j'', name, ''-v'', pj_version t, ''-m'', ''http''])]
      else replicate (Suc (length same)) (poudriere, [''jail'', ''-u'', ''-j'', name]))"

lemma named_None: "named f n l = None \<longleftrightarrow> filter (\<lambda>x. f x = n) l = []"
  by (auto simp: named_def find_None_iff filter_empty_conv)

lemma named_Some: "named f n l = Some x \<Longrightarrow> f x = n"
  by (auto simp: named_def find_Some_iff)

lemma does_updates:
  "\<forall>e \<in> set es. bj_name e = name \<Longrightarrow>
   does (runs (replicate (length es) (poudriere, [''jail'', ''-u'', ''-j'', name]))) (each (bjail_Update h) es)"
proof (induction es)
  case (Cons e es)
  then show ?case
    using does_runs_then[OF does_runs_command[of poudriere "[''jail'', ''-u'', ''-j'', name]" h]]
    by (simp add: bjail_Update_def)
qed (simp add: does_runs_nil)

lemma does_ensure_build_jail: "does (runs (jail_commands existing t)) (ensure_build_jail h existing t)"
proof -
  let ?name = "om_name (pj_meta t)" and ?same = "filter (\<lambda>e. bj_name e = om_name (pj_meta t)) existing"
  have ups: "does (runs (replicate (length ?same) (poudriere, [''jail'', ''-u'', ''-j'', ?name]))) (each (bjail_Update h) ?same)"
    by (rule does_updates) simp
  show ?thesis
  proof (cases "named bj_name ?name existing")
    case None
    then have "?same = []" by (simp add: named_None)
    then show ?thesis
      using None does_runs_then[OF does_runs_command does_runs_nil]
      by (simp add: ensure_build_jail_def jail_commands_def bjail_Create_def Let_def)
  next
    case (Some v)
    moreover from Some have "?same \<noteq> []" by (metis named_None option.distinct(1))
    ultimately show ?thesis
      using does_runs_then[OF does_runs_command ups] named_Some[OF Some]
      by (simp add: ensure_build_jail_def jail_commands_def bjail_Update_def Let_def)
  qed
qed

text \<open>Given the declared and the existing build jails, \<open>ensureAllJails\<close> runs for each declared one, in
  order and up to the first failure, a single \<^verbatim>\<open>poudriere jail -c\<close> with its version when it does not exist,
  and otherwise \<^verbatim>\<open>poudriere jail -u\<close>, once more often than it is listed; it succeeds exactly when all of
  these commands do.\<close>

theorem build_jails_ensured:
  assumes "run_state (api_list env as_poudriere_jail KPoudriereJail None) w = (Inr jails, w1)"
    and "run_state (bjail_List (e_host env)) w1 = (Inr existing, w2)"
    and "run_state (ensureAllJails env) w = (r, w')"
  shows "\<exists>es. w_trace w' = w_trace w2 @ es \<and> runs (concat (map (jail_commands existing) jails)) r es"
proof -
  have "run_state (each (ensure_build_jail (e_host env) existing) jails) w2 = (r, w')"
    using assms by (simp add: ensureAllJails_def or_fail_def)
  from doesD[OF does_runs_each[OF does_ensure_build_jail] this] show ?thesis .
qed

section \<open>Bulk builds\<close>

definition build_event :: "poudriere_bulk \<Rightarrow> int \<Rightarrow> event" where
  "build_event b n = EvExec poudriere
     [''bulk'', ''-p'', pb_tree b, ''-j'', pb_jail b, ''-j'', ''2'', concat (pb_ports b)] [] n"

lemma Join_concat: "Join xs [] = concat xs"
  by (induction xs rule: induct_list012) simp_all

lemma does_build_each: "does (\<lambda>r es. \<exists>ns. length ns = length bs \<and> es = map2 build_event bs ns) (build_each h bs)"
proof (induction bs)
  case (Cons b bs)
  have b: "does (\<lambda>r es. \<exists>n. es = [build_event b n]) (bulk_Build h (pb_jail b) (pb_tree b) (pb_ports b))"
    unfolding bulk_Build_def
    by (rule does_mono[OF does_SimpleRunCommand]) (auto simp: build_event_def Join_concat)
  show ?case unfolding build_each.simps
  proof (rule does_bind[OF b])
    fix x and es :: "event list" assume "\<exists>n. es = [build_event b n]"
    then obtain n where es: "es = [build_event b n]" by blast
    show "does (\<lambda>r fs. \<exists>ns. length ns = length (b # bs) \<and> es @ fs = map2 build_event (b # bs) ns) (build_each h bs)"
    proof (rule does_mono[OF Cons.IH])
      fix fs assume "\<exists>ns. length ns = length bs \<and> fs = map2 build_event bs ns"
      then obtain ns where "length ns = length bs" "fs = map2 build_event bs ns" by blast
      with es show "\<exists>ns. length ns = length (b # bs) \<and> es @ fs = map2 build_event (b # bs) ns"
        by (intro exI[of _ "n # ns"]) simp
    qed
  qed
qed (simp add: does_ret)

text \<open>A failed build is not reported: once the ports are synchronised, \<open>buildAll\<close> runs one bulk build
  for every PoudriereBulk, in order, and succeeds whatever the exit codes are. Each build is given the
  names of its ports run together as a single argument.\<close>

theorem build_failures_ignored:
  assumes "run_state (api_list env as_poudriere_bulk KPoudriereBulk None) w = (Inr bulks, w1)"
    and "run_state (bulk_Sync (e_host env)) w1 = (None, w2)"
    and "run_state (buildAll env) w = (r, w')"
  shows "r = None \<and> (\<exists>ns. length ns = length bulks \<and> w_trace w' = w_trace w2 @ map2 build_event bulks ns)"
proof -
  obtain u where "run_state (build_each (e_host env) bulks) w2 = (u, w')" "r = None"
    using assms by (auto simp: buildAll_def or_fail_def check_fail_def split: prod.splits)
  with doesD[OF does_build_each this(1)] show ?thesis by auto
qed

section \<open>Which nodes build\<close>

text \<open>C36: The label gate is inverted. A node whose label \<^verbatim>\<open>freebsd.nodemanager/poudriere\<close> is \<^verbatim>\<open>disabled\<close>
  builds everything, and on every other node, with the label set to anything else or without it, the
  reconcile does nothing and reports success.\<close>

theorem only_disabled_nodes_build:
  assumes "run_state (nh_Hostname (sy_node (e_system env))) w = (Inr hostname, w1)"
    and "run_state (api_get env as_node KManagedNode (nsn (ns_namespace req) hostname)) w1 = (Inr node, w2)"
  shows "run_state (Poudriere_Reconcile env req) w =
    (if (PoudriereBuild, ''disabled'') \<in> set (om_labels (mn_meta node)) then run_state (build_everything env) w2
     else (None, w2))"
proof -
  have "PoudriereBuild \<in> fst ` set (om_labels (mn_meta node))" if "(PoudriereBuild, ''disabled'') \<in> set (om_labels (mn_meta node))"
    using that by force
  moreover have "LabelGate NoneMatch ls [(k, v)] \<longleftrightarrow> (k, v) \<notin> set ls" "LabelGate AnyKey ls [(k, v)] \<longleftrightarrow> k \<in> fst ` set ls"
    for ls k v by (simp_all add: LabelGate_def gate_outer_none gate_outer_any del: gate_outer.simps)
  ultimately show ?thesis using assms by (auto simp: Poudriere_Reconcile_def or_fail_def)
qed

section \<open>The list of build jails\<close>

text \<open>The table \<^verbatim>\<open>poudriere jail -l\<close> prints: a heading of six words and a row per jail, with the date and
  the time of its creation.\<close>

definition jail_heading :: string where
  "jail_heading = ''JAILNAME VERSION ARCH METHOD TIMESTAMP PATH''"

definition jail_row :: "build_jail \<times> string \<times> string \<Rightarrow> string" where
  "jail_row = (\<lambda>(j, d, t). Join [bj_name j, bj_version j, bj_arch j, bj_fetchMethod j, d, t, bj_path j] '' '')"

definition row_ok :: "build_jail \<times> string \<times> string \<Rightarrow> bool" where
  "row_ok = (\<lambda>(j, d, t). (\<forall>x \<in> set [bj_name j, bj_version j, bj_arch j, bj_fetchMethod j, d, t, bj_path j]. no_space x) \<and>
     Parse_DateTime (d @ '' '' @ t) = Inr (bj_creation j) \<and> length (jail_row (j, d, t)) < 65536)"

lemma Join_space_words:
  assumes "\<forall>x \<in> set xs. no_space x" and "xs \<noteq> []"
  shows "CHR 10 \<notin> set (Join xs '' '')" "Join xs '' '' \<noteq> []" "last (Join xs '' '') \<noteq> CHR 13"
proof -
  have words: "\<forall>c \<in> set (Join xs '' ''). c = CHR '' '' \<or> \<not> is_space c" and ne: "Join xs '' '' \<noteq> []"
    using assms(2,1) by (induction xs rule: list_nonempty_induct) (auto simp: Join_Cons no_space_def)
  have out: "c \<notin> set (Join xs '' '')" if "is_space c" "c \<noteq> CHR '' ''" for c using words that by blast
  show "CHR 10 \<notin> set (Join xs '' '')" by (rule out) (simp_all add: is_space_def)
  show "Join xs '' '' \<noteq> []" by (rule ne)
  have "CHR 13 \<notin> set (Join xs '' '')" by (rule out) (simp_all add: is_space_def)
  with last_in_set[OF ne] show "last (Join xs '' '') \<noteq> CHR 13" by metis
qed

lemma jail_lines_rows: "\<forall>x \<in> set rows. row_ok x \<Longrightarrow> jail_lines (map jail_row rows) = Inr (map fst rows)"
proof (induction rows)
  case (Cons x rows)
  obtain j d t where x: "x = (j, d, t)" by (metis prod_cases3)
  with Cons.prems have ok: "row_ok (j, d, t)" by simp
  then have "Fields (jail_row (j, d, t)) = [bj_name j, bj_version j, bj_arch j, bj_fetchMethod j, d, t, bj_path j]"
    unfolding jail_row_def prod.case by (intro Fields_Join) (simp add: row_ok_def)
  with ok Cons x show ?case by (simp add: row_ok_def)
qed simp

text \<open>The list of build jails is read back as it was printed: from the table of any jails whose fields
  contain no white space, with creation times that are dates, \<open>readPoudriereJailList\<close> recovers every
  jail with all its fields, in order, and nothing else.\<close>

theorem jail_list_roundtrip:
  assumes "\<forall>x \<in> set rows. row_ok x"
  shows "readPoudriereJailList (concat (map (\<lambda>l. l @ [CHR 10]) (jail_heading # map jail_row rows))) = Inr (map fst rows)"
proof -
  let ?ls = "jail_heading # map jail_row rows" and ?out = "concat (map (\<lambda>l. l @ [CHR 10]) (jail_heading # map jail_row rows))"
  have rows: "CHR 10 \<notin> set (jail_row x) \<and> jail_row x \<noteq> [] \<and> last (jail_row x) \<noteq> CHR 13 \<and> length (jail_row x) < 65536"
    if "x \<in> set rows" for x
  proof -
    obtain j d t where x: "x = (j, d, t)" by (metis prod_cases3)
    with assms that have ok: "row_ok (j, d, t)" by blast
    have "\<forall>y \<in> set [bj_name j, bj_version j, bj_arch j, bj_fetchMethod j, d, t, bj_path j]. no_space y"
      using ok by (simp add: row_ok_def)
    from Join_space_words[OF this] ok x show ?thesis unfolding jail_row_def row_ok_def by simp
  qed
  then have lines: "\<forall>l \<in> set ?ls. CHR 10 \<notin> set l \<and> l \<noteq> [] \<and> last l \<noteq> CHR 13 \<and> length l < 65536"
    by (auto simp: jail_heading_def)
  have "Split (CHR 10) ?out = ?ls @ [[]]" by (rule Split_lines) (use lines in blast)
  with lines have "scanner_err ?out = None" unfolding scanner_err_def by (simp add: list_all_iff)
  moreover have "scan_lines ?out = ?ls" by (rule scan_lines_Join[OF lines])
  moreover have "Fields jail_heading = [''JAILNAME'', ''VERSION'', ''ARCH'', ''METHOD'', ''TIMESTAMP'', ''PATH'']"
    by (simp add: jail_heading_def Fields_def is_space_def)
  ultimately show ?thesis using jail_lines_rows[OF assms] by (simp add: readPoudriereJailList_def)
qed

section \<open>Concrete runs\<close>

definition demo_row :: "build_jail \<times> string \<times> string" where
  "demo_row = (\<lparr>bj_name = ''pkg14'', bj_version = ''14.0'', bj_arch = ''amd64'', bj_fetchMethod = ''http'',
     bj_creation = 1712325549 * second, bj_path = ''/jails/pkg14''\<rparr>, ''2024-04-05'', ''13:59:09'')"

theorem jail_list_roundtrip_witness:
  "readPoudriereJailList (concat (map (\<lambda>l. l @ [CHR 10]) [jail_heading, jail_row demo_row])) = Inr [fst demo_row]"
proof -
  have "Parse_DateTime ''2024-04-05 13:59:09'' = Inr (1712325549 * second)"
    by (simp add: Parse_DateTime_def date_time_def num_field_def sep_field_def hour_field_def fraction_field_def
        is_digit_def digits_int_def digit_val_def days_in_month_def days_from_civil_def Let_def)
  then have "row_ok demo_row"
    by (simp add: row_ok_def demo_row_def no_space_def is_space_def jail_row_def)
  with jail_list_roundtrip[of "[demo_row]"] show ?thesis by simp
qed

definition demo_build_jail :: poudriere_jail where
  "demo_build_jail = \<lparr>pj_meta = empty_meta\<lparr>om_name := ''pkg14''\<rparr>, pj_version = ''14.0-RELEASE'', pj_architecture = [], pj_makeopts = []\<rparr>"

definition demo_bulk :: poudriere_bulk where
  "demo_bulk = \<lparr>pb_meta = empty_meta\<lparr>om_name := ''b''\<rparr>, pb_ports = [''www/nginx'', ''editors/vim''], pb_tree = ''default'', pb_jail = ''pkg14''\<rparr>"

definition builder_node :: "string \<Rightarrow> managednode" where
  "builder_node v = demo_node\<lparr>mn_meta := (mn_meta demo_node)\<lparr>om_labels := [(PoudriereBuild, v)]\<rparr>\<rparr>"

definition build_world :: "string \<Rightarrow> api world" where
  "build_world v = demo_world [((KManagedNode, nsn ''ns'' ''n1''), OManagedNode (builder_node v)),
     ((KPoudriereJail, nsn ''ns'' ''pkg14''), OPoudriereJail demo_build_jail),
     ((KPoudriereBulk, nsn ''ns'' ''b''), OPoudriereBulk demo_bulk)] []"

lemmas build_world_simps = build_world_def demo_world_def demo_env_def api_list_def api_get_def decode_def decode_list_def
  List.map_filter_def store_client_def store_get_def

theorem build_jails_ensured_witness:
  "\<exists>r w' es. run_state (ensureAllJails demo_env) (build_world ''disabled'') = (r, w') \<and>
     w_trace w' = EvExec poudriere [''jail'', ''-l''] [] 0 # es \<and>
     runs [(poudriere, [''jail'', ''-c'', ''-j'', ''pkg14'', ''-v'', ''14.0-RELEASE'', ''-m'', ''http''])] r es"
proof -
  let ?w = "build_world ''disabled''"
  have l: "run_state (api_list demo_env as_poudriere_jail KPoudriereJail None) ?w = (Inr [demo_build_jail], ?w)"
    by (simp add: build_world_simps)
  obtain w2 where e: "run_state (bjail_List (e_host demo_env)) ?w = (Inr [], w2)"
    and t: "w_trace w2 = [EvExec poudriere [''jail'', ''-l''] [] 0]"
    by (auto simp: bjail_List_def RunCommand_def run_proc_def ref_host_def proc_result_def demo_env_def
        readPoudriereJailList_def scan_lines_def scanner_err_def build_world_def demo_world_def)
  obtain r w' where run: "run_state (ensureAllJails demo_env) ?w = (r, w')" by (metis surj_pair)
  from build_jails_ensured[OF l e run] run t show ?thesis
    by (auto simp: jail_commands_def demo_build_jail_def Let_def)
qed

theorem build_failures_ignored_witness:
  "\<exists>w' n. run_state (buildAll demo_env) (build_world ''disabled'') = (None, w') \<and>
     w_trace w' = [EvExec portshaker [''-v''] [] 0, build_event demo_bulk n]"
proof -
  let ?w = "build_world ''disabled''"
  have l: "run_state (api_list demo_env as_poudriere_bulk KPoudriereBulk None) ?w = (Inr [demo_bulk], ?w)"
    by (simp add: build_world_simps)
  obtain w2 where e: "run_state (bulk_Sync (e_host demo_env)) ?w = (None, w2)"
    and t: "w_trace w2 = [EvExec portshaker [''-v''] [] 0]"
    by (auto simp: bulk_Sync_def SimpleRunCommand_def RunCommand_def run_proc_def ref_host_def proc_result_def demo_env_def
        build_world_def demo_world_def)
  obtain r w' where run: "run_state (buildAll demo_env) ?w = (r, w')" by (metis surj_pair)
  from build_failures_ignored[OF l e run] run t show ?thesis by (auto simp: length_Suc_conv)
qed

theorem only_disabled_nodes_build_witness:
  "run_state (Poudriere_Reconcile demo_env (nsn ''ns'' ''b'')) (build_world ''enabled'') = (None, build_world ''enabled'')"
proof -
  have h: "run_state (nh_Hostname (sy_node (e_system demo_env))) (build_world ''enabled'') = (Inr ''n1'', build_world ''enabled'')"
    by (simp add: build_world_simps ArchLinux_def SystemdNode_def)
  have g: "run_state (api_get demo_env as_node KManagedNode (nsn (ns_namespace (nsn ''ns'' ''b'')) ''n1'')) (build_world ''enabled'') =
      (Inr (builder_node ''enabled''), build_world ''enabled'')"
    by (simp add: build_world_simps nsn_def)
  from only_disabled_nodes_build[OF h g] show ?thesis by (simp add: builder_node_def)
qed

end
