(* ===== verification/GoSlices.thy ===== *)
theory GoSlices
  imports ApiTypes "HOL-Library.Multiset"
begin

text \<open>
  What the sources use of Go's packages \<^verbatim>\<open>maps\<close> and \<^verbatim>\<open>slices\<close>: copying the entries of one map into
  another, and sorting a slice by a comparison function.
\<close>

section \<open>maps.Copy\<close>

definition set_all :: "string smap \<Rightarrow> string smap \<Rightarrow> string smap" where
  "set_all kvs m = fold (\<lambda>(k, v). AList.update k v) kvs m"

lemma map_of_set_all: "map_of (set_all kvs m) k = (case map_of (rev kvs) k of Some v \<Rightarrow> Some v | None \<Rightarrow> map_of m k)"
  by (induction kvs arbitrary: m) (auto simp: set_all_def AList.update_conv' map_add_def split: option.splits)

lemma map_of_rev_distinct: "distinct (map fst xs) \<Longrightarrow> map_of (rev xs) = map_of xs"
  by (subst map_of_inject_set) (auto simp: rev_map[symmetric])

section \<open>slices.SortFunc\<close>

text \<open>
  \<^verbatim>\<open>slices.SortFunc\<close> sorts up to twelve elements by insertion, which \<open>insertion_sort\<close> follows: each
  element moves left past the ones it precedes. For a comparison that is 0 on equal elements only,
  every sorting algorithm has the same result.
\<close>

fun move_left :: "('a \<Rightarrow> 'a \<Rightarrow> int) \<Rightarrow> 'a \<Rightarrow> 'a list \<Rightarrow> 'a list" where
  "move_left cmp x [] = [x]"
| "move_left cmp x (y # ys) = (if cmp x y < 0 then y # move_left cmp x ys else x # y # ys)"

definition insertion_sort :: "('a \<Rightarrow> 'a \<Rightarrow> int) \<Rightarrow> 'a list \<Rightarrow> 'a list" where
  "insertion_sort cmp xs = rev (fold (move_left cmp) xs [])"

lemma mset_move_left [simp]: "mset (move_left cmp x ys) = add_mset x (mset ys)"
  by (induction ys) auto

lemma mset_insertion_sort [simp]: "mset (insertion_sort cmp xs) = mset xs"
proof -
  have "mset (fold (move_left cmp) xs ys) = mset xs + mset ys" for ys
    by (induction xs arbitrary: ys) auto
  then show ?thesis by (simp add: insertion_sort_def)
qed

text \<open>The insertion sort is the stable sort by the key that the comparison compares.\<close>

lemma move_left_sorted:
  assumes "\<And>x y. cmp x y < 0 \<longleftrightarrow> f x < (f y :: 'k :: linorder)" and "sorted (rev (map f ys))"
  shows "sorted (rev (map f (move_left cmp x ys)))"
  using assms(2)
proof (induction ys)
  case (Cons y ys)
  have "set (move_left cmp x ys) = insert x (set ys)"
    by (metis mset_move_left set_mset_add_mset_insert set_mset_mset)
  with Cons assms(1) show ?case by (auto simp: sorted_append not_less intro: order.trans less_imp_le)
qed simp

lemma move_left_filter:
  assumes "\<And>x y. cmp x y < 0 \<longleftrightarrow> f x < (f y :: 'k :: linorder)"
  shows "filter (\<lambda>z. k = f z) (move_left cmp x ys) = (if k = f x then x # filter (\<lambda>z. k = f z) ys else filter (\<lambda>z. k = f z) ys)"
  by (induction ys) (auto simp: assms)

lemma insertion_sort_sort_key:
  assumes "\<And>x y. x \<in> set xs \<Longrightarrow> y \<in> set xs \<Longrightarrow> cmp x y < 0 \<longleftrightarrow> f x < (f y :: 'k :: linorder)"
  shows "insertion_sort cmp xs = sort_key f xs"
proof -
  define cmp' where "cmp' x y = (if x \<in> set xs \<and> y \<in> set xs then cmp x y else if f x < f y then -1 else 0)" for x y
  have cmp': "cmp' x y < 0 \<longleftrightarrow> f x < f y" for x y using assms by (auto simp: cmp'_def)
  have set_ml: "set (move_left c x ys) = insert x (set ys)" for c :: "'a \<Rightarrow> 'a \<Rightarrow> int" and x ys
    by (metis mset_move_left set_mset_add_mset_insert set_mset_mset)
  have ml: "x \<in> set xs \<Longrightarrow> set ys \<subseteq> set xs \<Longrightarrow> move_left cmp x ys = move_left cmp' x ys" for x ys
    by (induction ys) (auto simp: cmp'_def)
  have same: "set zs \<subseteq> set xs \<Longrightarrow> set ys \<subseteq> set xs \<Longrightarrow> fold (move_left cmp) zs ys = fold (move_left cmp') zs ys" for zs ys
    by (induction zs arbitrary: ys) (auto simp: ml set_ml)
  have sorted: "sorted (rev (map f ys)) \<Longrightarrow> sorted (rev (map f (fold (move_left cmp') zs ys)))" for zs ys
  proof (induction zs arbitrary: ys)
    case (Cons z zs)
    show ?case using Cons.IH[OF move_left_sorted[OF cmp' Cons.prems]] by simp
  qed simp
  have stable: "filter (\<lambda>z. k = f z) (fold (move_left cmp') zs ys) =
      rev (filter (\<lambda>z. k = f z) zs) @ filter (\<lambda>z. k = f z) ys" for k zs ys
    by (induction zs arbitrary: ys) (auto simp: move_left_filter[OF cmp'])
  show ?thesis
  proof (rule properties_for_sort_key[symmetric])
    show "mset (insertion_sort cmp xs) = mset xs" by simp
    show "filter (\<lambda>x. f k = f x) (insertion_sort cmp xs) = filter (\<lambda>x. f k = f x) xs" for k
      using stable[of "f k" xs "[]"] same[of xs "[]"] by (simp add: insertion_sort_def flip: rev_filter)
    show "sorted (map f (insertion_sort cmp xs))"
      using sorted[of "[]" xs] same[of xs "[]"] by (simp add: insertion_sort_def rev_map)
  qed
qed

end
