(* ===== verification/NodeStatus.thy ===== *)
theory NodeStatus
  imports Common GoTime GoSlices "HOL-Library.Product_Lexorder"
begin

unbundle bit_operations_syntax

text \<open>
  The part of the ManagedNode reconciler (\<^verbatim>\<open>internal/controller/common/managednode_controller.go\<close>,
  \<^verbatim>\<open>wireguard.go\<close>) that keeps the labels and the status of the node object up to date: the
  collectors of network interfaces, SSH host keys and WireGuard interfaces, the key secret, and the
  pruning of ConfigSet entries.
\<close>

section \<open>The environment of the reconciler\<close>

text \<open>
  The parameters beside those every controller has: the notification server, the cron parser, the
  network interfaces, the key generator, the pods the API server lists for a host, sleeping. \<open>nt_await\<close> is the \<^verbatim>\<open>select\<close> over the approval
  channel, the timer and the context.
\<close>

datatype approval = APPROVE | DENY | DELAY | UNSPECIFIED

datatype select_result = Response approval | Deadline | CtxDone err

record 'h notifier =
  nt_Notify :: "notice \<Rightarrow> ('h, unit) state"
  nt_HasSubscribers :: "('h, bool) state"
  nt_WaitForApproval :: "string \<Rightarrow> ('h, unit) state"
  nt_await :: "string \<Rightarrow> duration \<Rightarrow> ('h, select_result) state"
  nt_CancelApproval :: "string \<Rightarrow> ('h, unit) state"

record net_interface =
  if_name :: string
  if_loopback :: bool
  if_up :: bool
  if_addrs :: "string option list res"

record managednode_config =
  mc_forgiveness :: duration
  mc_drainTimeout :: duration

record 'h mn_env =
  me_env :: "'h env"
  me_cfg :: managednode_config
  me_agentVersion :: string
  me_notifier :: "'h notifier option"
  me_cron :: "string \<Rightarrow> (instant \<Rightarrow> instant) res"
  me_interfaces :: "('h, net_interface list res) state"
  me_generateKey :: "('h, (string \<times> string) res) state"
  me_podsOn :: "string \<Rightarrow> ('h, pod list res) state"
  me_sleep :: "duration \<Rightarrow> ('h, unit) state"

definition default_managednode_config :: managednode_config where
  "default_managednode_config = \<lparr>mc_forgiveness = 60 * second, mc_drainTimeout = 300 * second\<rparr>"

abbreviation me_host :: "'h mn_env \<Rightarrow> 'h host" where
  "me_host me \<equiv> e_host (me_env me)"

definition node_key :: "managednode \<Rightarrow> nsname" where
  "node_key node = nsn (om_namespace (mn_meta node)) (om_name (mn_meta node))"

text \<open>The read-modify-write cycle on the node that the reconciler wraps in \<open>RetryOnConflict\<close>.\<close>

definition rewrite_status :: "'h env \<Rightarrow> nsname \<Rightarrow> (managednode_status \<Rightarrow> managednode_status) \<Rightarrow>
    ('h world, err option) state" where
  "rewrite_status env key f =
     RetryOnConflict (or_fail (api_get env as_node KManagedNode key) id (\<lambda>fresh.
       api_updateStatus env (OManagedNode (fresh\<lparr>mn_status := f (mn_status fresh)\<rparr>))))"

definition rewrite_meta :: "'h env \<Rightarrow> nsname \<Rightarrow> (object_meta \<Rightarrow> object_meta) \<Rightarrow>
    ('h world, err option) state" where
  "rewrite_meta env key f =
     RetryOnConflict (or_fail (api_get env as_node KManagedNode key) id (\<lambda>fresh.
       api_update env (OManagedNode (fresh\<lparr>mn_meta := f (mn_meta fresh)\<rparr>))))"

section \<open>Labels\<close>

text \<open>
  The labels to set, and the in-memory labels afterwards: \<open>nodeLabels\<close> is the map of the node itself
  unless that is nil.
\<close>

definition label_differs :: "string smap \<Rightarrow> string \<times> string \<Rightarrow> bool" where
  "label_differs have kv = (map_of have (fst kv) \<noteq> Some (snd kv))"

definition updateNodeLabels :: "'h mn_env \<Rightarrow> managednode \<Rightarrow> ('h world, managednode res) state" where
  "updateNodeLabels me node = do {
     labels \<leftarrow> DefaultLabels (me_env me);
     let have = om_labels (mn_meta node);
     let nodeLabels = set_all (filter (label_differs have) labels) have;
     let node' = (if have = [] then node else node\<lparr>mn_meta := (mn_meta node)\<lparr>om_labels := nodeLabels\<rparr>\<rparr>);
     if list_ex (label_differs have) labels then
       check (rewrite_meta (me_env me) (node_key node)
           (\<lambda>m. m\<lparr>om_labels := set_all nodeLabels (om_labels m)\<rparr>))
         (Wrap ''failed to update ManagedNode'') (ret (Inr node'))
     else ret (Inr node)
   }"

section \<open>Network interfaces\<close>

text \<open>The methods of \<^verbatim>\<open>net.IP\<close> the collector uses. An address is its 4 or 16 bytes; nil is \<open>None\<close>.\<close>

definition To4 :: "string \<Rightarrow> string option" where
  "To4 ip =
     (if length ip = 4 then Some ip
      else if length ip = 16 \<and> take 10 ip = replicate 10 (CHR 0x00) \<and> take 2 (drop 10 ip) = replicate 2 (CHR 0xFF)
      then Some (drop 12 ip) else None)"

abbreviation byte_at :: "string \<Rightarrow> nat \<Rightarrow> nat" where
  "byte_at ip i \<equiv> of_char (ip ! i)"

definition is_unspecified :: "string \<Rightarrow> bool" where
  "is_unspecified ip = (case To4 ip of
     Some q \<Rightarrow> q = replicate 4 (CHR 0x00)
   | None \<Rightarrow> ip = replicate 16 (CHR 0x00))"

definition is_loopback_ip :: "string \<Rightarrow> bool" where
  "is_loopback_ip ip = (case To4 ip of
     Some q \<Rightarrow> byte_at q 0 = 127
   | None \<Rightarrow> ip = replicate 15 (CHR 0x00) @ [CHR 0x01])"

definition is_multicast :: "string \<Rightarrow> bool" where
  "is_multicast ip = (case To4 ip of
     Some q \<Rightarrow> byte_at q 0 div 16 = 14
   | None \<Rightarrow> length ip = 16 \<and> byte_at ip 0 = 255)"

definition is_link_local_unicast :: "string \<Rightarrow> bool" where
  "is_link_local_unicast ip = (case To4 ip of
     Some q \<Rightarrow> byte_at q 0 = 169 \<and> byte_at q 1 = 254
   | None \<Rightarrow> length ip = 16 \<and> byte_at ip 0 = 254 \<and> byte_at ip 1 div 64 = 2)"

definition IsGlobalUnicast :: "string \<Rightarrow> bool" where
  "IsGlobalUnicast ip \<longleftrightarrow> (length ip = 4 \<or> length ip = 16) \<and> To4 ip \<noteq> Some (replicate 4 (CHR 0xFF)) \<and>
     \<not> is_unspecified ip \<and> \<not> is_loopback_ip ip \<and> \<not> is_multicast ip \<and> \<not> is_link_local_unicast ip"

text \<open>\<^verbatim>\<open>net.IP.String\<close>: dotted decimal, or the groups of RFC 5952 with the first longest run of two or
  more zero groups replaced by a double colon.\<close>

definition hex_char :: "nat \<Rightarrow> char" where
  "hex_char d = (if d < 10 then char_of (48 + d) else char_of (87 + d))"

fun hex_nat :: "nat \<Rightarrow> string" where
  "hex_nat n = (if n < 16 then [hex_char n] else hex_nat (n div 16) @ [hex_char (n mod 16)])"

declare hex_nat.simps [simp del]

fun groups :: "string \<Rightarrow> nat list" where
  "groups (a # b # r) = (256 * of_char a + of_char b) # groups r"
| "groups _ = []"

definition zero_run :: "nat list \<Rightarrow> nat \<Rightarrow> nat" where
  "zero_run gs i = length (takeWhile (\<lambda>g. g = 0) (drop i gs))"

definition best_run :: "nat list \<Rightarrow> nat \<times> nat" where
  "best_run gs = fold (\<lambda>i (s, l). if l < zero_run gs i then (i, zero_run gs i) else (s, l)) [0..<length gs] (0, 1)"

definition show_ip6 :: "string \<Rightarrow> string" where
  "show_ip6 ip =
     (let gs = groups ip; (s, l) = best_run gs
      in if l < 2 then Join (map hex_nat gs) '':''
         else Join (map hex_nat (take s gs)) '':'' @ ''::'' @ Join (map hex_nat (drop (s + l) gs)) '':'')"

definition ip_String :: "string \<Rightarrow> string" where
  "ip_String ip = (case To4 ip of
     Some q \<Rightarrow> Join (map (\<lambda>c. nat_digits (of_char c)) q) ''.''
   | None \<Rightarrow> show_ip6 ip)"

definition add_address :: "network_interface \<Rightarrow> string option \<Rightarrow> network_interface" where
  "add_address ni addr = (case addr of
     None \<Rightarrow> ni
   | Some ip \<Rightarrow>
       if To4 ip \<noteq> None then ni\<lparr>ni_ipv4 := ni_ipv4 ni @ [ip_String ip]\<rparr>
       else if IsGlobalUnicast ip then ni\<lparr>ni_ipv6 := ni_ipv6 ni @ [ip_String ip]\<rparr>
       else ni)"

definition add_interface :: "net_interface \<Rightarrow> network_interface smap \<Rightarrow> network_interface smap" where
  "add_interface i result =
     (if if_loopback i \<or> \<not> if_up i then result
      else (case if_addrs i of
              Inl _ \<Rightarrow> result
            | Inr addrs \<Rightarrow>
                (let ni = foldl add_address \<lparr>ni_ipv4 = [], ni_ipv6 = []\<rparr> addrs
                 in if ni_ipv4 ni \<noteq> [] \<or> ni_ipv6 ni \<noteq> []
                    then AList.update (if_name i) \<lparr>ni_ipv4 = sort (ni_ipv4 ni), ni_ipv6 = sort (ni_ipv6 ni)\<rparr> result
                    else result)))"

definition collectNetworkInterfaces :: "'h mn_env \<Rightarrow> ('h world, network_interface smap) state" where
  "collectNetworkInterfaces me = do {
     r \<leftarrow> ext (me_interfaces me);
     ret (case r of Inl _ \<Rightarrow> [] | Inr ifaces \<Rightarrow> fold add_interface ifaces [])
   }"

section \<open>SSH host keys\<close>

definition ssh_key :: "string \<Rightarrow> ssh_host_key option" where
  "ssh_key line = (case Fields line of
     [name, cls, rr, alg, fpType, fp] \<Rightarrow>
       if rr \<noteq> ''SSHFP'' then None
       else (case (Atoi alg, Atoi fpType) of
               (Some a, Some t) \<Rightarrow> Some \<lparr>ssh_algorithm = a, ssh_fingerprintType = t, ssh_fingerprint = fp\<rparr>
             | _ \<Rightarrow> None)
   | _ \<Rightarrow> None)"

text \<open>The comparison subtracts 64-bit integers.\<close>

definition sub64 :: "int \<Rightarrow> int \<Rightarrow> int" where
  "sub64 a b = sint (word_of_int (a - b) :: 64 word)"

definition ssh_cmp :: "ssh_host_key \<Rightarrow> ssh_host_key \<Rightarrow> int" where
  "ssh_cmp a b =
     (if ssh_algorithm a \<noteq> ssh_algorithm b then sub64 (ssh_algorithm a) (ssh_algorithm b)
      else sub64 (ssh_fingerprintType a) (ssh_fingerprintType b))"

definition collectSSHHostKeys :: "'h host \<Rightarrow> string \<Rightarrow> ('h world, ssh_host_key list) state" where
  "collectSSHHostKeys h hostname = do {
     (out, _, e) \<leftarrow> RunCommand h ''ssh-keygen'' [''-r'', hostname];
     ret (if e \<noteq> None \<or> TrimSpace out = [] then []
          else insertion_sort ssh_cmp (List.map_filter ssh_key (Split (CHR 10) out)))
   }"

section \<open>WireGuard\<close>

text \<open>\<^verbatim>\<open>base64.StdEncoding.EncodeToString\<close>.\<close>

definition b64_char :: "nat \<Rightarrow> char" where
  "b64_char n =
     (if n < 26 then char_of (65 + n) else if n < 52 then char_of (71 + n)
      else if n < 62 then char_of (n - 4) else if n = 62 then CHR ''+'' else CHR ''/'')"

fun base64 :: "string \<Rightarrow> string" where
  "base64 (a # b # c # r) =
     (let n = 65536 * of_char a + 256 * of_char b + of_char c :: nat
      in [b64_char (n div 262144), b64_char (n div 4096 mod 64), b64_char (n div 64 mod 64), b64_char (n mod 64)] @ base64 r)"
| "base64 [a, b] =
     (let n = 65536 * of_char a + 256 * of_char b :: nat
      in [b64_char (n div 262144), b64_char (n div 4096 mod 64), b64_char (n div 64 mod 64), CHR ''=''])"
| "base64 [a] =
     (let n = 65536 * of_char a :: nat
      in [b64_char (n div 262144), b64_char (n div 4096 mod 64), CHR ''='', CHR ''=''])"
| "base64 [] = []"

definition generateWireGuardKeyPair :: "'h mn_env \<Rightarrow> ('h world, (string \<times> string) res) state" where
  "generateWireGuardKeyPair me = or_return (ext (me_generateKey me)) id (\<lambda>(priv, pub).
     ret (Inr (base64 priv, base64 pub)))"

definition mergeBootstrappedWireGuardKey :: "wireguard_interface list \<Rightarrow> string \<Rightarrow> string \<Rightarrow> wireguard_interface list" where
  "mergeBootstrappedWireGuardKey liveWG iface pubKey =
     (if pubKey = [] then liveWG
      else if list_ex (\<lambda>w. wg_name w = iface) liveWG then liveWG
      else liveWG @ [\<lparr>wg_name = iface, wg_publicKey = pubKey, wg_listenPort = 0\<rparr>])"

definition wg_line :: "string \<Rightarrow> wireguard_interface option" where
  "wg_line line = (case Split (CHR 9) line of
     [name, priv, pub, port, fwmark] \<Rightarrow>
       Some \<lparr>wg_name = name, wg_publicKey = pub, wg_listenPort = Atoi_value port\<rparr>
   | _ \<Rightarrow> None)"

definition collectWireGuardInterfaces :: "'h host \<Rightarrow> ('h world, wireguard_interface list) state" where
  "collectWireGuardInterfaces h = do {
     (out, _, e) \<leftarrow> RunCommand h ''wg'' [''show'', ''all'', ''dump''];
     ret (if e \<noteq> None \<or> TrimSpace out = [] then []
          else List.map_filter wg_line (Split (CHR 10) out))
   }"

definition wg_secret_name :: "string \<Rightarrow> string \<Rightarrow> string" where
  "wg_secret_name iface nodeName = ''wg-'' @ iface @ ''-'' @ nodeName"

definition ensureWireGuardKeySecret :: "'h mn_env \<Rightarrow> string \<Rightarrow> string \<Rightarrow> string \<Rightarrow> ('h world, string res) state" where
  "ensureWireGuardKeySecret me namespace nodeName iface = do {
     let secretName = wg_secret_name iface nodeName;
     r \<leftarrow> api_get (me_env me) as_secret KSecret (nsn namespace secretName);
     (case r of
        Inr sec \<Rightarrow> ret (Inr (case map_of (sec_data sec) ''public-key'' of Some v \<Rightarrow> v | None \<Rightarrow> []))
      | Inl e \<Rightarrow>
          if \<not> is_not_found e then ret (Inl (Wrap (''failed to get WireGuard key secret '' @ secretName) e))
          else or_return (generateWireGuardKeyPair me) (Wrap ''failed to generate WireGuard keypair'') (\<lambda>(priv, pub).
            or_return (api_create (me_env me) (OSecret \<lparr>
                sec_meta = empty_meta\<lparr>om_name := secretName, om_namespace := namespace\<rparr>,
                sec_data = [(''private-key'', priv), (''public-key'', pub)]\<rparr>))
              (Wrap (''failed to create WireGuard key secret '' @ secretName)) (\<lambda>_. ret (Inr pub))))
   }"

section \<open>Status\<close>

definition isJailed :: "'h host \<Rightarrow> ('h world, bool) state" where
  "isJailed h = do {
     (out, _, e) \<leftarrow> RunCommand h ''sysctl'' [''-n'', ''security.jail.jailed''];
     ret (e = None \<and> TrimSpace out = ''1'')
   }"

text \<open>\<^verbatim>\<open>reflect.DeepEqual\<close> on two maps.\<close>

definition same_map :: "'v smap \<Rightarrow> 'v smap \<Rightarrow> bool" where
  "same_map m n = list_all (\<lambda>k. map_of m k = map_of n k) (map fst m @ map fst n)"

definition live_wireguard :: "'h mn_env \<Rightarrow> managednode \<Rightarrow> ('h world, wireguard_interface list) state" where
  "live_wireguard me node = do {
     liveWG \<leftarrow> collectWireGuardInterfaces (me_host me);
     if wgs_enabled (mns_wireGuard (mn_spec node)) then do {
       let iface = (if wgs_interface (mns_wireGuard (mn_spec node)) = [] then ''wg0''
                    else wgs_interface (mns_wireGuard (mn_spec node)));
       r \<leftarrow> ensureWireGuardKeySecret me (om_namespace (mn_meta node)) (om_name (mn_meta node)) iface;
       ret (case r of Inl _ \<Rightarrow> liveWG | Inr pubKey \<Rightarrow> mergeBootstrappedWireGuardKey liveWG iface pubKey)
     } else ret liveWG
   }"

definition updateNodeStatus :: "'h mn_env \<Rightarrow> managednode \<Rightarrow> ('h world, err option) state" where
  "updateNodeStatus me node = do {
     info \<leftarrow> nh_Info (sy_node (e_system (me_env me)));
     interfaces \<leftarrow> collectNetworkInterfaces me;
     keys \<leftarrow> collectSSHHostKeys (me_host me) (om_name (mn_meta node));
     liveWG \<leftarrow> live_wireguard me node;
     jailed \<leftarrow> (if si_osID info = ''freebsd'' then isJailed (me_host me) else ret False);
     let st = mn_status node;
     if st_agentVersion st = me_agentVersion me \<and> st_release st = si_osRelease info \<and> st_jailed st = jailed \<and>
        same_map (st_interfaces st) interfaces \<and> st_sshHostKeys st = keys \<and> st_wireGuard st = liveWG
     then ret None
     else check_fail (rewrite_status (me_env me) (node_key node) (\<lambda>s. s\<lparr>st_agentVersion := me_agentVersion me,
              st_release := si_osRelease info, st_interfaces := interfaces, st_sshHostKeys := keys,
              st_wireGuard := liveWG, st_jailed := jailed\<rparr>))
            (Wrap ''failed to update ManagedNode status'') (ret None)
   }"

section \<open>Pruning\<close>

definition keep_matching :: "string list \<Rightarrow> configset_apply_status list \<Rightarrow> configset_apply_status list" where
  "keep_matching matching l = filter (\<lambda>c. cas_name c \<in> set matching) l"

definition matching_names :: "managednode \<Rightarrow> configset list \<Rightarrow> string list" where
  "matching_names node sets =
     map (\<lambda>cs. om_name (cs_meta cs)) (filter (\<lambda>cs. nodeLabelMatch node (om_labels (cs_meta cs)) = None) sets)"

definition pruneStaleConfigSetStatus :: "'h env \<Rightarrow> managednode \<Rightarrow> ('h world, err option) state" where
  "pruneStaleConfigSetStatus env node =
     (if st_configSets (mn_status node) = [] then ret None
      else or_fail (api_list env as_configset KConfigSet (Some (om_namespace (mn_meta node))))
        (Wrap ''failed to list configsets for status pruning'') (\<lambda>sets.
          (let matching = matching_names node sets in
           if list_all (\<lambda>c. cas_name c \<in> set matching) (st_configSets (mn_status node)) then ret None
           else rewrite_status env (node_key node)
             (\<lambda>s. s\<lparr>st_configSets := keep_matching matching (st_configSets s)\<rparr>))))"

end
