(* ===== verification/Notification.thy ===== *)
theory Notification
  imports NodeStatus "HOL-Library.Sublist"
begin

text \<open>
  The notification server, \<^verbatim>\<open>internal/notification/server.go\<close>. Its state is two maps guarded by locks,
  from sessions to event channels and from event IDs to answer channels; the channels live in lists and
  the maps hold their numbers, because a stream keeps its channel when the map entry is replaced. Every
  critical section is one operation. The protocol at the end interleaves the sections of any number of
  agents, scripts and upgrade handlers, so a call of \<open>RespondToApproval\<close> is two steps: the lookup under
  the lock and the send after it.
\<close>

section \<open>Messages\<close>

text \<open>The messages of \<^verbatim>\<open>notification.proto\<close>; the payloads the upgrade handler sends are \<open>notice\<close>s.\<close>

datatype severity = SeverityUnspecified | SeverityInfo | SeverityWarning | SeverityError

datatype payload = GenericNotification string string severity | NodeNotice notice

record nevent =
  ev_id :: string
  ev_timestamp :: "instant option"
  ev_payload :: payload

record approval_response =
  ar_eventId :: string
  ar_action :: approval
  ar_delay :: "duration option"
  ar_user :: string

record ack =
  ack_accepted :: bool
  ack_reason :: string

section \<open>The server\<close>

record server =
  sv_subscribers :: "nat smap"
  sv_chans :: "nevent list list"
  sv_approvals :: "nat smap"
  sv_answers :: "approval_response list list"

definition NewServer :: server where
  "NewServer = \<lparr>sv_subscribers = [], sv_chans = [], sv_approvals = [], sv_answers = []\<rparr>"

text \<open>\<^verbatim>\<open>select { case ch <- x: default: }\<close> on a channel with a buffer.\<close>

definition offer :: "nat \<Rightarrow> 'a \<Rightarrow> 'a list \<Rightarrow> 'a list" where
  "offer cap x q = (if length q < cap then q @ [x] else q)"

definition event_buffer :: nat where
  "event_buffer = 64"

definition answer_buffer :: nat where
  "answer_buffer = 1"

subsection \<open>Subscribe\<close>

text \<open>The session a request names, or the fresh UUID.\<close>

definition session_id :: "string \<Rightarrow> string \<Rightarrow> string" where
  "session_id req uuid = (if req = [] then uuid else req)"

definition subscribe_enter :: "string \<Rightarrow> server \<Rightarrow> server" where
  "subscribe_enter sid s =
     s\<lparr>sv_subscribers := AList.update sid (length (sv_chans s)) (sv_subscribers s), sv_chans := sv_chans s @ [[]]\<rparr>"

definition subscribe_exit :: "string \<Rightarrow> server \<Rightarrow> server" where
  "subscribe_exit sid s = s\<lparr>sv_subscribers := AList.delete sid (sv_subscribers s)\<rparr>"

text \<open>The receive of the stream's loop: \<open>None\<close> while the channel is empty.\<close>

definition subscribe_receive :: "nat \<Rightarrow> server \<Rightarrow> (nevent \<times> server) option" where
  "subscribe_receive ch s = (case sv_chans s ! ch of
     [] \<Rightarrow> None
   | e # q \<Rightarrow> Some (e, s\<lparr>sv_chans := (sv_chans s)[ch := q]\<rparr>))"

subsection \<open>Notify\<close>

fun offer_all :: "nevent \<Rightarrow> nat smap \<Rightarrow> nevent list list \<Rightarrow> nevent list list" where
  "offer_all e [] chans = chans"
| "offer_all e ((sid, ch) # subs) chans = offer_all e subs (chans[ch := offer event_buffer e (chans ! ch)])"

definition stamped :: "string \<Rightarrow> instant \<Rightarrow> nevent \<Rightarrow> nevent" where
  "stamped uuid t e =
     e\<lparr>ev_id := if ev_id e = [] then uuid else ev_id e,
       ev_timestamp := case ev_timestamp e of None \<Rightarrow> Some t | Some x \<Rightarrow> Some x\<rparr>"

definition server_Notify :: "string \<Rightarrow> instant \<Rightarrow> nevent \<Rightarrow> server \<Rightarrow> server" where
  "server_Notify uuid t e s = s\<lparr>sv_chans := offer_all (stamped uuid t e) (sv_subscribers s) (sv_chans s)\<rparr>"

definition generic_event :: "string \<Rightarrow> string \<Rightarrow> severity \<Rightarrow> nevent" where
  "generic_event title body sev = \<lparr>ev_id = [], ev_timestamp = None, ev_payload = GenericNotification title body sev\<rparr>"

definition SendNotification :: "string \<Rightarrow> instant \<Rightarrow> string \<Rightarrow> string \<Rightarrow> severity \<Rightarrow> server \<Rightarrow> ack \<times> server" where
  "SendNotification uuid t title body sev s =
     (\<lparr>ack_accepted = True, ack_reason = []\<rparr>, server_Notify uuid t (generic_event title body sev) s)"

definition HasSubscribers :: "server \<Rightarrow> bool" where
  "HasSubscribers s \<longleftrightarrow> length (sv_subscribers s) > 0"

subsection \<open>Approvals\<close>

definition WaitForApproval :: "string \<Rightarrow> server \<Rightarrow> nat \<times> server" where
  "WaitForApproval eid s =
     (length (sv_answers s),
      s\<lparr>sv_approvals := AList.update eid (length (sv_answers s)) (sv_approvals s), sv_answers := sv_answers s @ [[]]\<rparr>)"

definition CancelApproval :: "string \<Rightarrow> server \<Rightarrow> server" where
  "CancelApproval eid s = s\<lparr>sv_approvals := AList.delete eid (sv_approvals s)\<rparr>"

definition respond_lookup :: "approval_response \<Rightarrow> server \<Rightarrow> nat option" where
  "respond_lookup r s = map_of (sv_approvals s) (ar_eventId r)"

definition respond_send :: "nat \<Rightarrow> approval_response \<Rightarrow> server \<Rightarrow> ack \<times> server" where
  "respond_send ch r s =
     (if length (sv_answers s ! ch) < answer_buffer
      then (\<lparr>ack_accepted = True, ack_reason = []\<rparr>, s\<lparr>sv_answers := (sv_answers s)[ch := sv_answers s ! ch @ [r]]\<rparr>)
      else (\<lparr>ack_accepted = False, ack_reason = ''approval already received''\<rparr>, s))"

definition RespondToApproval :: "approval_response \<Rightarrow> server \<Rightarrow> ack \<times> server" where
  "RespondToApproval r s = (case respond_lookup r s of
     None \<Rightarrow> (\<lparr>ack_accepted = False, ack_reason = ''no pending approval for this event ID''\<rparr>, s)
   | Some ch \<Rightarrow> respond_send ch r s)"

text \<open>The receive in the select of the upgrade handler, on the channel \<open>WaitForApproval\<close> returned.\<close>

definition receive_answer :: "nat \<Rightarrow> server \<Rightarrow> (approval_response \<times> server) option" where
  "receive_answer ch s = (case sv_answers s ! ch of
     [] \<Rightarrow> None
   | r # q \<Rightarrow> Some (r, s\<lparr>sv_answers := (sv_answers s)[ch := q]\<rparr>))"

subsection \<open>What a broadcast does\<close>

lemma length_offer_all [simp]: "length (offer_all e subs chans) = length chans"
  by (induction e subs chans rule: offer_all.induct) auto

lemma offer_le [simp]: "length (offer cap x q) \<le> cap \<longleftrightarrow> length q \<le> cap"
  by (auto simp: offer_def)

text \<open>A session has its own channel, so the order in which the map is walked does not matter.\<close>

lemma offer_all_nth:
  assumes "distinct (map snd subs)" and "k < length chans"
  shows "offer_all e subs chans ! k = (if k \<in> snd ` set subs then offer event_buffer e (chans ! k) else chans ! k)"
  using assms
proof (induction e subs chans rule: offer_all.induct)
  case (2 e sid ch subs chans)
  then show ?case by (cases "k = ch") (auto simp: image_iff)
qed simp

lemma offer_all_order:
  assumes "distinct (map snd subs)" and "mset subs' = mset subs"
  shows "offer_all e subs' chans = offer_all e subs chans"
proof (rule nth_equalityI)
  fix k assume "k < length (offer_all e subs' chans)"
  moreover have "distinct (map snd subs')" using assms by (metis distinct_map mset_eq_imp_distinct_iff mset_map)
  moreover have "set subs' = set subs" using assms(2) by (rule mset_eq_setD)
  ultimately show "offer_all e subs' chans ! k = offer_all e subs chans ! k"
    using assms(1) by (simp add: offer_all_nth)
qed simp

section \<open>The protocol\<close>

text \<open>
  A stream is one call of \<open>Subscribe\<close>; stream \<open>k\<close> reads from event channel \<open>k\<close>. The other fields
  beside the server are the calls of \<open>RespondToApproval\<close> that have looked up their channel and not
  sent yet, and histories: the events broadcast, the event ID each answer channel was made for, and
  the answers accepted and received with their channels.
\<close>

record stream =
  st_session :: string
  st_sent :: "nevent list"
  st_open :: bool

record nsys =
  ns_server :: server
  ns_streams :: "stream list"
  ns_pending :: "(nat \<times> approval_response) list"
  ns_broadcast :: "nevent list"
  ns_owner :: "string list"
  ns_accepted :: "(nat \<times> approval_response) list"
  ns_received :: "(nat \<times> approval_response) list"

definition nsys_init :: nsys where
  "nsys_init = \<lparr>ns_server = NewServer, ns_streams = [], ns_pending = [], ns_broadcast = [], ns_owner = [],
     ns_accepted = [], ns_received = []\<rparr>"

definition do_connect :: "string \<Rightarrow> nsys \<Rightarrow> nsys" where
  "do_connect sid s = s\<lparr>ns_server := subscribe_enter sid (ns_server s),
     ns_streams := ns_streams s @ [\<lparr>st_session = sid, st_sent = [], st_open = True\<rparr>]\<rparr>"

definition do_leave :: "nat \<Rightarrow> nsys \<Rightarrow> nsys" where
  "do_leave k s = s\<lparr>ns_server := subscribe_exit (st_session (ns_streams s ! k)) (ns_server s),
     ns_streams := (ns_streams s)[k := (ns_streams s ! k)\<lparr>st_open := False\<rparr>]\<rparr>"

definition do_deliver :: "nat \<Rightarrow> nevent \<Rightarrow> server \<Rightarrow> nsys \<Rightarrow> nsys" where
  "do_deliver k e sv s = s\<lparr>ns_server := sv,
     ns_streams := (ns_streams s)[k := (ns_streams s ! k)\<lparr>st_sent := st_sent (ns_streams s ! k) @ [e]\<rparr>]\<rparr>"

definition do_notify :: "string \<Rightarrow> instant \<Rightarrow> nevent \<Rightarrow> nsys \<Rightarrow> nsys" where
  "do_notify uuid t e s = s\<lparr>ns_server := server_Notify uuid t e (ns_server s),
     ns_broadcast := ns_broadcast s @ [stamped uuid t e]\<rparr>"

definition do_wait :: "string \<Rightarrow> nsys \<Rightarrow> nsys" where
  "do_wait eid s = s\<lparr>ns_server := snd (WaitForApproval eid (ns_server s)), ns_owner := ns_owner s @ [eid]\<rparr>"

definition do_answer :: "nat \<Rightarrow> approval_response \<Rightarrow> nsys \<Rightarrow> nsys" where
  "do_answer ch r s = (case respond_send ch r (ns_server s) of (a, sv) \<Rightarrow>
     s\<lparr>ns_server := sv, ns_pending := remove1 (ch, r) (ns_pending s),
       ns_accepted := ns_accepted s @ (if ack_accepted a then [(ch, r)] else [])\<rparr>)"

inductive nstep :: "nsys \<Rightarrow> nsys \<Rightarrow> bool" where
  connect: "uuid \<noteq> [] \<Longrightarrow> nstep s (do_connect (session_id req uuid) s)"
| leave: "k < length (ns_streams s) \<Longrightarrow> st_open (ns_streams s ! k) \<Longrightarrow> nstep s (do_leave k s)"
| deliver: "k < length (ns_streams s) \<Longrightarrow> st_open (ns_streams s ! k) \<Longrightarrow>
     subscribe_receive k (ns_server s) = Some (e, sv) \<Longrightarrow> nstep s (do_deliver k e sv s)"
| send_error: "k < length (ns_streams s) \<Longrightarrow> st_open (ns_streams s ! k) \<Longrightarrow>
     subscribe_receive k (ns_server s) = Some (e, sv) \<Longrightarrow> nstep s (do_leave k (s\<lparr>ns_server := sv\<rparr>))"
| notify: "uuid \<noteq> [] \<Longrightarrow> nstep s (do_notify uuid t e s)"
| wait: "nstep s (do_wait eid s)"
| find_channel: "respond_lookup r (ns_server s) = Some ch \<Longrightarrow> nstep s (s\<lparr>ns_pending := ns_pending s @ [(ch, r)]\<rparr>)"
| answer: "(ch, r) \<in> set (ns_pending s) \<Longrightarrow> nstep s (do_answer ch r s)"
| receive: "ch < length (ns_owner s) \<Longrightarrow> receive_answer ch (ns_server s) = Some (r, sv) \<Longrightarrow>
     nstep s (s\<lparr>ns_server := sv, ns_received := ns_received s @ [(ch, r)]\<rparr>)"
| cancel: "nstep s (s\<lparr>ns_server := CancelApproval eid (ns_server s)\<rparr>)"

definition nreach :: "nsys \<Rightarrow> bool" where
  "nreach s \<longleftrightarrow> nstep\<^sup>*\<^sup>* nsys_init s"

lemma nreach_induct [consumes 1, case_names init step]:
  assumes "nreach s" and "P nsys_init" and "\<And>s s'. nreach s \<Longrightarrow> P s \<Longrightarrow> nstep s s' \<Longrightarrow> P s'"
  shows "P s"
proof -
  from assms(1) have "nstep\<^sup>*\<^sup>* nsys_init s" by (simp add: nreach_def)
  then have "nreach s \<and> P s"
    by (induction rule: rtranclp_induct) (auto simp: nreach_def assms(2) intro: assms(3) rtranclp.rtrancl_into_rtrancl)
  then show ?thesis ..
qed

lemmas do_defs = do_connect_def do_leave_def do_deliver_def do_notify_def do_wait_def do_answer_def

lemmas server_defs = subscribe_enter_def subscribe_exit_def subscribe_receive_def server_Notify_def
  WaitForApproval_def CancelApproval_def respond_lookup_def respond_send_def receive_answer_def

end
