(* ===== verification/Upgrade.thy ===== *)
theory Upgrade
  imports NodeStatus
begin

text \<open>
  The upgrade of a node (\<^verbatim>\<open>internal/controller/common/managednode_controller.go\<close>): the schedule, the
  group lock, the approval by a notification agent, cordoning and draining of the Kubernetes node,
  the upgrade itself and the reboot.

  \<open>handleUpgrade\<close> of the source is one long function with early returns. Here each stage is a
  definition that ends in the next one: \<open>handleUpgrade\<close>, \<open>upgrade_scheduled\<close>, \<open>upgrade_when_due\<close>,
  \<open>upgrade_approved\<close>, \<open>upgrade_locked\<close>, \<open>run_upgrade\<close>, \<open>record_and_reboot\<close>. The result is the pair the
  source returns: the next wake-up time (\<open>zero_time\<close> for none) and an error.
\<close>

type_synonym upgrade_result = "instant \<times> err option"

section \<open>Time of the last upgrade\<close>

definition AnnotationUpgradeHold :: string where
  "AnnotationUpgradeHold = ''upgrade.nodemanager/hold''"

definition legacy_last :: string where
  "legacy_last = ''upgrade.nodemanager/last''"

definition legacy_cordoned :: string where
  "legacy_cordoned = ''upgrade.nodemanager/k8s-cordoned''"

definition lastUpgradeTime :: "managednode \<Rightarrow> instant res" where
  "lastUpgradeTime node = (case st_lastUpgrade (mn_status node) of
     Some t \<Rightarrow> Inr t
   | None \<Rightarrow> (case map_of (om_annotations (mn_meta node)) legacy_last of
       Some v \<Rightarrow> (case Parse_RFC3339 v of
           Inl e \<Rightarrow> Inl (Wrap ''failed to parse legacy upgrade annotation'' e)
         | Inr t \<Rightarrow> Inr t)
     | None \<Rightarrow> Inr zero_time))"

text \<open>One entry of \<open>migrations\<close>: its annotation, whether it is needed, and the status field it sets.\<close>

definition migrate_one :: "'h env \<Rightarrow> managednode \<Rightarrow> string \<Rightarrow> bool \<Rightarrow>
    (instant \<Rightarrow> managednode_status \<Rightarrow> managednode_status) \<Rightarrow> ('h world, bool res) state" where
  "migrate_one env node annotation needed setter =
     (if \<not> needed then ret (Inr False)
      else (case map_of (om_annotations (mn_meta node)) annotation of
        None \<Rightarrow> ret (Inr False)
      | Some v \<Rightarrow> (case Parse_RFC3339 v of
          Inl e \<Rightarrow> ret (Inl (Wrap (''failed to parse legacy annotation '' @ annotation) e))
        | Inr t \<Rightarrow>
            check (rewrite_status env (node_key node) (setter t))
              (Wrap (''failed to migrate '' @ annotation @ '' to status''))
              (check (rewrite_meta env (node_key node)
                   (\<lambda>m. m\<lparr>om_annotations := AList.delete annotation (om_annotations m)\<rparr>))
                 (Wrap (''failed to remove legacy annotation '' @ annotation)) (ret (Inr True))))))"

definition migrateUpgradeAnnotation :: "'h env \<Rightarrow> managednode \<Rightarrow> ('h world, managednode res) state" where
  "migrateUpgradeAnnotation env node =
     or_return (migrate_one env node legacy_last (st_lastUpgrade (mn_status node) = None)
         (\<lambda>t s. s\<lparr>st_lastUpgrade := Some t\<rparr>)) id (\<lambda>a.
     or_return (migrate_one env node legacy_cordoned (st_kubernetesNodeCordoned (mn_status node) = None)
         (\<lambda>t s. s\<lparr>st_kubernetesNodeCordoned := Some t\<rparr>)) id (\<lambda>b.
     if a \<or> b then api_get env as_node KManagedNode (node_key node) else ret (Inr node)))"

section \<open>Cordon and drain\<close>

definition getKubernetesNode :: "'h env \<Rightarrow> string \<Rightarrow> ('h world, k8s_node option res) state" where
  "getKubernetesNode env hostname = do {
     r \<leftarrow> api_get env as_k8s_node KNode (nsn [] hostname);
     ret (case r of
            Inr n \<Rightarrow> Inr (Some n)
          | Inl e \<Rightarrow> if is_not_found e then Inr None else Inl (Wrap ''failed to get kubernetes node'' e))
   }"

definition cordon_call :: "'h env \<Rightarrow> string \<Rightarrow> bool \<Rightarrow> ('h world, err option) state" where
  "cordon_call env name b = called (Cordon name b) (ext (cl_cordon (e_client env) name b))"

definition cordonNode :: "'h env \<Rightarrow> managednode \<Rightarrow> k8s_node \<Rightarrow> ('h world, err option) state" where
  "cordonNode env node k8sNode =
     check_fail (cordon_call env (om_name (kn_meta k8sNode)) True) (Wrap ''failed to cordon kubernetes node'') (do {
       t \<leftarrow> now (e_host env);
       check_fail (rewrite_status env (node_key node) (\<lambda>s. s\<lparr>st_kubernetesNodeCordoned := Some t\<rparr>))
         (Wrap ''failed to set cordon status on ManagedNode'') (ret None)
     })"

definition uncordonNode :: "'h env \<Rightarrow> managednode \<Rightarrow> ('h world, err option) state" where
  "uncordonNode env node =
     or_fail (getKubernetesNode env (om_name (mn_meta node))) id (\<lambda>k8sNode.
       check_fail (case k8sNode of
           None \<Rightarrow> ret None
         | Some n \<Rightarrow> cordon_call env (om_name (kn_meta n)) False)
         (Wrap ''failed to uncordon kubernetes node'')
         (check_fail (rewrite_status env (node_key node) (\<lambda>s. s\<lparr>st_kubernetesNodeCordoned := None\<rparr>))
           (Wrap ''failed to clear cordon status on ManagedNode'') (ret None)))"

definition maybeUncordon :: "'h env \<Rightarrow> managednode \<Rightarrow> ('h world, err option) state" where
  "maybeUncordon env node =
     (if st_kubernetesNodeCordoned (mn_status node) = None then ret None else uncordonNode env node)"

definition isDrainablePod :: "pod \<Rightarrow> bool" where
  "isDrainablePod p =
     (if om_deletionTimestamp (pod_meta p) \<noteq> None then False
      else if pod_phase p = PodSucceeded \<or> pod_phase p = PodFailed then False
      else if list_ex (\<lambda>k. k = ''DaemonSet'') (pod_ownerKinds p) then False
      else if map_of (om_annotations (pod_meta p)) ''kubernetes.io/config.mirror'' \<noteq> None then False
      else True)"

text \<open>The list request for the pods with \<^verbatim>\<open>spec.nodeName=hostname\<close> in all namespaces.\<close>

definition pods_on :: "'h mn_env \<Rightarrow> string \<Rightarrow> ('h world, pod list res) state" where
  "pods_on me hostname = ext (me_podsOn me hostname)"

fun evict_pods :: "'h env \<Rightarrow> pod list \<Rightarrow> ('h world, unit) state" where
  "evict_pods env [] = ret ()"
| "evict_pods env (p # ps) = do {
     _ \<leftarrow> (if isDrainablePod p then
             (let key = nsn (om_namespace (pod_meta p)) (om_name (pod_meta p))
              in called (EvictPod key) (ext (cl_evict (e_client env) key)))
           else ret None);
     evict_pods env ps
   }"

text \<open>
  The waiting loop. Each round sleeps five seconds and stops once the clock has passed the deadline,
  so \<open>drain_fuel\<close> rounds are enough on a clock that moves with the sleeping (\<open>drain_wait_enough\<close>);
  running out of fuel is the result \<open>None\<close>.
\<close>

fun drain_wait :: "nat \<Rightarrow> 'h mn_env \<Rightarrow> string \<Rightarrow> instant \<Rightarrow> ('h world, err option option) state" where
  "drain_wait 0 me hostname deadline = ret None"
| "drain_wait (Suc n) me hostname deadline = do {
     r \<leftarrow> pods_on me hostname;
     (case r of
        Inl e \<Rightarrow> ret (Some (Some (Wrap ''failed to list pods during drain'' e)))
      | Inr pods \<Rightarrow>
          if filter isDrainablePod pods = [] then ret (Some None)
          else do {
            t \<leftarrow> now (me_host me);
            if deadline < t then ret (Some (Some (Plain ''drain timed out'')))
            else do { ext (me_sleep me (5 * second)); drain_wait n me hostname deadline }
          })
   }"

definition drain_fuel :: "duration \<Rightarrow> nat" where
  "drain_fuel timeout = nat (timeout div (5 * second)) + 2"

definition drainNode :: "'h mn_env \<Rightarrow> string \<Rightarrow> ('h world, err option) state" where
  "drainNode me hostname =
     or_fail (pods_on me hostname) (Wrap ''failed to list pods on node'') (\<lambda>pods. do {
       evict_pods (me_env me) pods;
       t \<leftarrow> now (me_host me);
       r \<leftarrow> drain_wait (drain_fuel (mc_drainTimeout (me_cfg me))) me hostname (t + mc_drainTimeout (me_cfg me));
       ret (case r of Some e \<Rightarrow> e | None \<Rightarrow> Some (Plain ''drain did not return''))
     })"

section \<open>Approval\<close>

definition notify :: "'h mn_env \<Rightarrow> notice \<Rightarrow> ('h world, unit) state" where
  "notify me n = (case me_notifier me of
     None \<Rightarrow> ret ()
   | Some nt \<Rightarrow> do { ext (nt_Notify nt n); log_event (EvCall (NotifyCall n) True) })"

definition upgrade_event_id :: "string \<Rightarrow> instant \<Rightarrow> string" where
  "upgrade_event_id name t = ''upgrade-'' @ name @ ''-'' @ Itoa (t div second)"

definition approval_of :: "select_result \<Rightarrow> bool res" where
  "approval_of r = (case r of
     Response APPROVE \<Rightarrow> Inr True
   | Response DENY \<Rightarrow> Inr False
   | Response DELAY \<Rightarrow> Inr False
   | Response UNSPECIFIED \<Rightarrow> Inr True
   | Deadline \<Rightarrow> Inr True
   | CtxDone e \<Rightarrow> Inl e)"

definition requestUpgradeApproval :: "'h mn_env \<Rightarrow> 'h notifier \<Rightarrow> managednode \<Rightarrow> instant \<Rightarrow>
    ('h world, bool res) state" where
  "requestUpgradeApproval me nt node scheduledTime = do {
     let eventID = upgrade_event_id (om_name (mn_meta node)) scheduledTime;
     t \<leftarrow> now (me_host me);
     let deadline = t + mc_forgiveness (me_cfg me);
     ext (nt_WaitForApproval nt eventID);
     notify me (UpgradeApprovalRequest eventID (''system upgrade on '' @ om_name (mn_meta node)) scheduledTime deadline);
     t2 \<leftarrow> now (me_host me);
     r \<leftarrow> ext (nt_await nt eventID (time_sub deadline t2));
     log_event (EvCall (ApprovalWait eventID) (approval_of r = Inr True));
     ext (nt_CancelApproval nt eventID);
     ret (approval_of r)
   }"

section \<open>The upgrade\<close>

definition record_and_reboot :: "'h mn_env \<Rightarrow> managednode \<Rightarrow> ('h world, upgrade_result) state" where
  "record_and_reboot me node = do {
     t \<leftarrow> now (me_host me);
     e \<leftarrow> rewrite_status (me_env me) (node_key node) (\<lambda>s. s\<lparr>st_lastUpgrade := Some t\<rparr>);
     (case e of
        Some x \<Rightarrow> ret (zero_time, Some (Wrap ''failed to set last upgrade time'' x))
      | None \<Rightarrow> do {
          notify me (UpgradeCompleted True True);
          nh_Reboot (sy_node (e_system (me_env me)));
          log_event (EvCall NodeReboot True);
          ret (zero_time, None)
        })
   }"

definition drain_first :: "'h mn_env \<Rightarrow> managednode \<Rightarrow> ('h world, err option) state" where
  "drain_first me node =
     or_fail (getKubernetesNode (me_env me) (om_name (mn_meta node))) id (\<lambda>k8sNode.
       (case k8sNode of
          None \<Rightarrow> ret None
        | Some n \<Rightarrow> check_fail (cordonNode (me_env me) node n) id (do {
            _ \<leftarrow> drainNode me (om_name (mn_meta node));
            ret None
          })))"

definition run_upgrade :: "'h mn_env \<Rightarrow> managednode \<Rightarrow> instant \<Rightarrow> duration \<Rightarrow> ('h world, upgrade_result) state" where
  "run_upgrade me node next delay = do {
     notify me (UpgradeStarted (''system upgrade on '' @ om_name (mn_meta node)));
     d \<leftarrow> drain_first me node;
     (case d of
        Some e \<Rightarrow> ret (zero_time, Some e)
      | None \<Rightarrow> do {
          p \<leftarrow> called PkgUpgradeAll (ph_UpgradeAll (sy_package (e_system (me_env me))));
          (case p of
             Some e \<Rightarrow> ret (next + delay, Some e)
           | None \<Rightarrow> do {
               u \<leftarrow> called NodeUpgrade (nh_Upgrade (sy_node (e_system (me_env me))));
               (case u of
                  Some e \<Rightarrow> ret (next + delay, Some e)
                | None \<Rightarrow> record_and_reboot me node)
             })
        })
   }"

definition upgrade_group :: "managednode \<Rightarrow> nsname option" where
  "upgrade_group node =
     (let g = up_group (mns_upgrade (mn_spec node))
      in if g = [] then None else Some (nsn (om_namespace (mn_meta node)) g))"

definition lockfor_call :: "'h env \<Rightarrow> nsname \<Rightarrow> duration \<Rightarrow> ('h world, err option) state" where
  "lockfor_call env req d = called (LockForCall req d) (ext (lk_LockFor (e_locker env) req d))"

definition upgrade_locked :: "'h mn_env \<Rightarrow> managednode \<Rightarrow> (instant \<Rightarrow> instant) \<Rightarrow> instant \<Rightarrow> duration \<Rightarrow>
    ('h world, upgrade_result) state" where
  "upgrade_locked me node sched next delay = (case upgrade_group node of
     None \<Rightarrow> run_upgrade me node next delay
   | Some req \<Rightarrow> do {
       t \<leftarrow> now (me_host me);
       t2 \<leftarrow> now (me_host me);
       e \<leftarrow> lockfor_call (me_env me) req (time_sub (sched t) t2);
       (case e of
          None \<Rightarrow> run_upgrade me node next delay
        | Some x \<Rightarrow> if is_conflict x then ret (next, None) else ret (zero_time, Some x))
     })"

definition upgrade_approved :: "'h mn_env \<Rightarrow> managednode \<Rightarrow> (instant \<Rightarrow> instant) \<Rightarrow> instant \<Rightarrow> duration \<Rightarrow>
    ('h world, upgrade_result) state" where
  "upgrade_approved me node sched next delay = (case me_notifier me of
     None \<Rightarrow> upgrade_locked me node sched next delay
   | Some nt \<Rightarrow> do {
       s \<leftarrow> ext (nt_HasSubscribers nt);
       if \<not> s then ret (next, None)
       else do {
         a \<leftarrow> requestUpgradeApproval me nt node next;
         (if a = Inr True then upgrade_locked me node sched next delay else ret (next, None))
       }
     })"

text \<open>The three-way test on the distance to \<open>next\<close>; the last two branches both return \<open>next\<close>.\<close>

definition upgrade_when_due :: "'h mn_env \<Rightarrow> managednode \<Rightarrow> (instant \<Rightarrow> instant) \<Rightarrow> instant \<Rightarrow> instant \<Rightarrow> duration \<Rightarrow>
    ('h world, upgrade_result) state" where
  "upgrade_when_due me node sched next lastT delay = do {
     t \<leftarrow> (if lastT = zero_time then ret zero_time else now (me_host me));
     if lastT \<noteq> zero_time \<and> time_sub t lastT < delay then ret (next, None)
     else do {
       t2 \<leftarrow> now (me_host me);
       if time_sub t2 next < mc_forgiveness (me_cfg me)
       then upgrade_approved me node sched next delay
       else ret (next, None)
     }
   }"

definition upgrade_scheduled :: "'h mn_env \<Rightarrow> managednode \<Rightarrow> (instant \<Rightarrow> instant) \<Rightarrow> duration \<Rightarrow>
    ('h world, upgrade_result) state" where
  "upgrade_scheduled me node sched delay = do {
     t \<leftarrow> now (me_host me);
     let next = sched (t - mc_forgiveness (me_cfg me));
     (case lastUpgradeTime node of
        Inl e \<Rightarrow> ret (zero_time, Some e)
      | Inr lastT \<Rightarrow> (case upgrade_group node of
          None \<Rightarrow> upgrade_when_due me node sched next lastT delay
        | Some req \<Rightarrow> do {
            l \<leftarrow> ext (lk_Locked (e_locker (me_env me)) req);
            if l then do {
              _ \<leftarrow> called (UnlockCall req) (ext (lk_Unlock (e_locker (me_env me)) req));
              ret (next, None)
            } else upgrade_when_due me node sched next lastT delay
          }))
   }"

definition handleUpgrade :: "'h mn_env \<Rightarrow> managednode \<Rightarrow> ('h world, upgrade_result) state" where
  "handleUpgrade me node =
     (let up = mns_upgrade (mn_spec node) in
      if map_of (om_annotations (mn_meta node)) AnnotationUpgradeHold \<noteq> None then ret (zero_time, None)
      else if up_schedule up = [] then ret (zero_time, None)
      else if up_delay up = [] then ret (zero_time, None)
      else (case ParseDuration (up_delay up) of
              Inl e \<Rightarrow> ret (zero_time, Some (Wrap ''failed to parse upgrade delay'' e))
            | Inr delay \<Rightarrow> (case me_cron me (up_schedule up) of
                Inl e \<Rightarrow> ret (zero_time, Some (Wrap ''failed to parse upgrade schedule'' e))
              | Inr sched \<Rightarrow> upgrade_scheduled me node sched delay)))"

section \<open>Reconcile\<close>

text \<open>
  \<open>newNameFilterPredicate\<close> lets through the events of the node of this host. A result is the
  \<^verbatim>\<open>RequeueAfter\<close> (0 or less: no requeue) and an error.
\<close>

definition newNameFilterPredicate :: "string \<Rightarrow> object_meta \<Rightarrow> bool" where
  "newNameFilterPredicate targetName m \<longleftrightarrow> om_name m = targetName"

definition period_of :: "string \<Rightarrow> duration" where
  "period_of s =
     (if s = [] then 0 else (case ParseDuration s of Inl _ \<Rightarrow> 0 | Inr d \<Rightarrow> if 0 < d then d else 0))"

definition requeue_at :: "'h mn_env \<Rightarrow> managednode \<Rightarrow> instant \<Rightarrow> ('h world, duration \<times> err option) state" where
  "requeue_at me node next =
     (if next \<noteq> zero_time then do { t \<leftarrow> now (me_host me); ret (time_sub next t, None) }
      else ret (period_of (mns_reconcilePeriod (mn_spec node)), None))"

definition reconcile_node :: "'h mn_env \<Rightarrow> managednode \<Rightarrow> ('h world, (duration \<times> err option)) state" where
  "reconcile_node me node = do {
     r \<leftarrow> check (maybeUncordon (me_env me) node) id
       (or_return (updateNodeLabels me node) id (\<lambda>node1.
        check (updateNodeStatus me node1) id
          (check (pruneStaleConfigSetStatus (me_env me) node1) id
             (migrateUpgradeAnnotation (me_env me) node1))));
     (case r of
        Inl e \<Rightarrow> ret (0, Some e)
      | Inr node2 \<Rightarrow> do {
          (next, e) \<leftarrow> handleUpgrade me node2;
          (if e \<noteq> None then ret (0, e) else requeue_at me node2 next)
        })
   }"

definition ManagedNode_Reconcile :: "'h mn_env \<Rightarrow> nsname \<Rightarrow> ('h world, (duration \<times> err option)) state" where
  "ManagedNode_Reconcile me req = do {
     r \<leftarrow> GetNode (me_env me) req;
     (case r of
        Inl e \<Rightarrow> ret (0, ignore_not_found e)
      | Inr None \<Rightarrow> ret (0, None)
      | Inr (Some node) \<Rightarrow> reconcile_node me node)
   }"

end
