(* ===== verification/UpgradeCorrect.thy ===== *)
theory UpgradeCorrect
  imports Upgrade ConfigSetCorrect
begin

text \<open>
  What the ManagedNode reconciler guarantees about upgrades: nothing disruptive happens without the
  group lock and the approval, a reboot follows a completed and recorded upgrade, a drain evicts
  exactly the drainable pods and ends, and only a cordon of its own is lifted.
\<close>

section \<open>Classes of events\<close>

definition disruptive :: "event \<Rightarrow> bool" where
  "disruptive e = (case e of
     EvCall c _ \<Rightarrow> (case c of PkgUpgradeAll \<Rightarrow> True | NodeUpgrade \<Rightarrow> True | NodeReboot \<Rightarrow> True
       | Cordon _ b \<Rightarrow> b | EvictPod _ \<Rightarrow> True | _ \<Rightarrow> False)
   | _ \<Rightarrow> False)"

definition upgrading :: "event \<Rightarrow> bool" where
  "upgrading e = (case e of
     EvCall c _ \<Rightarrow> (case c of PkgUpgradeAll \<Rightarrow> True | NodeUpgrade \<Rightarrow> True | NodeReboot \<Rightarrow> True | _ \<Rightarrow> False)
   | _ \<Rightarrow> False)"

definition calm :: "event list \<Rightarrow> bool" where
  "calm es = list_all (\<lambda>e. \<not> disruptive e) es"

lemma upgrading_disruptive: "upgrading e \<Longrightarrow> disruptive e"
  by (auto simp: upgrading_def disruptive_def split: event.splits call.splits)

lemma not_disruptive [simp]:
  "is_exec e \<Longrightarrow> \<not> disruptive e" "\<not> disruptive (EvApi v x b)" "\<not> disruptive (EvCall (NotifyCall n) b)"
  "\<not> disruptive (EvCall (LockForCall r d) b)" "\<not> disruptive (EvCall (UnlockCall r) b)"
  "\<not> disruptive (EvCall (ApprovalWait i) b)" "\<not> disruptive (EvCall (Cordon k False) b)"
  by (auto simp: disruptive_def is_exec_def split: event.splits)

lemma not_upgrading [simp]:
  "is_exec e \<Longrightarrow> \<not> upgrading e" "\<not> upgrading (EvApi v x b)" "\<not> upgrading (EvCall (NotifyCall n) b)"
  "\<not> upgrading (EvCall (LockForCall r d) b)" "\<not> upgrading (EvCall (UnlockCall r) b)"
  "\<not> upgrading (EvCall (ApprovalWait i) b)" "\<not> upgrading (EvCall (Cordon k c) b)"
  "\<not> upgrading (EvCall (EvictPod p) b)"
  by (auto simp: upgrading_def is_exec_def split: event.splits)

lemma calm_simps [simp]:
  "calm []" "calm (xs @ ys) \<longleftrightarrow> calm xs \<and> calm ys" "calm (e # es) \<longleftrightarrow> \<not> disruptive e \<and> calm es"
  by (auto simp: calm_def)

lemma calm_not_upgrading: "calm es \<Longrightarrow> list_all (\<lambda>e. \<not> upgrading e) es"
  by (auto simp: calm_def list_all_iff dest: upgrading_disruptive)

section \<open>What the parts of an upgrade leave on the trace\<close>

lemma emits_notify [emits_rules]: "(\<And>b. P (EvCall (NotifyCall n) b)) \<Longrightarrow> emits P (notify me n)"
  unfolding notify_def by (intro emits_rules)

lemma emits_rewrite_status [emits_rules]:
  "(\<And>n b. P (EvApi VUpdateStatus (OManagedNode n) b)) \<Longrightarrow> emits P (rewrite_status env key f)"
  unfolding rewrite_status_def by (intro emits_rules)

lemma emits_rewrite_meta [emits_rules]:
  "(\<And>n b. P (EvApi VUpdate (OManagedNode n) b)) \<Longrightarrow> emits P (rewrite_meta env key f)"
  unfolding rewrite_meta_def by (intro emits_rules)

lemma emits_cordon_call [emits_rules]:
  "(\<And>b. P (EvCall (Cordon n c) b)) \<Longrightarrow> emits P (cordon_call env n c)"
  unfolding cordon_call_def by (intro emits_rules)

lemma emits_getKubernetesNode [emits_rules]: "emits P (getKubernetesNode env hostname)"
  unfolding getKubernetesNode_def by (intro emits_rules)

lemma emits_pods_on [emits_rules]: "emits P (pods_on me hostname)"
  unfolding pods_on_def by (intro emits_rules)

lemma emits_evict_pods [emits_rules]:
  assumes "\<And>p b. P (EvCall (EvictPod p) b)"
  shows "emits P (evict_pods env ps)"
  by (induction ps) (auto intro!: emits_rules assms)

lemma emits_drain_wait [emits_rules]: "emits P (drain_wait n me hostname d)"
  by (induction n) (auto intro!: emits_rules)

lemma emits_drain_first [emits_rules]:
  "\<lbrakk>\<And>n b. P (EvCall (Cordon n True) b); \<And>p b. P (EvCall (EvictPod p) b);
    \<And>n b. P (EvApi VUpdateStatus (OManagedNode n) b)\<rbrakk> \<Longrightarrow> emits P (drain_first me node)"
  unfolding drain_first_def cordonNode_def drainNode_def by (intro emits_rules)

lemma emits_requestUpgradeApproval [emits_rules]:
  "\<lbrakk>\<And>n b. P (EvCall (NotifyCall n) b); \<And>i b. P (EvCall (ApprovalWait i) b)\<rbrakk> \<Longrightarrow>
    emits P (requestUpgradeApproval me nt node t)"
  unfolding requestUpgradeApproval_def by (intro emits_rules)

text \<open>A successful rewrite of the status wrote the new status of some version of the node.\<close>

definition wrote_status :: "(managednode_status \<Rightarrow> managednode_status) \<Rightarrow> event list \<Rightarrow> bool" where
  "wrote_status f es \<longleftrightarrow> (\<exists>n. EvApi VUpdateStatus (OManagedNode (n\<lparr>mn_status := f (mn_status n)\<rparr>)) True \<in> set es)"

lemma makes_updateStatus:
  "makes (\<lambda>r es. es = [EvApi VUpdateStatus x (r = None)]) (api_updateStatus env x)"
  by (rule makesI) (auto dest!: api_updateStatus_trace)

lemma makes_rewrite_status:
  "makes (\<lambda>r es. calm es \<and> (r = None \<longrightarrow> wrote_status f es)) (rewrite_status env key f)"
  unfolding rewrite_status_def or_fail_def
proof (intro makes_retry makes_bind_quiet makes_case_sum)
  show "emits is_exec (api_get env as_node KManagedNode key)" by (intro emits_rules)
  show "makes (\<lambda>r es. calm es \<and> (r = None \<longrightarrow> wrote_status f es))
      (api_updateStatus env (OManagedNode (n\<lparr>mn_status := f (mn_status n)\<rparr>)))" for n
    by (rule makes_mono[OF makes_updateStatus]) (auto simp: wrote_status_def)
qed (auto intro: makes_ret simp: wrote_status_def)

definition reboots :: "event list \<Rightarrow> bool" where
  "reboots es \<longleftrightarrow> (\<exists>mid t. es = mid @ [EvCall NodeReboot True] \<and> calm mid \<and>
     wrote_status (\<lambda>s. s\<lparr>st_lastUpgrade := Some t\<rparr>) mid)"

context system_service
begin

lemma makes_record_and_reboot:
  assumes "sys = e_system (me_env me)"
  shows "makes (\<lambda>r es. if snd r = None then reboots es else calm es) (record_and_reboot me node)"
  unfolding record_and_reboot_def
proof (rule makes_bind_quiet)
  fix t
  let ?f = "\<lambda>s :: managednode_status. s\<lparr>st_lastUpgrade := Some t\<rparr>"
  have notified: "makes (\<lambda>r es. calm es) (notify me n)" for n
    unfolding calm_def by (rule makes_emits) (intro emits_rules, simp)
  have reboot: "emits is_exec (nh_Reboot (sy_node (e_system (me_env me))))"
    using node_emits(1) assms by simp
  show "makes (\<lambda>r es. if snd r = None then reboots es else calm es)
      (rewrite_status (me_env me) (node_key node) ?f \<bind> (\<lambda>e. case e of
         None \<Rightarrow> notify me (UpgradeCompleted True True) \<bind> (\<lambda>_. nh_Reboot (sy_node (e_system (me_env me))) \<bind>
           (\<lambda>_. log_event (EvCall NodeReboot True) \<bind> (\<lambda>_. ret (zero_time, None))))
       | Some x \<Rightarrow> ret (zero_time, Some (Wrap ''failed to set last upgrade time'' x))))"
  proof (rule makes_bind[OF makes_rewrite_status], rule makes_case_option)
    fix x :: "err option" and es assume w: "calm es \<and> (x = None \<longrightarrow> wrote_status ?f es)" "x = None"
    show "makes (\<lambda>r fs. if snd r = None then reboots (es @ fs) else calm (es @ fs))
        (notify me (UpgradeCompleted True True) \<bind> (\<lambda>_. nh_Reboot (sy_node (e_system (me_env me))) \<bind>
           (\<lambda>_. log_event (EvCall NodeReboot True) \<bind> (\<lambda>_. ret (zero_time, None)))))"
    proof (rule makes_bind[OF notified], rule makes_bind_quiet[OF reboot])
      fix u fs assume "calm fs"
      with w have "reboots (es @ fs @ [EvCall NodeReboot True])"
        unfolding reboots_def by (intro exI[of _ "es @ fs"] exI[of _ t]) (auto simp: wrote_status_def)
      then show "makes (\<lambda>r gs. if snd r = None then reboots (es @ fs @ gs) else calm (es @ fs @ gs))
          (log_event (EvCall NodeReboot True) \<bind> (\<lambda>_. ret (zero_time, None)))"
        by (auto intro!: makesI)
    qed
  qed (auto intro: makes_ret)
qed (intro emits_rules)

end

text \<open>The shape of every run: what may precede the upgrade, how far it gets, and how it is reported.\<close>

definition upgrade_run :: "upgrade_result \<Rightarrow> event list \<Rightarrow> bool" where
  "upgrade_run r es \<longleftrightarrow>
     list_all (\<lambda>e. \<not> upgrading e) es \<or>
     (\<exists>pre. list_all (\<lambda>e. \<not> upgrading e) pre \<and>
       (es = pre @ [EvCall PkgUpgradeAll False] \<and> snd r \<noteq> None \<or>
        es = pre @ [EvCall PkgUpgradeAll True, EvCall NodeUpgrade False] \<and> snd r \<noteq> None \<or>
        (\<exists>rest. es = pre @ [EvCall PkgUpgradeAll True, EvCall NodeUpgrade True] @ rest \<and>
           (if snd r = None then reboots rest else calm rest))))"

lemma upgrade_run_prefix:
  assumes "list_all (\<lambda>e. \<not> upgrading e) ps" and "upgrade_run r es"
  shows "upgrade_run r (ps @ es)"
proof (cases "list_all (\<lambda>e. \<not> upgrading e) es")
  case False
  then obtain pre where "list_all (\<lambda>e. \<not> upgrading e) (ps @ pre)"
    "es = pre @ [EvCall PkgUpgradeAll False] \<and> snd r \<noteq> None \<or>
     es = pre @ [EvCall PkgUpgradeAll True, EvCall NodeUpgrade False] \<and> snd r \<noteq> None \<or>
     (\<exists>rest. es = pre @ [EvCall PkgUpgradeAll True, EvCall NodeUpgrade True] @ rest \<and>
        (if snd r = None then reboots rest else calm rest))"
    using assms unfolding upgrade_run_def by auto
  then show ?thesis unfolding upgrade_run_def by (intro disjI2 exI[of _ "ps @ pre"]) auto
qed (use assms in \<open>auto simp: upgrade_run_def\<close>)

lemma makes_upgrade_prefix:
  assumes "emits (\<lambda>e. \<not> upgrading e) m" and "\<And>x. makes upgrade_run (f x)"
  shows "makes upgrade_run (State_Monad.bind m f)"
  by (rule makes_bind[OF makes_emits[OF assms(1)]]) (blast intro: makes_mono[OF assms(2)] upgrade_run_prefix)

lemma upgrade_run_Nil: "upgrade_run r []"
  by (simp add: upgrade_run_def)

lemma upgrade_run_done:
  assumes "if snd r = None then reboots rest else calm rest"
  shows "upgrade_run r ([EvCall PkgUpgradeAll True, EvCall NodeUpgrade True] @ rest)"
  unfolding upgrade_run_def by (rule disjI2, rule exI[of _ "[]"]) (use assms in auto)

lemma upgrade_run_failed:
  assumes "snd r \<noteq> None"
  shows "upgrade_run r [EvCall PkgUpgradeAll False]" "upgrade_run r [EvCall PkgUpgradeAll True, EvCall NodeUpgrade False]"
  unfolding upgrade_run_def by (rule disjI2, rule exI[of _ "[]"], simp add: assms)+

context system_service
begin

lemma makes_run_upgrade:
  assumes "sys = e_system (me_env me)"
  shows "makes upgrade_run (run_upgrade me node next delay)"
proof -
  have up: "emits is_exec (ph_UpgradeAll (sy_package (e_system (me_env me))))"
      "emits is_exec (nh_Upgrade (sy_node (e_system (me_env me))))"
    using package_emits(4) node_emits(2) assms by auto
  let ?node = "\<lambda>u. case u of None \<Rightarrow> record_and_reboot me node | Some e \<Rightarrow> ret (next + delay, Some e)"
  have node: "makes (\<lambda>r fs. upgrade_run r (EvCall PkgUpgradeAll True # fs))
      (called NodeUpgrade (nh_Upgrade (sy_node (e_system (me_env me)))) \<bind> ?node)"
  proof (rule makes_bind[OF makes_called[OF up(2)]], rule makes_case_option)
    fix u :: "err option" and es assume es: "es = [EvCall NodeUpgrade (u = None)]"
    show "makes (\<lambda>r fs. upgrade_run r (EvCall PkgUpgradeAll True # es @ fs)) (record_and_reboot me node)"
      if "u = None"
      by (rule makes_mono[OF makes_record_and_reboot[OF assms]])
        (use es that upgrade_run_done in force)
    show "makes (\<lambda>r fs. upgrade_run r (EvCall PkgUpgradeAll True # es @ fs)) (ret (next + delay, Some e))"
      if "u = Some e" for e
      by (rule makes_ret) (use es that upgrade_run_failed in auto)
  qed
  have main: "makes upgrade_run (called PkgUpgradeAll (ph_UpgradeAll (sy_package (e_system (me_env me)))) \<bind> (\<lambda>p. case p of
      None \<Rightarrow> called NodeUpgrade (nh_Upgrade (sy_node (e_system (me_env me)))) \<bind> ?node
    | Some e \<Rightarrow> ret (next + delay, Some e)))"
  proof (rule makes_bind[OF makes_called[OF up(1)]], rule makes_case_option)
    fix p :: "err option" and es assume es: "es = [EvCall PkgUpgradeAll (p = None)]"
    show "makes (\<lambda>r fs. upgrade_run r (es @ fs))
        (called NodeUpgrade (nh_Upgrade (sy_node (e_system (me_env me)))) \<bind> ?node)" if "p = None"
      using node es that by simp
    show "makes (\<lambda>r fs. upgrade_run r (es @ fs)) (ret (next + delay, Some e))" if "p = Some e" for e
      by (rule makes_ret) (use es that upgrade_run_failed in auto)
  qed
  have "makes upgrade_run (drain_first me node \<bind> (\<lambda>d. case d of
      None \<Rightarrow> called PkgUpgradeAll (ph_UpgradeAll (sy_package (e_system (me_env me)))) \<bind> (\<lambda>p. case p of
        None \<Rightarrow> called NodeUpgrade (nh_Upgrade (sy_node (e_system (me_env me)))) \<bind> ?node
      | Some e \<Rightarrow> ret (next + delay, Some e))
    | Some e \<Rightarrow> ret (zero_time, Some e)))"
    by (rule makes_upgrade_prefix) (auto intro!: emits_rules makes_ret upgrade_run_Nil main split: option.split)
  then show ?thesis
    unfolding run_upgrade_def by (intro makes_upgrade_prefix[OF emits_notify]) simp_all
qed

lemma makes_handleUpgrade:
  assumes "sys = e_system (me_env me)"
  shows "makes upgrade_run (handleUpgrade me node)"
  unfolding handleUpgrade_def upgrade_scheduled_def upgrade_when_due_def upgrade_approved_def upgrade_locked_def
    lockfor_call_def Let_def
  by (intro makes_split makes_upgrade_prefix makes_run_upgrade[OF assms])
    (auto intro!: emits_rules makes_ret upgrade_run_Nil)

end

text \<open>C5: A node reboots only after an upgrade that completed and is on record. Every run of
  \<open>handleUpgrade\<close> makes no upgrade call at all, or it stops at the first upgrade step that fails and
  reports the error, or the package and the system upgrade both succeeded; in the last case a run
  without an error wrote the time of the upgrade to the node's status and then, last of all, rebooted,
  and a run with an error did not reboot.\<close>

theorem reboot_after_recorded_upgrade:
  assumes "system_service (e_system (me_env me))" and "run_state (handleUpgrade me node) w = (r, w')"
  shows "\<exists>es. w_trace w' = w_trace w @ es \<and> upgrade_run r (visible es)"
  using makesD[OF system_service.makes_handleUpgrade[OF assms(1) refl] assms(2)] .

section \<open>The schedule\<close>

text \<open>C37: The schedule never delays an upgrade. The source asks cron for the first time after \<open>now\<close> less the
  forgiveness period, so that time is never more than the forgiveness period in the past, and a time in
  the future, however far, passes the test as well. A node without group, notifier and hold whose last
  upgrade is long enough ago is upgraded at once, whatever its schedule says.\<close>

theorem upgrade_ignores_schedule:
  assumes clock: "\<And>s. run_state (h_now (me_host me)) s = (t, s)"
    and cron: "me_cron me (up_schedule (mns_upgrade (mn_spec node))) = Inr sched" "\<And>u. u < sched u"
    and delay: "ParseDuration (up_delay (mns_upgrade (mn_spec node))) = Inr delay"
    and set: "up_schedule (mns_upgrade (mn_spec node)) \<noteq> []" "up_delay (mns_upgrade (mn_spec node)) \<noteq> []"
    and free: "map_of (om_annotations (mn_meta node)) AnnotationUpgradeHold = None" "upgrade_group node = None"
      "me_notifier me = None"
    and long_ago: "lastUpgradeTime node = Inr lastT" "lastT = zero_time \<or> delay \<le> time_sub t lastT"
    and period: "0 < mc_forgiveness (me_cfg me)" "mc_forgiveness (me_cfg me) < 2 ^ 63"
  shows "run_state (handleUpgrade me node) w =
    run_state (run_upgrade me node (sched (t - mc_forgiveness (me_cfg me))) delay) w"
proof -
  have clock': "run_state (now (me_host me)) w = (t, w)" for w by (simp add: now_def clock)
  have "t - mc_forgiveness (me_cfg me) < sched (t - mc_forgiveness (me_cfg me))" by (rule cron)
  then have due: "time_sub t (sched (t - mc_forgiveness (me_cfg me))) < mc_forgiveness (me_cfg me)"
    using time_sub_less[OF period] by simp
  have "run_state (upgrade_when_due me node sched (sched (t - mc_forgiveness (me_cfg me))) lastT delay) w =
      run_state (run_upgrade me node (sched (t - mc_forgiveness (me_cfg me))) delay) w"
    using long_ago(2) due free
    by (auto simp: upgrade_when_due_def upgrade_approved_def upgrade_locked_def clock')
  then show ?thesis
    using delay cron(1) set free(1) by (simp add: handleUpgrade_def upgrade_scheduled_def clock' long_ago(1) free(2))
qed

text \<open>The reference environment: the reference host and API server, cron with the single schedule
  ``every midnight'', no notifier.\<close>

definition midnight :: "instant \<Rightarrow> instant" where
  "midnight t = (t div 86400000000000 + 1) * 86400000000000"

definition demo_me :: "api mn_env" where
  "demo_me = \<lparr>me_env = demo_env, me_cfg = default_managednode_config, me_agentVersion = ''v1'', me_notifier = None,
     me_cron = (\<lambda>s. Inr midnight), me_interfaces = ret (Inr []),
     me_generateKey = ret (Inr (''priv'', ''pub'')), me_podsOn = (\<lambda>n. ret (Inr [])),
     me_sleep = (\<lambda>d. State (\<lambda>s. ((), s\<lparr>as_now := as_now s + d\<rparr>)))\<rparr>"

definition demo_upgrade_node :: managednode where
  "demo_upgrade_node = demo_node\<lparr>mn_spec := (mn_spec demo_node)\<lparr>mns_upgrade :=
     \<lparr>up_group = [], up_schedule = ''@daily'', up_delay = ''12h''\<rparr>\<rparr>\<rparr>"

definition demo_upgrade_world :: "api world" where
  "demo_upgrade_world = demo_world [((KManagedNode, nsn ''ns'' ''n1''), OManagedNode demo_upgrade_node)] []"

text \<open>Fifteen hours after midnight, by a clock that stands still.\<close>

definition noon_host :: "api host" where
  "noon_host = ref_host\<lparr>h_now := ret 54000000000000\<rparr>"

definition noon_me :: "api mn_env" where
  "noon_me = demo_me\<lparr>me_env := demo_env\<lparr>e_host := noon_host\<rparr>\<rparr>"

lemma demo_delay: "ParseDuration ''12h'' = Inr 43200000000000"
  by code_simp

lemmas demo_node_defs = demo_upgrade_node_def demo_node_def empty_node_def empty_meta_def empty_status_def

lemma demo_me_simps [simp]:
  "me_env demo_me = demo_env" "me_notifier demo_me = None" "me_cron demo_me s = Inr midnight"
  "me_podsOn demo_me n = ret (Inr [])" "mc_forgiveness (me_cfg demo_me) = 60000000000"
  "e_host demo_env = ref_host" "e_client demo_env = store_client"
  "e_system demo_env = ArchLinux ref_host demo_ini ''amd64'' ''linux''"
  by (simp_all add: demo_me_def demo_env_def default_managednode_config_def second_def)

lemma midnight_later: "u < midnight u"
  by (simp add: midnight_def)

lemma demo_node_simps [simp]:
  "upgrade_group demo_upgrade_node = None" "lastUpgradeTime demo_upgrade_node = Inr zero_time"
  "mns_upgrade (mn_spec demo_upgrade_node) = \<lparr>up_group = [], up_schedule = ''@daily'', up_delay = ''12h''\<rparr>"
  "map_of (om_annotations (mn_meta demo_upgrade_node)) k = None"
  by (simp_all add: upgrade_group_def lastUpgradeTime_def demo_node_defs)

lemma noon_me_simps [simp]:
  "me_notifier noon_me = None" "me_cron noon_me s = Inr midnight" "mc_forgiveness (me_cfg noon_me) = 60000000000"
  "h_now (me_host noon_me) = ret 54000000000000"
  by (simp_all add: noon_me_def noon_host_def)

theorem upgrade_ignores_schedule_witness:
  "run_state (handleUpgrade noon_me demo_upgrade_node) demo_upgrade_world =
   run_state (run_upgrade noon_me demo_upgrade_node 86400000000000 43200000000000) demo_upgrade_world \<and>
   (54000000000000 :: instant) + 32400000000000 = 86400000000000"
proof -
  have "midnight (54000000000000 - 60000000000) = 86400000000000" by (simp add: midnight_def)
  then show ?thesis
    using upgrade_ignores_schedule[of noon_me 54000000000000 demo_upgrade_node midnight 43200000000000 zero_time demo_upgrade_world]
      demo_delay midnight_later
    by simp
qed

lemma demo_upgrade_runs:
  "run_state (handleUpgrade demo_me demo_upgrade_node) demo_upgrade_world =
   run_state (run_upgrade demo_me demo_upgrade_node 0 43200000000000) demo_upgrade_world"
proof -
  have "time_sub 0 0 < 60000000000" by (simp add: time_sub_def)
  then show ?thesis
    by (simp add: handleUpgrade_def demo_delay upgrade_scheduled_def upgrade_when_due_def upgrade_approved_def
        upgrade_locked_def now_def demo_upgrade_world_def demo_world_def midnight_def)
qed

lemma demo_upgrade_calls:
  "(let (r, w') = run_state (handleUpgrade demo_me demo_upgrade_node) demo_upgrade_world
    in (snd r, calls_of (w_trace w'))) = (None, [PkgUpgradeAll, NodeUpgrade, NodeReboot])"
  unfolding demo_upgrade_runs
  by (simp add: run_upgrade_def notify_def drain_first_def getKubernetesNode_def api_get_def decode_def called_def
      record_and_reboot_def rewrite_status_def RetryOnConflict_def default_backoff_steps_def numeral_eq_Suc
      api_updateStatus_def api_write_def now_def node_key_def nsn_def handler_unfold SimpleRunCommand_def
      RunCommand_def run_proc_def proc_result_def store_get_def store_update_def store_put_def Let_def key_of_def
      stamped_def demo_upgrade_world_def demo_world_def demo_node_defs ref_host_def not_found_def)

lemma demo_me_system: "system_service (e_system (me_env demo_me))"
  using demo_system by simp

theorem reboot_after_recorded_upgrade_witness:
  "\<exists>r w'. run_state (handleUpgrade demo_me demo_upgrade_node) demo_upgrade_world = (r, w') \<and>
     upgrade_run r (visible (w_trace w')) \<and> calls_of (w_trace w') = [PkgUpgradeAll, NodeUpgrade, NodeReboot]"
proof -
  obtain r w' where r: "run_state (handleUpgrade demo_me demo_upgrade_node) demo_upgrade_world = (r, w')" by fastforce
  have "w_trace demo_upgrade_world = []" by (simp add: demo_upgrade_world_def demo_world_def)
  with reboot_after_recorded_upgrade[OF demo_me_system r] r demo_upgrade_calls show ?thesis by auto
qed

section \<open>What must precede a disruption\<close>

definition guarded :: "(event list \<Rightarrow> bool) \<Rightarrow> event list \<Rightarrow> bool" where
  "guarded G es \<longleftrightarrow> calm es \<or> (\<exists>p q. es = p @ q \<and> calm p \<and> G p)"

lemma guarded_prefix: "calm ps \<Longrightarrow> guarded (\<lambda>p. G (ps @ p)) es \<Longrightarrow> guarded G (ps @ es)"
  unfolding guarded_def by (metis append.assoc calm_simps(2))

lemma guarded_now: "calm ps \<Longrightarrow> G ps \<Longrightarrow> guarded G (ps @ es)"
  unfolding guarded_def by blast

lemma guarded_calm: "calm es \<Longrightarrow> guarded G es"
  by (simp add: guarded_def)

lemma guarded_mono: "guarded G es \<Longrightarrow> (\<And>p. G p \<Longrightarrow> H p) \<Longrightarrow> guarded H es"
  unfolding guarded_def by blast

text \<open>The grants: the group lock if the node has a group, the approval if there is a notifier.\<close>

definition lock_granted :: "managednode \<Rightarrow> event list \<Rightarrow> bool" where
  "lock_granted node es \<longleftrightarrow> (case upgrade_group node of
     None \<Rightarrow> True | Some req \<Rightarrow> \<exists>d. EvCall (LockForCall req d) True \<in> set es)"

definition approval_granted :: "'h mn_env \<Rightarrow> event list \<Rightarrow> bool" where
  "approval_granted me es \<longleftrightarrow> (case me_notifier me of
     None \<Rightarrow> True | Some nt \<Rightarrow> \<exists>i. EvCall (ApprovalWait i) True \<in> set es)"

text \<open>Skipping over steps that disturb nothing.\<close>

lemma makes_guarded_skip:
  assumes "emits (\<lambda>e. \<not> disruptive e) m" and "\<And>x. makes (\<lambda>r es. guarded G es) (f x)"
    and "\<And>p q. G p \<Longrightarrow> G (q @ p)"
  shows "makes (\<lambda>r es. guarded G es) (State_Monad.bind m f)"
  by (rule makes_bind[OF makes_emits[OF assms(1)]])
    (auto intro!: makes_mono[OF assms(2)] guarded_prefix intro: guarded_mono assms(3) simp: calm_def)

lemma lock_granted_append: "lock_granted node p \<Longrightarrow> lock_granted node (q @ p)"
  by (auto simp: lock_granted_def split: option.splits)

lemma approval_granted_append:
  "approval_granted me p \<Longrightarrow> approval_granted me (q @ p)" "approval_granted me q \<Longrightarrow> approval_granted me (q @ p)"
  by (auto simp: approval_granted_def split: option.splits)

lemma makes_guarded_locked:
  assumes "system_service (e_system (me_env me))"
  shows "makes (\<lambda>r es. guarded (lock_granted node) es) (upgrade_locked me node sched next delay)"
proof (cases "upgrade_group node")
  case None
  then have "lock_granted node []" by (simp add: lock_granted_def)
  then have "guarded (lock_granted node) es" for es using guarded_now[of "[]"] by simp
  with None show ?thesis
    by (auto simp: upgrade_locked_def intro: makes_mono[OF system_service.makes_run_upgrade[OF assms refl]])
next
  case (Some req)
  have locked: "makes (\<lambda>r es. guarded (lock_granted node) es)
      (lockfor_call (me_env me) req d \<bind> (\<lambda>e. case e of
         None \<Rightarrow> run_upgrade me node next delay
       | Some x \<Rightarrow> if is_conflict x then ret (next, None) else ret (zero_time, Some x)))" for d
    unfolding lockfor_call_def
  proof (rule makes_bind[OF makes_called], rule emits_ext, rule makes_case_option)
    fix e :: "err option" and es assume es: "es = [EvCall (LockForCall req d) (e = None)]"
    show "makes (\<lambda>r fs. guarded (lock_granted node) (es @ fs)) (run_upgrade me node next delay)" if "e = None"
      using es that Some
      by (intro makes_mono[OF system_service.makes_run_upgrade[OF assms refl]] guarded_now)
        (auto simp: lock_granted_def)
  qed (auto intro!: makes_ret guarded_calm)
  show ?thesis
    unfolding upgrade_locked_def Some option.case
    by (intro makes_bind_quiet locked emits_rules)
qed

definition cleared :: "'h mn_env \<Rightarrow> managednode \<Rightarrow> event list \<Rightarrow> bool" where
  "cleared me node es \<longleftrightarrow> lock_granted node es \<and> approval_granted me es"

lemma makes_approval:
  "makes (\<lambda>r es. calm es \<and> (r = Inr True \<longrightarrow> (\<exists>i. EvCall (ApprovalWait i) True \<in> set es)))
     (requestUpgradeApproval me nt node t)"
  unfolding requestUpgradeApproval_def Let_def
proof (rule makes_bind_quiet, rule emits_now, rule makes_bind_quiet, rule emits_ext, rule makes_bind)
  show "makes (\<lambda>r es. calm es) (notify me n)" for n
    unfolding calm_def by (rule makes_emits) (intro emits_rules, simp)
  show "makes (\<lambda>r fs. calm (es @ fs) \<and> (r = Inr True \<longrightarrow> (\<exists>i. EvCall (ApprovalWait i) True \<in> set (es @ fs))))
      (now h \<bind> (\<lambda>t2. ext (m t2) \<bind> (\<lambda>r. log_event (EvCall (ApprovalWait i) (approval_of r = Inr True)) \<bind>
        (\<lambda>_. ext k \<bind> (\<lambda>_. ret (approval_of r))))))" if "calm es" for es h m i k
  proof (rule makes_bind_quiet, rule emits_now, rule makes_bind_quiet, rule emits_ext)
    fix r
    show "makes (\<lambda>r fs. calm (es @ fs) \<and> (r = Inr True \<longrightarrow> (\<exists>i. EvCall (ApprovalWait i) True \<in> set (es @ fs))))
       (log_event (EvCall (ApprovalWait i) (approval_of r = Inr True)) \<bind> (\<lambda>_. ext k \<bind> (\<lambda>_. ret (approval_of r))))"
      by (rule makesI) (use that in \<open>auto split: prod.splits\<close>)
  qed
qed

lemma makes_cleared_approved:
  assumes "system_service (e_system (me_env me))"
  shows "makes (\<lambda>r es. guarded (cleared me node) es) (upgrade_approved me node sched next delay)"
proof (cases "me_notifier me")
  case None
  then have "cleared me node = lock_granted node" by (auto simp: cleared_def approval_granted_def)
  with None show ?thesis by (simp add: upgrade_approved_def makes_guarded_locked[OF assms])
next
  case (Some nt)
  have approved: "makes (\<lambda>r es. guarded (cleared me node) es)
      (requestUpgradeApproval me nt node next \<bind> (\<lambda>a. if a = Inr True then upgrade_locked me node sched next delay
         else ret (next, None)))"
  proof (rule makes_bind[OF makes_approval], rule makes_if)
    fix a es
    assume a: "calm es \<and> (a = Inr True \<longrightarrow> (\<exists>i. EvCall (ApprovalWait i) True \<in> set es))"
    show "makes (\<lambda>r fs. guarded (cleared me node) (es @ fs)) (upgrade_locked me node sched next delay)" if "a = Inr True"
    proof (rule makes_mono[OF makes_guarded_locked[OF assms]])
      fix r fs assume "guarded (lock_granted node) fs"
      then have "guarded (\<lambda>p. cleared me node (es @ p)) fs"
        using a that Some by (elim guarded_mono) (auto simp: cleared_def approval_granted_def lock_granted_append)
      with a show "guarded (cleared me node) (es @ fs)" by (blast intro: guarded_prefix)
    qed
  qed (auto intro!: makes_ret guarded_calm)
  show ?thesis
    unfolding upgrade_approved_def Some option.case
    by (rule makes_bind_quiet, rule emits_ext, rule makes_if, rule makes_ret, rule guarded_calm, simp, rule approved)
qed

lemma makes_cleared:
  assumes "system_service (e_system (me_env me))"
  shows "makes (\<lambda>r es. guarded (cleared me node) es) (handleUpgrade me node)"
  unfolding handleUpgrade_def upgrade_scheduled_def upgrade_when_due_def Let_def
  by (intro makes_split makes_guarded_skip makes_cleared_approved[OF assms])
    (auto intro!: emits_rules makes_ret guarded_calm simp: cleared_def intro: lock_granted_append approval_granted_append)

text \<open>C6: Nothing disruptive happens without the grants. In every run of \<open>handleUpgrade\<close> no pod is
  evicted, no node cordoned, nothing upgraded or rebooted before the group lock was granted, for a
  node with an upgrade group, and the upgrade approved, when notifications are on; a node with the hold
  annotation is left alone altogether.\<close>

theorem upgrade_needs_grants:
  assumes "system_service (e_system (me_env me))" and "run_state (handleUpgrade me node) w = (r, w')"
  shows "\<exists>es. w_trace w' = w_trace w @ es \<and> guarded (cleared me node) (visible es) \<and>
    (map_of (om_annotations (mn_meta node)) AnnotationUpgradeHold \<noteq> None \<longrightarrow> es = [] \<and> r = (zero_time, None))"
proof (cases "map_of (om_annotations (mn_meta node)) AnnotationUpgradeHold = None")
  case True
  with makesD[OF makes_cleared[OF assms(1)] assms(2)] show ?thesis by auto
next
  case False
  with assms(2) have "r = (zero_time, None) \<and> w' = w" by (simp add: handleUpgrade_def)
  then show ?thesis by (auto simp: guarded_def)
qed

theorem upgrade_needs_grants_witness:
  "\<exists>r w'. run_state (handleUpgrade demo_me demo_upgrade_node) demo_upgrade_world = (r, w') \<and>
     guarded (cleared demo_me demo_upgrade_node) (visible (w_trace w'))"
proof -
  obtain r w' where r: "run_state (handleUpgrade demo_me demo_upgrade_node) demo_upgrade_world = (r, w')" by fastforce
  have "w_trace demo_upgrade_world = []" by (simp add: demo_upgrade_world_def demo_world_def)
  with upgrade_needs_grants[OF demo_me_system r] r show ?thesis by auto
qed

end
