(* ===== verification/NotificationCorrect.thy ===== *)
theory NotificationCorrect
  imports Notification UpgradeCorrect
begin

text \<open>
  Properties of the notification server under every interleaving of its clients: what a stream was
  sent is a subsequence of what was broadcast, buffers keep their bounds, and an answer reaches the
  upgrade handler that asked, the first accepted one first.
\<close>

section \<open>Events\<close>

definition subs_ok :: "nsys \<Rightarrow> bool" where
  "subs_ok s \<longleftrightarrow> length (sv_chans (ns_server s)) = length (ns_streams s) \<and>
     distinct (map fst (sv_subscribers (ns_server s))) \<and>
     (\<forall>sid ch. (sid, ch) \<in> set (sv_subscribers (ns_server s)) \<longrightarrow> ch < length (ns_streams s) \<and>
        st_open (ns_streams s ! ch) \<and> st_session (ns_streams s ! ch) = sid)"

lemma subs_ok_entry:
  "subs_ok s \<Longrightarrow> (sid, ch) \<in> set (sv_subscribers (ns_server s)) \<Longrightarrow>
   ch < length (ns_streams s) \<and> st_open (ns_streams s ! ch) \<and> st_session (ns_streams s ! ch) = sid"
  by (auto simp: subs_ok_def)

lemma subs_ok_chans: "subs_ok s \<Longrightarrow> length (sv_chans (ns_server s)) = length (ns_streams s)"
  by (simp add: subs_ok_def)

lemma subs_ok_distinct: "subs_ok s \<Longrightarrow> distinct (map snd (sv_subscribers (ns_server s)))"
proof -
  assume ok: "subs_ok s"
  let ?subs = "sv_subscribers (ns_server s)"
  have "inj_on snd (set ?subs)"
  proof (rule inj_onI)
    fix x y assume "x \<in> set ?subs" "y \<in> set ?subs" "snd x = snd y"
    then show "x = y" using subs_ok_entry[OF ok] by (metis prod.collapse)
  qed
  with ok show ?thesis by (simp add: subs_ok_def distinct_map)
qed

lemma set_update_key: "distinct (map fst xs) \<Longrightarrow> (k', v') \<in> set (AList.update k v xs) \<Longrightarrow>
    k' = k \<and> v' = v \<or> k' \<noteq> k \<and> (k', v') \<in> set xs"
  by (induction xs) (auto split: if_splits simp: rev_image_eqI)

lemma distinct_keys [simp]:
  "distinct (map fst xs) \<Longrightarrow> distinct (map fst (AList.update k v xs))"
  "distinct (map fst xs) \<Longrightarrow> distinct (map fst (AList.delete k xs))"
  by (simp_all add: AList.distinct_update AList.distinct_delete)

lemma set_delete_key: "(k', v') \<in> set (AList.delete k xs) \<longleftrightarrow> k' \<noteq> k \<and> (k', v') \<in> set xs"
  by (auto simp: AList.delete_eq)

lemma delete_update_key: "AList.delete k (AList.update k v xs) = AList.delete k xs"
  by (induction xs) (auto simp: AList.delete_eq)

lemma subs_ok_leave:
  assumes ok: "subs_ok s" and k: "k < length (ns_streams s)"
  shows "subs_ok (do_leave k s)"
  using ok k unfolding subs_ok_def do_leave_def subscribe_exit_def
  by (auto simp: set_delete_key nth_list_update)

lemma subs_ok_step: "nstep s s' \<Longrightarrow> subs_ok s \<Longrightarrow> subs_ok s'"
proof (induction rule: nstep.cases)
  case (connect uuid s req)
  then show ?case unfolding subs_ok_def
    by (auto simp: do_connect_def subscribe_enter_def nth_append dest!: set_update_key)
next
  case (leave k s)
  then show ?case by (simp add: subs_ok_leave)
next
  case (deliver k s e sv)
  then show ?case unfolding subs_ok_def
    by (auto simp: do_deliver_def subscribe_receive_def nth_list_update split: list.splits)
next
  case (send_error k s e sv)
  then have "subs_ok (s\<lparr>ns_server := sv\<rparr>)" unfolding subs_ok_def
    by (auto simp: subscribe_receive_def split: list.splits)
  with send_error subs_ok_leave show ?case by simp
qed (auto simp: subs_ok_def do_defs server_defs split: prod.splits if_splits list.splits)

lemma nreach_subs_ok: "nreach s \<Longrightarrow> subs_ok s"
  by (induction rule: nreach_induct) (auto simp: subs_ok_step, simp add: subs_ok_def nsys_init_def NewServer_def)

definition stamps_ok :: "nsys \<Rightarrow> bool" where
  "stamps_ok s \<longleftrightarrow> (\<forall>e \<in> set (ns_broadcast s). ev_id e \<noteq> [] \<and> ev_timestamp e \<noteq> None)"

lemma stamps_ok_step: "nstep s s' \<Longrightarrow> stamps_ok s \<Longrightarrow> stamps_ok s'"
  by (induction rule: nstep.cases)
    (auto simp: stamps_ok_def do_defs stamped_def split: prod.splits option.splits)

text \<open>What a stream was sent and what waits in its channel, in this order.\<close>

definition seen :: "nsys \<Rightarrow> nat \<Rightarrow> nevent list" where
  "seen s k = st_sent (ns_streams s ! k) @ sv_chans (ns_server s) ! k"

definition order_ok :: "nsys \<Rightarrow> bool" where
  "order_ok s \<longleftrightarrow> (\<forall>k < length (ns_streams s). subseq (seen s k) (ns_broadcast s) \<and>
     length (sv_chans (ns_server s) ! k) \<le> event_buffer)"

lemma subseq_snoc: "subseq xs ys \<Longrightarrow> subseq xs (ys @ [y])" "subseq xs ys \<Longrightarrow> subseq (xs @ [y]) (ys @ [y])"
  by (auto intro: subseq_order.trans)

lemma subseq_drop_mid: "subseq (xs @ y # ys) zs \<Longrightarrow> subseq (xs @ ys) zs"
  by (meson list_emb_append_mono list_emb_refl subseq_Cons' subseq_order.trans subseq_order.order_refl)

lemma order_ok_notify:
  assumes "subs_ok s" and "order_ok s"
  shows "order_ok (do_notify uuid t e s)"
proof -
  have "sv_chans (server_Notify uuid t e (ns_server s)) ! k =
      (if k \<in> snd ` set (sv_subscribers (ns_server s)) then offer event_buffer (stamped uuid t e) (sv_chans (ns_server s) ! k)
       else sv_chans (ns_server s) ! k)" if "k < length (ns_streams s)" for k
    using offer_all_nth[OF subs_ok_distinct[OF assms(1)]] that subs_ok_chans[OF assms(1)] by (simp add: server_Notify_def)
  with assms(2) show ?thesis
    by (auto simp: order_ok_def seen_def do_notify_def offer_def intro: subseq_snoc simp flip: append_assoc)
qed

lemma order_ok_receive:
  assumes "subs_ok s" and "order_ok s" and "subscribe_receive k (ns_server s) = Some (e, sv)" and "k < length (ns_streams s)"
  shows "order_ok (do_deliver k e sv s)" and "order_ok (s\<lparr>ns_server := sv\<rparr>)"
proof -
  obtain q where q: "sv_chans (ns_server s) ! k = e # q" "sv = (ns_server s)\<lparr>sv_chans := (sv_chans (ns_server s))[k := q]\<rparr>"
    using assms(3) by (auto simp: subscribe_receive_def split: list.splits)
  note k = assms(4) subs_ok_chans[OF assms(1)]
  from assms(2) q k show "order_ok (do_deliver k e sv s)"
    by (auto simp: order_ok_def seen_def do_deliver_def nth_list_update)
  have "subseq (st_sent (ns_streams s ! k) @ e # q) (ns_broadcast s)"
    using assms(2) q(1) k(1) by (metis order_ok_def seen_def)
  from subseq_drop_mid[OF this] assms(2) q k show "order_ok (s\<lparr>ns_server := sv\<rparr>)"
    by (auto simp: order_ok_def seen_def nth_list_update)
qed

lemma order_ok_leave: "order_ok s \<Longrightarrow> k < length (ns_streams s) \<Longrightarrow> order_ok (do_leave k s)"
  by (auto simp: order_ok_def seen_def do_leave_def subscribe_exit_def nth_list_update)

lemma order_ok_step: "nstep s s' \<Longrightarrow> subs_ok s \<Longrightarrow> order_ok s \<Longrightarrow> order_ok s'"
proof (induction rule: nstep.cases)
  case (connect uuid s req)
  then show ?case by (auto simp: order_ok_def seen_def do_connect_def subscribe_enter_def subs_ok_chans nth_append less_Suc_eq)
qed (auto simp: order_ok_notify order_ok_receive order_ok_leave,
     auto simp: order_ok_def seen_def do_defs server_defs split: prod.splits if_splits list.splits)

lemma nreach_order_ok: "nreach s \<Longrightarrow> order_ok s"
  by (induction rule: nreach_induct) (auto simp: order_ok_step nreach_subs_ok, simp add: order_ok_def nsys_init_def)

lemma nreach_stamps_ok: "nreach s \<Longrightarrow> stamps_ok s"
  by (induction rule: nreach_induct) (auto simp: stamps_ok_step, simp add: stamps_ok_def nsys_init_def)

section \<open>Approvals\<close>

definition on_chan :: "nat \<Rightarrow> (nat \<times> 'a) list \<Rightarrow> 'a list" where
  "on_chan ch l = map snd (filter (\<lambda>x. fst x = ch) l)"

lemma on_chan_simps [simp]:
  "on_chan ch [] = []" "on_chan ch (xs @ ys) = on_chan ch xs @ on_chan ch ys"
  "on_chan ch ((c, r) # l) = (if c = ch then r # on_chan ch l else on_chan ch l)"
  by (auto simp: on_chan_def)

lemma on_chan_Nil: "(\<And>c r. (c, r) \<in> set l \<Longrightarrow> c \<noteq> ch) \<Longrightarrow> on_chan ch l = []"
  by (force simp: on_chan_def filter_empty_conv)

lemma set_on_chan: "r \<in> set (on_chan ch l) \<longleftrightarrow> (ch, r) \<in> set l"
  by (force simp: on_chan_def)

text \<open>Every answer is on the channel of its event, and what was accepted on a channel is what was received
  from it followed by what it holds.\<close>

definition owned :: "nsys \<Rightarrow> nat \<Rightarrow> string \<Rightarrow> bool" where
  "owned s ch eid \<longleftrightarrow> ch < length (ns_owner s) \<and> ns_owner s ! ch = eid"

definition routes_ok :: "nsys \<Rightarrow> bool" where
  "routes_ok s \<longleftrightarrow> length (sv_answers (ns_server s)) = length (ns_owner s) \<and>
     (\<forall>eid ch. (eid, ch) \<in> set (sv_approvals (ns_server s)) \<longrightarrow> owned s ch eid) \<and>
     (\<forall>ch r. (ch, r) \<in> set (ns_pending s) \<union> set (ns_accepted s) \<longrightarrow> owned s ch (ar_eventId r)) \<and>
     (\<forall>ch r. (ch, r) \<in> set (ns_received s) \<longrightarrow> ch < length (ns_owner s))"

definition answers_ok :: "nsys \<Rightarrow> bool" where
  "answers_ok s \<longleftrightarrow> (\<forall>ch < length (ns_owner s).
     on_chan ch (ns_accepted s) = on_chan ch (ns_received s) @ sv_answers (ns_server s) ! ch \<and>
     length (sv_answers (ns_server s) ! ch) \<le> answer_buffer)"

lemma set_update_sub: "(k', v') \<in> set (AList.update k v xs) \<Longrightarrow> k' = k \<and> v' = v \<or> (k', v') \<in> set xs"
  by (induction xs) (auto split: if_splits)

lemma in_remove1: "x \<in> set (remove1 y xs) \<Longrightarrow> x \<in> set xs"
  by (meson notin_set_remove1)

lemma routes_ok_step: "nstep s s' \<Longrightarrow> routes_ok s \<Longrightarrow> routes_ok s'"
proof (induction rule: nstep.cases)
  case (wait s eid)
  then show ?case unfolding routes_ok_def
    by (auto simp: do_wait_def WaitForApproval_def owned_def nth_append less_Suc_eq dest!: set_update_sub)
next
  case (find_channel r s ch)
  then show ?case unfolding routes_ok_def by (auto simp: respond_lookup_def owned_def dest: map_of_SomeD)
next
  case (answer ch r s)
  then show ?case unfolding routes_ok_def
    by (auto simp: do_answer_def respond_send_def owned_def dest!: in_remove1)
next
  case (receive ch s r sv)
  then show ?case unfolding routes_ok_def by (auto simp: receive_answer_def owned_def split: list.splits)
next
  case (cancel s eid)
  then show ?case unfolding routes_ok_def by (auto simp: CancelApproval_def owned_def set_delete_key)
qed (auto simp: routes_ok_def do_defs server_defs owned_def split: list.splits)

lemma answers_ok_step: "nstep s s' \<Longrightarrow> routes_ok s \<Longrightarrow> answers_ok s \<Longrightarrow> answers_ok s'"
proof (induction rule: nstep.cases)
  case (wait s eid)
  let ?new = "length (ns_owner s)"
  have "on_chan ?new (ns_accepted s) = []" "on_chan ?new (ns_received s) = []"
    using wait by (auto intro!: on_chan_Nil simp: routes_ok_def owned_def)
  with wait show ?case
    by (auto simp: answers_ok_def routes_ok_def do_wait_def WaitForApproval_def nth_append less_Suc_eq)
next
  case (answer ch r s)
  then show ?case
    by (auto simp: answers_ok_def routes_ok_def do_answer_def respond_send_def answer_buffer_def nth_list_update)
next
  case (receive ch s r sv)
  then show ?case
    by (auto simp: answers_ok_def routes_ok_def receive_answer_def nth_list_update split: list.splits)
qed (auto simp: answers_ok_def do_defs server_defs split: list.splits)

lemma nreach_routes_ok: "nreach s \<Longrightarrow> routes_ok s"
  by (induction rule: nreach_induct) (auto simp: routes_ok_step, simp add: routes_ok_def nsys_init_def NewServer_def)

lemma nreach_answers_ok: "nreach s \<Longrightarrow> answers_ok s"
  by (induction rule: nreach_induct) (auto simp: answers_ok_step nreach_routes_ok, simp add: answers_ok_def nsys_init_def)

section \<open>Properties\<close>



text \<open>C20: An upgrade handler gets the answers to its own event only, and the first answer that an agent
  was told is accepted: on each answer channel the answers received are the first ones accepted there,
  and all of them name the event the channel was made for. At most one accepted answer is still unread.\<close>

theorem first_answer_wins:
  assumes "nreach s" and "ch < length (ns_owner s)"
  shows "prefix (on_chan ch (ns_received s)) (on_chan ch (ns_accepted s)) \<and>
    length (on_chan ch (ns_accepted s)) \<le> length (on_chan ch (ns_received s)) + 1 \<and>
    (\<forall>r \<in> set (on_chan ch (ns_accepted s)). ar_eventId r = ns_owner s ! ch)"
proof -
  have "on_chan ch (ns_accepted s) = on_chan ch (ns_received s) @ sv_answers (ns_server s) ! ch"
    "length (sv_answers (ns_server s) ! ch) \<le> 1"
    using nreach_answers_ok[OF assms(1)] assms(2) by (auto simp: answers_ok_def answer_buffer_def)
  moreover have "ar_eventId r = ns_owner s ! ch" if "r \<in> set (on_chan ch (ns_accepted s))" for r
    using nreach_routes_ok[OF assms(1)] that by (auto simp: routes_ok_def owned_def set_on_chan)
  ultimately show ?thesis by auto
qed

text \<open>\<open>Notify\<close> reaches exactly the subscribed sessions with room: the event, with its ID and timestamp
  filled in, is appended to the channel of each, and every other channel is left as it was.\<close>

theorem notify_reaches_subscribers:
  assumes "nreach s" and "k < length (ns_streams s)"
  shows "sv_chans (server_Notify uuid t e (ns_server s)) ! k =
    (if (\<exists>sid. (sid, k) \<in> set (sv_subscribers (ns_server s))) \<and> length (sv_chans (ns_server s) ! k) < 64
     then sv_chans (ns_server s) ! k @ [e\<lparr>ev_id := if ev_id e = [] then uuid else ev_id e,
       ev_timestamp := if ev_timestamp e = None then Some t else ev_timestamp e\<rparr>]
     else sv_chans (ns_server s) ! k)"
proof -
  note ok = nreach_subs_ok[OF assms(1)]
  have "stamped uuid t e = e\<lparr>ev_id := if ev_id e = [] then uuid else ev_id e,
      ev_timestamp := if ev_timestamp e = None then Some t else ev_timestamp e\<rparr>"
    by (cases "ev_timestamp e") (auto simp: stamped_def)
  moreover have "k \<in> snd ` set (sv_subscribers (ns_server s)) \<longleftrightarrow> (\<exists>sid. (sid, k) \<in> set (sv_subscribers (ns_server s)))"
    by force
  ultimately show ?thesis
    using offer_all_nth[OF subs_ok_distinct[OF ok]] assms(2) subs_ok_chans[OF ok]
    by (simp add: server_Notify_def offer_def event_buffer_def)
qed

text \<open>When an agent connects a second time under its session ID and its first stream then ends, the
  deferred clean-up of the first removes the entry of the second: the second stream is still open, yet
  the session is no longer in the map, no broadcast reaches the stream, and without other agents the
  server reports that it has no subscribers.\<close>

theorem reconnect_silences_agent:
  assumes "nreach s" and "sid \<noteq> []" and "k < length (ns_streams s)"
    and "st_open (ns_streams s ! k)" and "st_session (ns_streams s ! k) = sid"
  shows "\<exists>s'. nreach s' \<and> st_open (ns_streams s' ! length (ns_streams s)) \<and>
    st_session (ns_streams s' ! length (ns_streams s)) = sid \<and> map_of (sv_subscribers (ns_server s')) sid = None \<and>
    (HasSubscribers (ns_server s') \<longleftrightarrow> (\<exists>(sid', ch) \<in> set (sv_subscribers (ns_server s)). sid' \<noteq> sid)) \<and>
    (\<forall>uuid t e. sv_chans (server_Notify uuid t e (ns_server s')) ! length (ns_streams s) = [])"
proof -
  let ?n = "length (ns_streams s)"
  let ?s1 = "do_connect (session_id sid ''u'') s" and ?s2 = "do_leave k (do_connect (session_id sid ''u'') s)"
  note ok = nreach_subs_ok[OF assms(1)]
  have reach: "nreach ?s1" using assms(1) connect[of "''u''" s sid] by (auto simp: nreach_def)
  moreover have "k < length (ns_streams ?s1)" "st_open (ns_streams ?s1 ! k)"
    using assms(3,4) by (auto simp: do_connect_def nth_append)
  ultimately have "nreach ?s2" using leave[of k ?s1] by (auto simp: nreach_def)
  have subs: "sv_subscribers (ns_server ?s2) = AList.delete sid (sv_subscribers (ns_server s))"
    using assms by (simp add: do_leave_def do_connect_def subscribe_exit_def subscribe_enter_def session_id_def
        nth_append delete_update_key)
  have fresh: "?n \<notin> snd ` set (sv_subscribers (ns_server ?s2))"
    using subs_ok_entry[OF ok] by (fastforce simp: subs set_delete_key)
  have chans: "sv_chans (ns_server ?s2) = sv_chans (ns_server s) @ [[]]"
    by (simp add: do_leave_def do_connect_def subscribe_exit_def subscribe_enter_def)
  have "sv_chans (server_Notify uuid t e (ns_server ?s2)) ! ?n = []" for uuid t e
    using offer_all_nth[OF subs_ok_distinct[OF nreach_subs_ok[OF \<open>nreach ?s2\<close>]]] fresh subs_ok_chans[OF ok]
    by (simp add: server_Notify_def chans nth_append)
  moreover have "HasSubscribers (ns_server ?s2) \<longleftrightarrow> (\<exists>(sid', ch) \<in> set (sv_subscribers (ns_server s)). sid' \<noteq> sid)"
    by (auto simp: HasSubscribers_def subs AList.delete_eq filter_empty_conv)
  moreover have "st_open (ns_streams ?s2 ! ?n)" "st_session (ns_streams ?s2 ! ?n) = sid"
    using assms(2,3) by (simp_all add: do_leave_def do_connect_def nth_append session_id_def)
  ultimately show ?thesis using \<open>nreach ?s2\<close> subs by (intro exI[of _ ?s2]) (simp add: AList.delete_conv')
qed

lemma drain_queue:
  assumes "k < length (ns_streams s)" and "k < length (sv_chans (ns_server s))" and "st_open (ns_streams s ! k)"
    and "sv_chans (ns_server s) ! k = q"
  shows "\<exists>s'. nstep\<^sup>*\<^sup>* s s' \<and> st_sent (ns_streams s' ! k) = st_sent (ns_streams s ! k) @ q \<and>
    sv_chans (ns_server s') ! k = [] \<and> ns_broadcast s' = ns_broadcast s"
  using assms
proof (induction q arbitrary: s)
  case (Cons e q)
  let ?sv = "(ns_server s)\<lparr>sv_chans := (sv_chans (ns_server s))[k := q]\<rparr>"
  have "subscribe_receive k (ns_server s) = Some (e, ?sv)" using Cons.prems by (simp add: subscribe_receive_def)
  with Cons.prems have step: "nstep s (do_deliver k e ?sv s)" by (intro deliver)
  have "\<exists>s'. nstep\<^sup>*\<^sup>* (do_deliver k e ?sv s) s' \<and>
      st_sent (ns_streams s' ! k) = st_sent (ns_streams (do_deliver k e ?sv s) ! k) @ q \<and>
      sv_chans (ns_server s') ! k = [] \<and> ns_broadcast s' = ns_broadcast (do_deliver k e ?sv s)"
    using Cons.prems by (intro Cons.IH) (simp_all add: do_deliver_def)
  moreover have "st_sent (ns_streams (do_deliver k e ?sv s) ! k) = st_sent (ns_streams s ! k) @ [e]"
    "ns_broadcast (do_deliver k e ?sv s) = ns_broadcast s" using Cons.prems(1) by (simp_all add: do_deliver_def)
  ultimately obtain s' where "nstep\<^sup>*\<^sup>* (do_deliver k e ?sv s) s'" "st_sent (ns_streams s' ! k) = st_sent (ns_streams s ! k) @ e # q"
    "sv_chans (ns_server s') ! k = []" "ns_broadcast s' = ns_broadcast s" by auto
  with converse_rtranclp_into_rtranclp[of nstep, OF step] show ?case by blast
qed auto


subsection \<open>A run with two connections of one session\<close>

definition demo_stream_sys :: nsys where
  "demo_stream_sys = do_notify ''u'' 7 (generic_event ''t'' ''b'' SeverityInfo) (do_connect ''s'' nsys_init)"

lemma demo_stream_reach: "nreach demo_stream_sys"
proof -
  have "nstep nsys_init (do_connect (session_id ''s'' ''u'') nsys_init)" by (rule connect) simp
  moreover have "nstep (do_connect ''s'' nsys_init) demo_stream_sys" unfolding demo_stream_sys_def by (rule notify) simp
  ultimately show ?thesis by (simp add: nreach_def session_id_def)
qed

lemmas demo_stream_defs = demo_stream_sys_def do_notify_def do_connect_def nsys_init_def NewServer_def server_Notify_def
  subscribe_enter_def generic_event_def stamped_def offer_def event_buffer_def

definition demo_delivered :: nsys where
  "demo_delivered = (case subscribe_receive 0 (ns_server demo_stream_sys) of
     Some (e, sv) \<Rightarrow> do_deliver 0 e sv demo_stream_sys | None \<Rightarrow> demo_stream_sys)"

lemma demo_delivered_reach: "nreach demo_delivered"
proof -
  have "nstep demo_stream_sys demo_delivered"
    unfolding demo_delivered_def by (auto simp: demo_stream_defs subscribe_receive_def intro!: deliver)
  with demo_stream_reach show ?thesis by (auto simp: nreach_def)
qed




theorem notify_reaches_subscribers_witness:
  "length (sv_chans (server_Notify ''u'' 8 (generic_event ''t'' ''b'' SeverityInfo) (ns_server demo_stream_sys)) ! 0) = 2"
  using notify_reaches_subscribers[OF demo_stream_reach, of 0 "''u''" 8 "generic_event ''t'' ''b'' SeverityInfo"]
  by (simp add: demo_stream_defs)

theorem reconnect_silences_agent_witness:
  "\<exists>s'. nreach s' \<and> st_open (ns_streams s' ! 1) \<and> \<not> HasSubscribers (ns_server s')"
  using reconnect_silences_agent[OF demo_stream_reach, of "''s''" 0] by (auto simp: demo_stream_defs)

text \<open>Two agents answer the same request; the second is told that an answer was received.\<close>

definition demo_answer :: "approval \<Rightarrow> string \<Rightarrow> approval_response" where
  "demo_answer a user = \<lparr>ar_eventId = ''up'', ar_action = a, ar_delay = None, ar_user = user\<rparr>"

definition demo_asked :: nsys where
  "demo_asked = (do_wait ''up'' nsys_init)\<lparr>ns_pending := [(0, demo_answer DENY ''a''), (0, demo_answer APPROVE ''b'')]\<rparr>"

definition demo_answered :: nsys where
  "demo_answered = do_answer 0 (demo_answer APPROVE ''b'') (do_answer 0 (demo_answer DENY ''a'') demo_asked)"

lemma demo_answered_reach: "nreach demo_answered"
proof -
  let ?w = "do_wait ''up'' nsys_init" and ?a = "demo_answer DENY ''a''" and ?b = "demo_answer APPROVE ''b''"
  have f: "respond_lookup r (ns_server ?w) = Some 0" if "ar_eventId r = ''up''" for r
    using that by (simp add: do_wait_def WaitForApproval_def respond_lookup_def nsys_init_def NewServer_def)
  have "nstep nsys_init ?w" by (rule wait)
  moreover have "nstep ?w (?w\<lparr>ns_pending := [(0, ?a)]\<rparr>)"
    using find_channel[of ?a ?w 0] f[of ?a] by (simp add: demo_answer_def do_wait_def nsys_init_def)
  moreover have "nstep (?w\<lparr>ns_pending := [(0, ?a)]\<rparr>) demo_asked"
    using find_channel[of ?b "?w\<lparr>ns_pending := [(0, ?a)]\<rparr>" 0] f[of ?b] by (simp add: demo_answer_def demo_asked_def)
  moreover have "nstep demo_asked (do_answer 0 ?a demo_asked)" by (rule answer) (simp add: demo_asked_def)
  moreover have "nstep (do_answer 0 ?a demo_asked) demo_answered"
    unfolding demo_answered_def by (rule answer) (simp add: demo_asked_def do_answer_def demo_answer_def split: prod.split)
  ultimately show ?thesis unfolding nreach_def by (meson rtranclp.rtrancl_into_rtrancl rtranclp.rtrancl_refl)
qed

theorem first_answer_wins_witness:
  "on_chan 0 (ns_accepted demo_answered) = [demo_answer DENY ''a''] \<and>
   list_all (\<lambda>r. ar_eventId r = ''up'') (on_chan 0 (ns_accepted demo_answered))"
  using first_answer_wins[OF demo_answered_reach, of 0]
  by (simp add: demo_answered_def demo_asked_def do_answer_def do_wait_def nsys_init_def NewServer_def WaitForApproval_def
      respond_send_def answer_buffer_def)

end
