(* ===== verification/Agent.thy ===== *)
theory Agent
  imports Notification "HOL-Library.Multiset"
begin

text \<open>
  The desktop agent, \<^verbatim>\<open>cmd/agent\<close>: what it shows for an event, which answer a click on a notification
  sends, and the table of pending callbacks in \<^verbatim>\<open>desktop.go\<close>. The D-Bus connection is a parameter: it
  answers a \<^verbatim>\<open>Notify\<close> call with the number of the notification or an error.
\<close>

section \<open>Texts\<close>

text \<open>\<^verbatim>\<open>Duration.Round(time.Second)\<close>, half away from zero, and \<^verbatim>\<open>Duration.String\<close> on whole seconds.\<close>

definition round_second :: "duration \<Rightarrow> int" where
  "round_second d = sgn d * ((\<bar>d\<bar> + second div 2) div second)"

definition seconds_text :: "int \<Rightarrow> string" where
  "seconds_text s =
     (let u = \<bar>s\<bar>; hh = u div 3600; mm = u div 60 mod 60; ss = u mod 60 in
      (if s < 0 then ''-'' else []) @
      (if hh \<noteq> 0 then Itoa hh @ ''h'' else []) @
      (if hh \<noteq> 0 \<or> mm \<noteq> 0 then Itoa mm @ ''m'' else []) @ Itoa ss @ ''s'')"

text \<open>\<^verbatim>\<open>int32(remaining.Milliseconds())\<close>: the quotient is truncated toward zero and wraps at 32 bits.\<close>

definition timeout_ms :: "duration \<Rightarrow> 32 word" where
  "timeout_ms d = word_of_int (sgn d * (\<bar>d\<bar> div 1000000))"

definition severityIcon :: "severity \<Rightarrow> string" where
  "severityIcon sev = (case sev of
     SeverityWarning \<Rightarrow> ''dialog-warning''
   | SeverityError \<Rightarrow> ''dialog-error''
   | _ \<Rightarrow> ''dialog-information'')"

section \<open>Events\<close>

text \<open>A callback is the event and the user its closure holds.\<close>

record pending =
  pn_event :: string
  pn_user :: string

datatype desk_call =
    Show string string string
  | ShowActions string string string "string list" "32 word" pending

definition handleUpgradeApproval :: "instant \<Rightarrow> string \<Rightarrow> string \<Rightarrow> string \<Rightarrow> instant \<Rightarrow> desk_call" where
  "handleUpgradeApproval t user eventID description deadline =
     (let remaining = time_sub deadline t in
      ShowActions ''Upgrade Approval Required''
        (description @ [CHR 10] @ ''Auto-approves in '' @ seconds_text (round_second remaining))
        ''system-software-update'' [''approve'', ''Approve'', ''deny'', ''Deny''] (timeout_ms remaining)
        \<lparr>pn_event = eventID, pn_user = user\<rparr>)"

definition handleEvent :: "instant \<Rightarrow> string \<Rightarrow> nevent \<Rightarrow> desk_call" where
  "handleEvent t user e = (case ev_payload e of
     GenericNotification title body sev \<Rightarrow> Show title body (severityIcon sev)
   | NodeNotice n \<Rightarrow> (case n of
       UpgradeApprovalRequest _ description _ deadline \<Rightarrow> handleUpgradeApproval t user (ev_id e) description deadline
     | UpgradeStarted description \<Rightarrow> Show ''Upgrade Started'' description ''system-software-update''
     | UpgradeCompleted success rebootPending \<Rightarrow>
         if \<not> success then Show ''Upgrade Failed'' [] ''dialog-error''
         else if rebootPending then Show ''Upgrade Completed'' ''System upgrade finished. A reboot is pending.'' ''system-reboot''
         else Show ''Upgrade Completed'' ''System upgrade finished successfully.'' ''emblem-default''))"

definition approval_callback :: "pending \<Rightarrow> string \<Rightarrow> approval_response option" where
  "approval_callback p actionKey =
     map_option (\<lambda>a. \<lparr>ar_eventId = pn_event p, ar_action = a, ar_delay = None, ar_user = pn_user p\<rparr>)
       (if actionKey = ''approve'' then Some APPROVE else if actionKey = ''deny'' then Some DENY else None)"

section \<open>Notifications on the desktop\<close>

type_synonym actions = "(32 word \<times> pending) list"

text \<open>The answer of the bus to a call, and what showing an event leaves in the table.\<close>

definition show_call :: "32 word res \<Rightarrow> desk_call \<Rightarrow> actions \<Rightarrow> actions" where
  "show_call answer c acts = (case c of
     Show _ _ _ \<Rightarrow> acts
   | ShowActions _ _ _ _ _ p \<Rightarrow> (case answer of Inl _ \<Rightarrow> acts | Inr i \<Rightarrow> AList.update i p acts))"

datatype bus_value = BUint32 "32 word" | BString string | BOther

record bus_signal =
  sg_name :: string
  sg_body :: "bus_value list"

definition dbusNotifyIface :: string where
  "dbusNotifyIface = ''org.freedesktop.Notifications''"

text \<open>One turn of \<open>listenSignals\<close>: the callback to run with its key, if any, and the table.\<close>

definition on_signal :: "bus_signal \<Rightarrow> actions \<Rightarrow> (pending \<times> string) option \<times> actions" where
  "on_signal sig acts =
     (if sg_name sig = dbusNotifyIface @ ''.ActionInvoked'' then
        (case sg_body sig of
           BUint32 i # BString key # _ \<Rightarrow> (case map_of acts i of
             Some p \<Rightarrow> (Some (p, key), AList.delete i acts)
           | None \<Rightarrow> (None, acts))
         | _ \<Rightarrow> (None, acts))
      else if sg_name sig = dbusNotifyIface @ ''.NotificationClosed'' then
        (case sg_body sig of BUint32 i # _ \<Rightarrow> (None, AList.delete i acts) | _ \<Rightarrow> (None, acts))
      else (None, acts))"

section \<open>The agent's loop\<close>

text \<open>What reaches the agent: an event from the stream, at a time and with the bus's answer, or a signal.\<close>

datatype agent_input = Event instant nevent "32 word res" | Signal bus_signal

definition agent_step :: "string \<Rightarrow> agent_input \<Rightarrow> actions \<Rightarrow> approval_response list \<times> actions" where
  "agent_step user i acts = (case i of
     Event t e answer \<Rightarrow> ([], show_call answer (handleEvent t user e) acts)
   | Signal sig \<Rightarrow> (case on_signal sig acts of
       (None, acts') \<Rightarrow> ([], acts')
     | (Some (p, key), acts') \<Rightarrow> (case approval_callback p key of None \<Rightarrow> [] | Some r \<Rightarrow> [r], acts')))"

fun agent_run :: "string \<Rightarrow> agent_input list \<Rightarrow> actions \<Rightarrow> approval_response list \<times> actions" where
  "agent_run user [] acts = ([], acts)"
| "agent_run user (i # is) acts =
     (case agent_step user i acts of (rs, acts1) \<Rightarrow> (case agent_run user is acts1 of (rs', acts2) \<Rightarrow> (rs @ rs', acts2)))"

section \<open>The notify subcommand\<close>

definition parse_severity :: "string \<Rightarrow> severity res" where
  "parse_severity s =
     (if s = ''info'' then Inr SeverityInfo
      else if s = ''warning'' then Inr SeverityWarning
      else if s = ''error'' then Inr SeverityError
      else Inl (Plain (''error: unknown severity '' @ Quote s @ '' (use info, warning, error)'')))"

definition runNotify :: "(string \<Rightarrow> string \<Rightarrow> severity \<Rightarrow> (server, ack res) state) \<Rightarrow> string \<Rightarrow> string \<Rightarrow> string \<Rightarrow>
    (server, err option) state" where
  "runNotify send title body severity =
     (if title = [] then ret (Some (Plain ''error: --title is required''))
      else (case parse_severity severity of
        Inl e \<Rightarrow> ret (Some e)
      | Inr sev \<Rightarrow> or_fail (send title body sev) (Wrap ''error: send notification'') (\<lambda>a.
          ret (if ack_accepted a then None else Some (Plain ''notification was not accepted'')))))"

section \<open>At most one answer per request\<close>

text \<open>The requests an input shows to the user.\<close>

definition asked :: "agent_input \<Rightarrow> string list" where
  "asked i = (case i of
     Event t e (Inr _) \<Rightarrow> (case ev_payload e of NodeNotice (UpgradeApprovalRequest _ _ _ _) \<Rightarrow> [ev_id e] | _ \<Rightarrow> [])
   | _ \<Rightarrow> [])"

definition open_requests :: "actions \<Rightarrow> string multiset" where
  "open_requests acts = mset (map (pn_event \<circ> snd) acts)"

lemma open_update: "open_requests (AList.update i p acts) \<subseteq># add_mset (pn_event p) (open_requests acts)"
  by (induction acts) (auto simp: open_requests_def subset_mset.le_diff_conv2 intro: subset_mset.order_trans)

lemma open_delete: "open_requests (AList.delete i acts) \<subseteq># open_requests acts"
proof -
  have "mset (AList.delete i acts) \<subseteq># mset acts" by (simp add: AList.delete_eq mset_filter)
  then show ?thesis unfolding open_requests_def mset_map by (rule image_mset_subseteq_mono)
qed

lemma open_take: "map_of acts i = Some p \<Longrightarrow> add_mset (pn_event p) (open_requests (AList.delete i acts)) \<subseteq># open_requests acts"
proof (induction acts)
  case (Cons a acts)
  then show ?case using open_delete[of i acts] by (cases a) (auto simp: open_requests_def AList.delete_eq)
qed simp

lemma agent_step_accounts:
  assumes "agent_step user i acts = (rs, acts')"
  shows "mset (map ar_eventId rs) + open_requests acts' \<subseteq># mset (asked i) + open_requests acts"
proof (cases i)
  case (Event t e answer)
  show ?thesis
  proof (cases answer)
    case (Inr n)
    with assms Event show ?thesis using open_update[of n "\<lparr>pn_event = ev_id e, pn_user = user\<rparr>" acts]
      by (auto simp: agent_step_def show_call_def handleEvent_def handleUpgradeApproval_def asked_def Let_def
          split: payload.splits notice.splits)
  qed (use assms Event in \<open>auto simp: agent_step_def show_call_def asked_def split: desk_call.splits\<close>)
next
  case (Signal sig)
  then show ?thesis using assms open_delete open_take
    by (auto simp: agent_step_def asked_def on_signal_def approval_callback_def intro: subset_mset.order_trans[OF mset_subset_eq_add_right]
        split: if_splits option.splits list.splits bus_value.splits)
qed

lemma agent_run_accounts:
  "agent_run user is acts = (rs, acts') \<Longrightarrow>
   mset (map ar_eventId rs) + open_requests acts' \<subseteq># mset (concat (map asked is)) + open_requests acts"
proof (induction "is" arbitrary: acts rs)
  case (Cons i "is")
  obtain rs1 acts1 rs2 where step: "agent_step user i acts = (rs1, acts1)" and rest: "agent_run user is acts1 = (rs2, acts')"
    and rs: "rs = rs1 @ rs2" using Cons.prems by (auto split: prod.splits)
  have "mset (map ar_eventId rs2) + open_requests acts' \<subseteq># mset (concat (map asked is)) + open_requests acts1"
    by (rule Cons.IH[OF rest])
  then have "mset (map ar_eventId rs) + open_requests acts' \<subseteq># mset (concat (map asked is)) + (mset (map ar_eventId rs1) + open_requests acts1)"
    unfolding rs by (simp add: ac_simps)
  also have "\<dots> \<subseteq># mset (concat (map asked is)) + (mset (asked i) + open_requests acts)"
    using agent_step_accounts[OF step] by simp
  finally show ?case by (simp add: ac_simps)
qed simp

text \<open>Every callback in the table is this user's.\<close>

definition users_own :: "string \<Rightarrow> actions \<Rightarrow> bool" where
  "users_own user acts \<longleftrightarrow> (\<forall>x \<in> set acts. pn_user (snd x) = user)"

lemma users_own_table:
  "users_own user acts \<Longrightarrow> pn_user p = user \<Longrightarrow> users_own user (AList.update n p acts)"
  "users_own user acts \<Longrightarrow> users_own user (AList.delete n acts)"
  "users_own user acts \<Longrightarrow> map_of acts n = Some p \<Longrightarrow> pn_user p = user"
proof -
  show "users_own user (AList.update n p acts)" if "users_own user acts" "pn_user p = user"
    using that by (induction acts) (auto simp: users_own_def)
  show "users_own user (AList.delete n acts)" if "users_own user acts"
    using that by (auto simp: users_own_def AList.delete_eq)
  show "pn_user p = user" if "users_own user acts" "map_of acts n = Some p"
    using that(1) map_of_SomeD[OF that(2)] by (force simp: users_own_def)
qed

lemma agent_step_user:
  assumes "agent_step user i acts = (rs, acts')" and "users_own user acts"
  shows "users_own user acts' \<and> (\<forall>r \<in> set rs. ar_user r = user \<and> ar_action r \<in> {APPROVE, DENY})"
  using assms users_own_table[OF assms(2)]
  by (auto simp: agent_step_def show_call_def on_signal_def approval_callback_def handleEvent_def handleUpgradeApproval_def
      Let_def split: agent_input.splits payload.splits notice.splits sum.splits if_splits option.splits list.splits
      bus_value.splits)

lemma agent_run_user:
  "agent_run user is acts = (rs, acts') \<Longrightarrow> users_own user acts \<Longrightarrow>
   \<forall>r \<in> set rs. ar_user r = user \<and> ar_action r \<in> {APPROVE, DENY}"
proof (induction "is" arbitrary: acts rs)
  case (Cons i "is")
  obtain rs1 acts1 rs2 where step: "agent_step user i acts = (rs1, acts1)" and rest: "agent_run user is acts1 = (rs2, acts')"
    and rs: "rs = rs1 @ rs2" using Cons.prems by (auto split: prod.splits)
  from agent_step_user[OF step Cons.prems(2)] Cons.IH[OF rest] rs show ?case by auto
qed simp

text \<open>C21: An agent answers an upgrade request only when it was shown, at most once for every time it was
  shown, whatever signals the bus sends and in whatever order: counted with multiplicity, the event IDs
  of its answers are among those of the requests shown. Every answer is an approval or a denial in the
  name of the agent's user.\<close>

theorem agent_answers_once:
  assumes "agent_run user inputs [] = (answers, acts)"
  shows "mset (map ar_eventId answers) \<subseteq># mset (concat (map asked inputs)) \<and>
    (\<forall>r \<in> set answers. ar_user r = user \<and> ar_action r \<in> {APPROVE, DENY})"
  using agent_run_accounts[OF assms] agent_run_user[OF assms]
  by (auto simp: open_requests_def users_own_def intro: subset_mset.order_trans[OF mset_subset_eq_add_left])

definition demo_inputs :: "agent_input list" where
  "demo_inputs = [Event 0 \<lparr>ev_id = ''up'', ev_timestamp = Some 0, ev_payload =
      NodeNotice (UpgradeApprovalRequest ''up'' ''system upgrade on n1'' 0 (60 * second))\<rparr> (Inr 7),
    Signal \<lparr>sg_name = dbusNotifyIface @ ''.ActionInvoked'', sg_body = [BUint32 7, BString ''deny'']\<rparr>,
    Signal \<lparr>sg_name = dbusNotifyIface @ ''.ActionInvoked'', sg_body = [BUint32 7, BString ''approve'']\<rparr>]"

theorem agent_answers_once_witness:
  "\<exists>answers acts. agent_run ''u'' demo_inputs [] = (answers, acts) \<and> map ar_action answers = [DENY] \<and>
     mset (map ar_eventId answers) \<subseteq># {#''up''#}"
proof -
  obtain answers acts where run: "agent_run ''u'' demo_inputs [] = (answers, acts)" by fastforce
  moreover from run have "map ar_action answers = [DENY]"
    by (auto simp: demo_inputs_def agent_step_def show_call_def handleEvent_def handleUpgradeApproval_def on_signal_def
        approval_callback_def Let_def)
  ultimately show ?thesis using agent_answers_once[OF run] by (simp add: demo_inputs_def asked_def)
qed

end
