(* ===== verification/Approval.thy ===== *)
theory Approval
  imports NotificationCorrect Agent
begin

text \<open>
  The notification server as the \<^verbatim>\<open>Notifier\<close> the upgrade handler calls
  (\<^verbatim>\<open>internal/notification/notifier.go\<close>): the interface as a locale, what the handler can rely on through it, and
  a user's refusal on its way from the desktop to the handler.
\<close>

section \<open>The interface\<close>

text \<open>\<open>waiting s e\<close>: an approval of the event \<open>e\<close> is pending in state \<open>s\<close>.\<close>

locale approval_service =
  fixes nt :: "'h notifier" and waiting :: "'h \<Rightarrow> string \<Rightarrow> bool"
  assumes wait_registers: "run_state (nt_WaitForApproval nt eid) s = (u, s') \<Longrightarrow> waiting s' e \<longleftrightarrow> e = eid \<or> waiting s e"
    and notify_keeps: "run_state (nt_Notify nt n) s = (u, s') \<Longrightarrow> waiting s' e \<longleftrightarrow> waiting s e"
    and await_keeps: "run_state (nt_await nt eid d) s = (r, s') \<Longrightarrow> waiting s' e \<longleftrightarrow> waiting s e"
    and answer_needs_request: "run_state (nt_await nt eid d) s = (Response a, s') \<Longrightarrow> waiting s eid"
    and cancel_removes: "run_state (nt_CancelApproval nt eid) s = (u, s') \<Longrightarrow> waiting s' e \<longleftrightarrow> e \<noteq> eid \<and> waiting s e"
begin

text \<open>The handler cleans up after itself: whatever the outcome, its request is no longer pending and
  those of other events are as they were.\<close>

lemma request_cleans_up:
  assumes "me_notifier me = Some nt"
    and clock: "\<And>s t s' e. run_state (h_now (me_host me)) s = (t, s') \<Longrightarrow> waiting s' e \<longleftrightarrow> waiting s e"
    and run: "run_state (requestUpgradeApproval me nt node t) w = (r, w')"
  shows "waiting (w_ext w') e \<longleftrightarrow> e \<noteq> upgrade_event_id (om_name (mn_meta node)) t \<and> waiting (w_ext w) e"
proof -
  let ?eid = "upgrade_event_id (om_name (mn_meta node)) t"
  obtain t1 s1 where 1: "run_state (h_now (me_host me)) (w_ext w) = (t1, s1)" by fastforce
  obtain u2 s2 where 2: "run_state (nt_WaitForApproval nt ?eid) s1 = (u2, s2)" by (metis surj_pair)
  let ?n = "UpgradeApprovalRequest ?eid (''system upgrade on '' @ om_name (mn_meta node)) t (t1 + mc_forgiveness (me_cfg me))"
  obtain u3 s3 where 3: "run_state (nt_Notify nt ?n) s2 = (u3, s3)" by (metis surj_pair)
  obtain t4 s4 where 4: "run_state (h_now (me_host me)) s3 = (t4, s4)" by fastforce
  obtain a s5 where 5: "run_state (nt_await nt ?eid (time_sub (t1 + mc_forgiveness (me_cfg me)) t4)) s4 = (a, s5)" by fastforce
  obtain u6 s6 where 6: "run_state (nt_CancelApproval nt ?eid) s5 = (u6, s6)" by (metis surj_pair)
  have "w_ext w' = s6"
    using run assms(1) 1 2 3 4 5 6 by (simp add: requestUpgradeApproval_def notify_def now_def Let_def) auto
  then show ?thesis
    using clock[OF 1] wait_registers[OF 2] notify_keeps[OF 3] clock[OF 4] await_keeps[OF 5] cancel_removes[OF 6] by auto
qed

end

section \<open>The server behind it\<close>

definition notice_event :: "notice \<Rightarrow> nevent" where
  "notice_event n = \<lparr>ev_id = (case n of UpgradeApprovalRequest eid _ _ _ \<Rightarrow> eid | _ \<Rightarrow> []), ev_timestamp = None,
     ev_payload = NodeNotice n\<rparr>"

text \<open>The select of the handler while the agents send \<open>acts\<close>: an answer in the channel is taken, and without
  one the deadline passes.\<close>

definition deliver_all :: "approval_response list \<Rightarrow> server \<Rightarrow> server" where
  "deliver_all rs s = fold (\<lambda>r. snd \<circ> RespondToApproval r) rs s"

definition server_await :: "approval_response list \<Rightarrow> string \<Rightarrow> server \<Rightarrow> select_result \<times> server" where
  "server_await acts eid s =
     (let s1 = deliver_all acts s in
      case map_of (sv_approvals s1) eid of
        None \<Rightarrow> (Deadline, s1)
      | Some ch \<Rightarrow> (case receive_answer ch s1 of
          None \<Rightarrow> (Deadline, s1)
        | Some (r, s2) \<Rightarrow> (Response (ar_action r), s2)))"

definition server_notifier :: "string \<Rightarrow> instant \<Rightarrow> (string \<Rightarrow> approval_response list) \<Rightarrow> server notifier" where
  "server_notifier uuid t acts = \<lparr>
     nt_Notify = (\<lambda>n. State (\<lambda>s. ((), server_Notify uuid t (notice_event n) s))),
     nt_HasSubscribers = State (\<lambda>s. (HasSubscribers s, s)),
     nt_WaitForApproval = (\<lambda>eid. State (\<lambda>s. ((), snd (WaitForApproval eid s)))),
     nt_await = (\<lambda>eid d. State (server_await (acts eid) eid)),
     nt_CancelApproval = (\<lambda>eid. State (\<lambda>s. ((), CancelApproval eid s)))\<rparr>"

lemma RespondToApproval_approvals [simp]: "sv_approvals (snd (RespondToApproval r s)) = sv_approvals s"
  by (simp add: RespondToApproval_def respond_send_def split: option.split)

lemma deliver_all_approvals [simp]: "sv_approvals (deliver_all rs s) = sv_approvals s"
  by (induction rs arbitrary: s) (simp_all add: deliver_all_def)

lemma receive_answer_approvals: "receive_answer ch s = Some (r, s') \<Longrightarrow> sv_approvals s' = sv_approvals s"
  by (auto simp: receive_answer_def split: list.splits)

lemma server_await_approvals: "server_await rs eid s = (r, s') \<Longrightarrow> sv_approvals s' = sv_approvals s"
  by (auto simp: server_await_def Let_def receive_answer_approvals split: option.splits)

definition pending_in :: "server \<Rightarrow> string \<Rightarrow> bool" where
  "pending_in s e \<longleftrightarrow> map_of (sv_approvals s) e \<noteq> None"

interpretation served: approval_service "server_notifier uuid t acts" pending_in
proof (unfold_locales, goal_cases)
  case (1 eid s u s' e)
  then show ?case by (auto simp: server_notifier_def pending_in_def WaitForApproval_def update_conv')
next
  case (2 n s u s' e)
  then show ?case by (auto simp: server_notifier_def pending_in_def server_Notify_def)
next
  case (3 eid d s r s' e)
  then show ?case by (auto simp: server_notifier_def pending_in_def dest!: server_await_approvals)
next
  case (4 eid d s a s')
  then show ?case by (auto simp: server_notifier_def pending_in_def server_await_def Let_def split: option.splits)
next
  case (5 eid s u s' e)
  then show ?case by (auto simp: server_notifier_def pending_in_def CancelApproval_def delete_conv' split: if_splits)
qed

text \<open>So the pending requests of the server are the same before and after a request of the handler, its own
  excepted, which is gone.\<close>

lemma request_leaves_nothing_pending:
  assumes "me_notifier me = Some (server_notifier uuid t acts)" and "\<And>s. snd (run_state (h_now (me_host me)) s) = s"
    and "run_state (requestUpgradeApproval me (server_notifier uuid t acts) node next) w = (r, w')"
  shows "pending_in (w_ext w') e \<longleftrightarrow> e \<noteq> upgrade_event_id (om_name (mn_meta node)) next \<and> pending_in (w_ext w) e"
proof (rule served.request_cleans_up[OF assms(1) _ assms(3)])
  fix s t' s' e
  assume "run_state (h_now (me_host me)) s = (t', s')"
  with assms(2)[of s] show "pending_in s' e \<longleftrightarrow> pending_in s e" by simp
qed

section \<open>A refusal\<close>

lemma full_channel_kept:
  "sv_answers s ! ch = [r] \<Longrightarrow> sv_answers (deliver_all rs s) ! ch = [r]"
proof (induction rs arbitrary: s)
  case (Cons r' rs)
  have "sv_answers (snd (RespondToApproval r' s)) ! ch = [r]"
    using Cons.prems
    by (auto simp: RespondToApproval_def respond_send_def answer_buffer_def split: option.split)
      (metis list.distinct(1) nth_list_update_neq)
  from Cons.IH[OF this] show ?case by (simp add: deliver_all_def)
qed (simp add: deliver_all_def)

text \<open>The first answer to a fresh request is the one the handler receives.\<close>

lemma await_first:
  assumes "ar_eventId r = eid" and "map_of (sv_approvals s) eid = Some ch" and "sv_answers s ! ch = []" and "ch < length (sv_answers s)"
  shows "fst (server_await (r # rs) eid s) = Response (ar_action r)"
proof -
  have "sv_answers (snd (RespondToApproval r s)) ! ch = [r]"
    using assms by (simp add: RespondToApproval_def respond_lookup_def respond_send_def answer_buffer_def)
  then have "sv_answers (deliver_all (r # rs) s) ! ch = [r]" using full_channel_kept by (simp add: deliver_all_def)
  then show ?thesis using assms(2) by (simp add: server_await_def receive_answer_def Let_def)
qed

lemma request_refused:
  assumes "me_notifier me = Some (server_notifier uuid t acts)" and clock: "\<And>s. snd (run_state (h_now (me_host me)) s) = s"
    and "acts (upgrade_event_id (om_name (mn_meta node)) next) = r # rs"
    and "ar_eventId r = upgrade_event_id (om_name (mn_meta node)) next" and "ar_action r \<in> {DENY, DELAY}"
  shows "makes (\<lambda>a es. a = Inr False \<and> calm es) (requestUpgradeApproval me (server_notifier uuid t acts) node next)"
proof (rule makesI)
  fix w a w'
  let ?eid = "upgrade_event_id (om_name (mn_meta node)) next"
  assume run: "run_state (requestUpgradeApproval me (server_notifier uuid t acts) node next) w = (a, w')"
  have now: "\<exists>x. run_state (h_now (me_host me)) s = (x, s)" for s using clock[of s] by (metis prod.collapse)
  obtain t1 where 1: "run_state (h_now (me_host me)) (w_ext w) = (t1, w_ext w)" using now by blast
  define n where "n = UpgradeApprovalRequest ?eid (''system upgrade on '' @ om_name (mn_meta node)) next (t1 + mc_forgiveness (me_cfg me))"
  define s where "s = server_Notify uuid t (notice_event n) (snd (WaitForApproval ?eid (w_ext w)))"
  obtain t2 where 2: "run_state (h_now (me_host me)) s = (t2, s)" using now by blast
  have "fst (server_await (acts ?eid) ?eid s) = Response (ar_action r)"
    unfolding assms(3) by (rule await_first[where ch = "length (sv_answers (w_ext w))"])
      (simp_all add: assms(4) s_def server_Notify_def WaitForApproval_def update_conv')
  then obtain s' where 3: "server_await (acts ?eid) ?eid s = (Response (ar_action r), s')" by (metis prod.collapse)
  have "a = Inr False \<and> w_trace w' = w_trace w @ [EvCall (NotifyCall n) True, EvCall (ApprovalWait ?eid) False]"
    using run assms(1,5) 1 2 3 unfolding s_def n_def
    by (auto simp: requestUpgradeApproval_def notify_def now_def Let_def server_notifier_def approval_of_def)
  then show "\<exists>es. w_trace w' = w_trace w @ es \<and> a = Inr False \<and> calm (visible es)"
    by (intro exI[of _ "[EvCall (NotifyCall n) True, EvCall (ApprovalWait ?eid) False]"]) (simp add: calm_def)
qed


text \<open>A machine at noon on which everything would go through, with one agent connected whose user clicks Deny.\<close>

definition idle_host :: "server host" where
  "idle_host = \<lparr>h_exec = (\<lambda>cmd args stdin (f, x). (Exited 0 [] [], f, x)), h_now = ret 54000000000000,
     h_hostname = ret (Inr ''n1''), h_ctxErr = ret None, h_userId = (\<lambda>u. ret (Inr ''0'')), h_groupId = (\<lambda>g. ret (Inr ''0'')),
     h_userName = (\<lambda>u. ret (Inr ''root'')), h_groupName = (\<lambda>g. ret (Inr ''root'')), h_fault = (\<lambda>name p. ret None),
     h_partial = (\<lambda>p d. ret 0), h_umask = 18, h_uid = 0, h_gid = 0\<rparr>"

definition idle_env :: "server env" where
  "idle_env = \<lparr>e_host = idle_host,
     e_client = \<lparr>cl_get = (\<lambda>k n. ret (Inr (OManagedNode demo_upgrade_node))), cl_list = (\<lambda>k n. ret (Inr [])),
       cl_create = (\<lambda>x. ret (Inr x)), cl_update = (\<lambda>x. ret (Inr x)), cl_updateStatus = (\<lambda>x. ret (Inr x)),
       cl_cordon = (\<lambda>n b. ret None), cl_evict = (\<lambda>n. ret None)\<rparr>,
     e_system = ArchLinux idle_host demo_ini ''amd64'' ''linux'',
     e_locker = \<lparr>lk_Lock = (\<lambda>r. ret None), lk_LockFor = (\<lambda>r d. ret None), lk_Unlock = (\<lambda>r. ret None), lk_Locked = (\<lambda>r. ret False)\<rparr>\<rparr>"

definition denied :: "string \<Rightarrow> approval_response list" where
  "denied e = [\<lparr>ar_eventId = e, ar_action = DENY, ar_delay = None, ar_user = ''zoe''\<rparr>,
     \<lparr>ar_eventId = e, ar_action = APPROVE, ar_delay = None, ar_user = ''max''\<rparr>]"

definition asking_me :: "server mn_env" where
  "asking_me = \<lparr>me_env = idle_env, me_cfg = default_managednode_config, me_agentVersion = ''v1'',
     me_notifier = Some (server_notifier ''u'' 0 denied), me_cron = (\<lambda>s. Inr midnight), me_interfaces = ret (Inr []),
     me_generateKey = ret (Inr (''priv'', ''pub'')), me_podsOn = (\<lambda>n. ret (Inr [])), me_sleep = (\<lambda>d. ret ())\<rparr>"

definition asked_world :: "server world" where
  "asked_world = \<lparr>w_fs = [], w_trace = [], w_rv = \<lparr>rv_last = [], rv_gauge = []\<rparr>, w_ext = subscribe_enter ''s'' NewServer\<rparr>"


end
