(* ===== verification/Bootstrap.thy ===== *)
theory Bootstrap
  imports OsFile
begin

text \<open>
  The subcommands \<^verbatim>\<open>rbac\<close>, \<^verbatim>\<open>token\<close> and \<^verbatim>\<open>bootstrap\<close> of \<^verbatim>\<open>cmd/bootstrap.go\<close>, after their flags are
  parsed: the permissions of a node and the kubeconfig files. The Kubernetes client, the loading and the
  serialising of kubeconfig files are parameters; \<^verbatim>\<open>os.Exit(1)\<close> with its message is an error.
\<close>

section \<open>Permissions\<close>

record policy_rule =
  pr_apiGroups :: "string list"
  pr_resources :: "string list"
  pr_verbs :: "string list"
  pr_resourceNames :: "string list"

definition rule :: "string \<Rightarrow> string \<Rightarrow> string list \<Rightarrow> policy_rule" where
  "rule grp res verbs = \<lparr>pr_apiGroups = [grp], pr_resources = [res], pr_verbs = verbs, pr_resourceNames = []\<rparr>"

definition bootstrapClusterRoleName :: string where
  "bootstrapClusterRoleName = ''nodemanager-node''"

definition nodeClusterRoleRules :: "policy_rule list" where
  "nodeClusterRoleRules = [
     rule ''common.nodemanager'' ''configsets'' [''get'', ''list'', ''watch''],
     rule ''common.nodemanager'' ''configsets/status'' [''update'', ''patch''],
     rule ''common.nodemanager'' ''managednodes'' [''get'', ''list'', ''watch'', ''update'', ''patch''],
     rule ''common.nodemanager'' ''managednodes/status'' [''update'', ''patch''],
     rule ''freebsd.nodemanager'' ''jailtemplates'' [''get'', ''list'', ''watch''],
     rule ''freebsd.nodemanager'' ''jails'' [''get'', ''list'', ''watch'', ''update'', ''patch''],
     rule ''freebsd.nodemanager'' ''jails/status'' [''update'', ''patch''],
     rule [] ''secrets'' [''get'', ''create''],
     rule [] ''configmaps'' [''get'', ''list'', ''watch''],
     rule ''coordination.k8s.io'' ''leases'' [''get'', ''list'', ''watch'', ''create'', ''update'', ''patch'', ''delete'']]"

record role_ref =
  rr_kind :: string
  rr_name :: string

record subject =
  sj_kind :: string
  sj_name :: string
  sj_namespace :: string

datatype rbac_object =
    RNamespace string
  | RServiceAccount string string
  | RClusterRole string "policy_rule list"
  | RClusterRoleBinding string role_ref "subject list"
  | RRole string string "policy_rule list"
  | RRoleBinding string string role_ref "subject list"

definition sa_name :: "string \<Rightarrow> string" where
  "sa_name hostname = ''nodemanager-'' @ hostname"

definition runRBAC :: "string \<Rightarrow> string \<Rightarrow> rbac_object list res" where
  "runRBAC hostname namespace =
     (if hostname = [] then Inl (Plain ''error: --hostname is required'')
      else let saName = sa_name hostname; refreshRoleName = saName @ ''-token-refresh'';
               node = \<lparr>sj_kind = ''ServiceAccount'', sj_name = saName, sj_namespace = namespace\<rparr>
           in Inr [
             RNamespace namespace,
             RServiceAccount saName namespace,
             RClusterRole bootstrapClusterRoleName nodeClusterRoleRules,
             RClusterRoleBinding saName \<lparr>rr_kind = ''ClusterRole'', rr_name = bootstrapClusterRoleName\<rparr> [node],
             RRole refreshRoleName namespace
               [\<lparr>pr_apiGroups = [[]], pr_resources = [''serviceaccounts/token''], pr_verbs = [''create''],
                 pr_resourceNames = [saName]\<rparr>],
             RRoleBinding refreshRoleName namespace \<lparr>rr_kind = ''Role'', rr_name = refreshRoleName\<rparr> [node]])"

section \<open>Kubeconfig files\<close>

record kube_cluster =
  kl_server :: string
  kl_caData :: string

record kube_context =
  kx_cluster :: string
  kx_authInfo :: string
  kx_namespace :: string

record kubeconfig =
  kc_clusters :: "kube_cluster smap"
  kc_authInfos :: "string smap"
  kc_contexts :: "kube_context smap"
  kc_currentContext :: string

definition serverAndCA :: "kubeconfig \<Rightarrow> (string \<times> string) res" where
  "serverAndCA cfg = (case map_of (kc_contexts cfg) (kc_currentContext cfg) of
     None \<Rightarrow> Inl (Plain ''no current context in kubeconfig'')
   | Some ctx \<Rightarrow> (case map_of (kc_clusters cfg) (kx_cluster ctx) of
       None \<Rightarrow> Inl (Plain (''cluster '' @ Quote (kx_cluster ctx) @ '' not found in kubeconfig''))
     | Some cluster \<Rightarrow> Inr (kl_server cluster, kl_caData cluster)))"

definition buildKubeconfig :: "string \<Rightarrow> string \<Rightarrow> string \<Rightarrow> string \<Rightarrow> string \<Rightarrow> kubeconfig" where
  "buildKubeconfig hostname namespace server caData token =
     \<lparr>kc_clusters = [(''nodemanager'', \<lparr>kl_server = server, kl_caData = caData\<rparr>)],
      kc_authInfos = [(sa_name hostname, token)],
      kc_contexts = [(''nodemanager'', \<lparr>kx_cluster = ''nodemanager'', kx_authInfo = sa_name hostname, kx_namespace = namespace\<rparr>)],
      kc_currentContext = ''nodemanager''\<rparr>"

text \<open>The libraries the commands call: the client built from a kubeconfig file (the empty path is the
  default one), its token request, loading, serialising and writing a configuration.\<close>

record 'h kube =
  kb_buildConfig :: "string \<Rightarrow> ('h, err option) state"
  kb_newForConfig :: "string \<Rightarrow> ('h, err option) state"
  kb_load :: "string \<Rightarrow> ('h, kubeconfig res) state"
  kb_createToken :: "string \<Rightarrow> string \<Rightarrow> string \<Rightarrow> duration \<Rightarrow> ('h, string res) state"
  kb_serialise :: "kubeconfig \<Rightarrow> string res"
  kb_writeToFile :: "kubeconfig \<Rightarrow> string \<Rightarrow> ('h world, err option) state"

definition mustIssueToken :: "'h kube \<Rightarrow> string \<Rightarrow> string \<Rightarrow> string \<Rightarrow> duration \<Rightarrow> ('h world, string res) state" where
  "mustIssueToken kb kubeconfigPath namespace hostname ttl =
     or_return (ext (kb_createToken kb kubeconfigPath namespace (sa_name hostname) ttl))
       (Wrap (''error: requesting token for '' @ Quote (sa_name hostname))) (\<lambda>token. ret (Inr token))"

definition resolveHostname :: "'h host \<Rightarrow> string \<Rightarrow> ('h world, string res) state" where
  "resolveHostname h given =
     (if given \<noteq> [] then ret (Inr given)
      else or_return (ext (h_hostname h)) (Wrap ''error: could not determine hostname'') (\<lambda>n. ret (Inr n)))"

definition defaultNodeKubeconfigPath :: "'h host \<Rightarrow> ('h world, string) state" where
  "defaultNodeKubeconfigPath h = do {
     s \<leftarrow> os_Stat h ''/usr/local/etc'';
     ret (case s of Inr _ \<Rightarrow> ''/usr/local/etc/nodemanager/kubeconfig'' | Inl _ \<Rightarrow> ''/etc/nodemanager/kubeconfig'')
   }"

definition writeKubeconfig :: "'h host \<Rightarrow> 'h kube \<Rightarrow> string \<Rightarrow> kubeconfig \<Rightarrow> ('h world, err option) state" where
  "writeKubeconfig h kb outputPath cfg =
     check_fail (os_MkdirAll h (Dir outputPath) 488) (Wrap ''error: creating kubeconfig directory'')
       (check_fail (kb_writeToFile kb cfg outputPath) (Wrap (''error: writing kubeconfig to '' @ Quote outputPath)) (ret None))"

definition mustClientset :: "'h kube \<Rightarrow> string \<Rightarrow> ('h world, err option) state" where
  "mustClientset kb path =
     check_fail (ext (kb_buildConfig kb path)) (Wrap (''error: loading kubeconfig '' @ Quote path))
       (check_fail (ext (kb_newForConfig kb path)) (Wrap ''error: building Kubernetes client'') (ret None))"

definition mustLoadKubeconfig :: "'h kube \<Rightarrow> string \<Rightarrow> ('h world, kubeconfig res) state" where
  "mustLoadKubeconfig kb path =
     or_return (ext (kb_load kb path))
       (Wrap (if path = [] then ''error: loading default kubeconfig'' else ''error: loading kubeconfig '' @ Quote path))
       (\<lambda>cfg. ret (Inr cfg))"

definition mustServerAndCA :: "kubeconfig \<Rightarrow> (string \<times> string) res" where
  "mustServerAndCA cfg = (case serverAndCA cfg of
     Inl e \<Rightarrow> Inl (Wrap ''error: reading server/CA from kubeconfig'' e)
   | Inr x \<Rightarrow> Inr x)"

text \<open>The common part: a client and the configuration it was built from, a token, server and certificate.\<close>

definition issue_kubeconfig :: "'h kube \<Rightarrow> string \<Rightarrow> string \<Rightarrow> string \<Rightarrow> duration \<Rightarrow> ('h world, kubeconfig res) state" where
  "issue_kubeconfig kb path namespace hostname ttl =
     check (mustClientset kb path) id
       (or_return (mustLoadKubeconfig kb path) id (\<lambda>raw.
          or_return (mustIssueToken kb path namespace hostname ttl) id (\<lambda>token.
            ret (case mustServerAndCA raw of
                   Inl e \<Rightarrow> Inl e
                 | Inr (server, caData) \<Rightarrow> Inr (buildKubeconfig hostname namespace server caData token)))))"

text \<open>\<open>runToken\<close> returns what it prints to standard output.\<close>

definition runToken :: "'h host \<Rightarrow> 'h kube \<Rightarrow> string \<Rightarrow> string \<Rightarrow> string \<Rightarrow> string \<Rightarrow> duration \<Rightarrow> ('h world, string res) state" where
  "runToken h kb adminKubeconfig outputFile namespace hostname ttl =
     (if hostname = [] then ret (Inl (Plain ''error: --hostname is required''))
      else or_return (issue_kubeconfig kb adminKubeconfig namespace hostname ttl) id (\<lambda>cfg.
        (case kb_serialise kb cfg of
           Inl e \<Rightarrow> ret (Inl (Wrap ''error: serialising kubeconfig'' e))
         | Inr bytes \<Rightarrow>
             if outputFile = [] then ret (Inr bytes)
             else check (os_MkdirAll h (Dir outputFile) 488) (Wrap ''error: creating output directory'')
                    (check (os_WriteFile h outputFile bytes 384) (Wrap (''error: writing '' @ outputFile)) (ret (Inr []))))))"

definition runBootstrap :: "'h host \<Rightarrow> 'h kube \<Rightarrow> string \<Rightarrow> string \<Rightarrow> string \<Rightarrow> string \<Rightarrow> duration \<Rightarrow> ('h world, err option) state" where
  "runBootstrap h kb bootstrapKubeconfig outputKubeconfig namespace hostname tokenTTL =
     (if bootstrapKubeconfig = [] then ret (Some (Plain ''error: --bootstrap-kubeconfig is required''))
      else or_fail (resolveHostname h hostname) id (\<lambda>hn.
        or_fail (issue_kubeconfig kb bootstrapKubeconfig namespace hn tokenTTL) id (\<lambda>cfg.
          writeKubeconfig h kb outputKubeconfig cfg)))"

end
