(* ===== verification/GoJson.thy ===== *)
theory GoJson
  imports GoStrings
begin

text \<open>
  What the sources use of Go's \<^verbatim>\<open>encoding/json\<close>: the syntax of JSON texts as its scanner accepts them
  (nesting up to 10000, strings with escapes, surrogate pairs and the replacement of invalid UTF-8), and
  decoding into structs, slices, strings and integers. A printer for JSON values states that the
  parser reads back what is printed.
\<close>

datatype json = JNull | JBool bool | JNum string | JStr string | JArr "json list" | JObj "(string \<times> json) list"

section \<open>Strings\<close>

abbreviation byte :: "char \<Rightarrow> nat" where
  "byte c \<equiv> of_char c"

definition byte_in :: "nat \<Rightarrow> nat \<Rightarrow> char \<Rightarrow> bool" where
  "byte_in lo hi c \<longleftrightarrow> lo \<le> byte c \<and> byte c \<le> hi"

text \<open>The length of the UTF-8 sequence of more than one byte that a string starts with, 0 if there is none.\<close>

definition utf8_len :: "string \<Rightarrow> nat" where
  "utf8_len s = (case s of
     c0 # c1 # r \<Rightarrow>
       if byte_in 0xC2 0xDF c0 \<and> byte_in 0x80 0xBF c1 then 2
       else (case r of
         c2 # r2 \<Rightarrow>
           if byte_in 0x80 0xBF c2 \<and>
              (byte c0 = 0xE0 \<and> byte_in 0xA0 0xBF c1 \<or> byte c0 = 0xED \<and> byte_in 0x80 0x9F c1 \<or>
               byte_in 0xE1 0xEF c0 \<and> byte c0 \<noteq> 0xED \<and> byte_in 0x80 0xBF c1) then 3
           else (case r2 of
             c3 # _ \<Rightarrow>
               if byte_in 0x80 0xBF c2 \<and> byte_in 0x80 0xBF c3 \<and>
                  (byte c0 = 0xF0 \<and> byte_in 0x90 0xBF c1 \<or> byte c0 = 0xF4 \<and> byte_in 0x80 0x8F c1 \<or>
                   byte_in 0xF1 0xF3 c0 \<and> byte_in 0x80 0xBF c1) then 4 else 0
           | [] \<Rightarrow> 0)
       | [] \<Rightarrow> 0)
   | _ \<Rightarrow> 0)"

definition utf8 :: "nat \<Rightarrow> string" where
  "utf8 u =
     (if u < 0x80 then [char_of u]
      else if u < 0x800 then [char_of (0xC0 + u div 64), char_of (0x80 + u mod 64)]
      else if u < 0x10000 then
        [char_of (0xE0 + u div 4096), char_of (0x80 + u div 64 mod 64), char_of (0x80 + u mod 64)]
      else [char_of (0xF0 + u div 262144), char_of (0x80 + u div 4096 mod 64),
            char_of (0x80 + u div 64 mod 64), char_of (0x80 + u mod 64)])"

definition replacement :: string where
  "replacement = utf8 0xFFFD"

definition hex_val :: "char \<Rightarrow> nat option" where
  "hex_val c =
     (if byte_in 48 57 c then Some (byte c - 48)
      else if byte_in 97 102 c then Some (byte c - 87)
      else if byte_in 65 70 c then Some (byte c - 55) else None)"

definition hex4 :: "string \<Rightarrow> (nat \<times> string) option" where
  "hex4 s = (case s of
     a # b # c # d # r \<Rightarrow> (case (hex_val a, hex_val b, hex_val c, hex_val d) of
        (Some w, Some x, Some y, Some z) \<Rightarrow> Some (((w * 16 + x) * 16 + y) * 16 + z, r)
      | _ \<Rightarrow> None)
   | _ \<Rightarrow> None)"

text \<open>The second half of a surrogate pair, if the string goes on with one.\<close>

definition low_surrogate :: "string \<Rightarrow> (nat \<times> string) option" where
  "low_surrogate s =
     (if HasPrefix s [CHR 0x5C, CHR ''u''] then
        (case hex4 (drop 2 s) of
           Some (v, r) \<Rightarrow> if 0xDC00 \<le> v \<and> v < 0xE000 then Some (v, r) else None
         | None \<Rightarrow> None)
      else None)"

text \<open>The character an escape \<^verbatim>\<open>\u\<close> stands for; a lone surrogate becomes the replacement character.\<close>

definition unicode_escape :: "string \<Rightarrow> (string \<times> string) option" where
  "unicode_escape s = (case hex4 s of
     None \<Rightarrow> None
   | Some (u, r) \<Rightarrow>
       if 0xD800 \<le> u \<and> u < 0xDC00 then
         (case low_surrogate r of
            Some (v, r2) \<Rightarrow> Some (utf8 (0x10000 + (u - 0xD800) * 1024 + (v - 0xDC00)), r2)
          | None \<Rightarrow> Some (replacement, r))
       else if 0xDC00 \<le> u \<and> u < 0xE000 then Some (replacement, r)
       else Some (utf8 u, r))"

definition simple_escape :: "char \<Rightarrow> char option" where
  "simple_escape c =
     map_of [(CHR 0x22, CHR 0x22), (CHR 0x5C, CHR 0x5C), (CHR ''/'', CHR ''/''), (CHR ''b'', CHR 8),
       (CHR ''f'', CHR 12), (CHR ''n'', CHR 10), (CHR ''r'', CHR 13), (CHR ''t'', CHR 9)] c"

text \<open>One unit of a string literal: its decoded bytes and the rest, \<open>None\<close> for a syntax error.\<close>

definition string_unit :: "char \<Rightarrow> string \<Rightarrow> (string \<times> string) option" where
  "string_unit c s =
     (if c = CHR 0x5C then
        (case s of
           [] \<Rightarrow> None
         | e # r \<Rightarrow> if e = CHR ''u'' then unicode_escape r
                    else (case simple_escape e of None \<Rightarrow> None | Some x \<Rightarrow> Some ([x], r)))
      else if byte c < 0x20 then None
      else if byte c < 0x80 then Some ([c], s)
      else (let n = utf8_len (c # s) in
            if n = 0 then Some (replacement, s) else Some (c # take (n - 1) s, drop (n - 1) s)))"

lemma hex4_length: "hex4 s = Some (u, r) \<Longrightarrow> length s = length r + 4"
  by (auto simp: hex4_def split: list.splits option.splits prod.splits)

lemma unicode_escape_shorter: "unicode_escape s = Some (x, r) \<Longrightarrow> length r < length s"
  by (auto simp: unicode_escape_def low_surrogate_def dest!: hex4_length split: option.splits prod.splits if_splits)

lemma string_unit_shorter: "string_unit c s = Some (x, r) \<Longrightarrow> length r \<le> length s"
  by (auto simp: string_unit_def Let_def dest: unicode_escape_shorter split: list.splits option.splits if_splits)

text \<open>The rest of a string literal, after the opening quote.\<close>

function parse_str :: "string \<Rightarrow> (string \<times> string) option" where
  "parse_str s = (case s of
     [] \<Rightarrow> None
   | c # cs \<Rightarrow>
       if c = CHR 0x22 then Some ([], cs)
       else (case string_unit c cs of
         None \<Rightarrow> None
       | Some (x, r) \<Rightarrow> (case parse_str r of None \<Rightarrow> None | Some (y, r2) \<Rightarrow> Some (x @ y, r2))))"
  by pat_completeness auto
termination by (relation "measure length") (auto dest: string_unit_shorter)

declare parse_str.simps [simp del]

lemma parse_str_cases:
  assumes "parse_str s = Some (x, r)"
  obtains (quote) "s = CHR 0x22 # r" "x = []"
    | (char) c cs x1 r1 x2 where "s = c # cs" "c \<noteq> CHR 0x22" "string_unit c cs = Some (x1, r1)"
        "parse_str r1 = Some (x2, r)" "x = x1 @ x2"
  using assms by (subst (asm) parse_str.simps) (auto split: list.splits if_splits option.splits)

lemma parse_str_shorter: "parse_str s = Some (x, r) \<Longrightarrow> length r < length s"
proof (induction s arbitrary: x r rule: measure_induct_rule[of length])
  case (less s)
  from less.prems show ?case
  proof (cases rule: parse_str_cases)
    case (char c cs x1 r1 x2)
    then have "length r1 < length s" using string_unit_shorter[of c cs] by fastforce
    with less.IH[of r1] char(4) show ?thesis by fastforce
  qed simp
qed

section \<open>Numbers\<close>

definition digits_span :: "string \<Rightarrow> string \<times> string" where
  "digits_span s = (takeWhile is_digit s, dropWhile is_digit s)"

text \<open>An integer part without leading zeros, an optional fraction, an optional exponent.\<close>

definition int_part :: "string \<Rightarrow> (string \<times> string) option" where
  "int_part s = (case s of
     [] \<Rightarrow> None
   | c # r \<Rightarrow> if c = CHR ''0'' then Some (''0'', r)
              else if is_digit c then Some (digits_span s) else None)"

definition frac_part :: "string \<Rightarrow> (string \<times> string) option" where
  "frac_part s = (case s of
     c # r \<Rightarrow> if c = CHR ''.'' then
                (if takeWhile is_digit r = [] then None else Some (c # takeWhile is_digit r, dropWhile is_digit r))
              else Some ([], s)
   | [] \<Rightarrow> Some ([], s))"

definition exp_sign :: "string \<Rightarrow> string \<times> string" where
  "exp_sign s = (case s of c # r \<Rightarrow> if c = CHR ''+'' \<or> c = CHR ''-'' then ([c], r) else ([], s) | [] \<Rightarrow> ([], []))"

definition exp_part :: "string \<Rightarrow> (string \<times> string) option" where
  "exp_part s = (case s of
     c # r \<Rightarrow> if c = CHR ''e'' \<or> c = CHR ''E'' then
                (case exp_sign r of (sg, r1) \<Rightarrow>
                   if takeWhile is_digit r1 = [] then None
                   else Some (c # sg @ takeWhile is_digit r1, dropWhile is_digit r1))
              else Some ([], s)
   | [] \<Rightarrow> Some ([], s))"

definition parse_num :: "string \<Rightarrow> (string \<times> string) option" where
  "parse_num s =
     (let (sg, s0) = (case s of c # r \<Rightarrow> if c = CHR ''-'' then ([c], r) else ([], s) | [] \<Rightarrow> ([], s)) in
      (case int_part s0 of
         None \<Rightarrow> None
       | Some (i, s1) \<Rightarrow> (case frac_part s1 of
           None \<Rightarrow> None
         | Some (f, s2) \<Rightarrow> (case exp_part s2 of
             None \<Rightarrow> None
           | Some (e, s3) \<Rightarrow> Some (sg @ i @ f @ e, s3)))))"

section \<open>Values\<close>

definition is_json_space :: "char \<Rightarrow> bool" where
  "is_json_space c \<longleftrightarrow> c \<in> {CHR 32, CHR 9, CHR 10, CHR 13}"

definition skip_ws :: "string \<Rightarrow> string" where
  "skip_ws s = dropWhile is_json_space s"

definition literal :: "string \<Rightarrow> (json \<times> string) option" where
  "literal s =
     (if HasPrefix s ''null'' then Some (JNull, drop 4 s)
      else if HasPrefix s ''true'' then Some (JBool True, drop 4 s)
      else if HasPrefix s ''false'' then Some (JBool False, drop 5 s)
      else (case parse_num s of None \<Rightarrow> None | Some (x, r) \<Rightarrow> Some (JNum x, r)))"

text \<open>
  The value parser. The first number is fuel: every two calls consume at least one byte, so twice the
  length of the input and two is enough (\<open>parse_fuel\<close>). The second counts the nesting still allowed.
\<close>

fun parse_value :: "nat \<Rightarrow> nat \<Rightarrow> string \<Rightarrow> (json \<times> string) option"
  and parse_elems :: "nat \<Rightarrow> nat \<Rightarrow> string \<Rightarrow> (json list \<times> string) option"
  and parse_members :: "nat \<Rightarrow> nat \<Rightarrow> string \<Rightarrow> ((string \<times> json) list \<times> string) option"
where
  "parse_value 0 d s = None"
| "parse_value (Suc n) d s = (case skip_ws s of
     [] \<Rightarrow> None
   | c # r \<Rightarrow>
       if c = CHR 0x22 then (case parse_str r of None \<Rightarrow> None | Some (x, r1) \<Rightarrow> Some (JStr x, r1))
       else if c = CHR 0x5B then
         (if d = 0 then None
          else (case skip_ws r of
            [] \<Rightarrow> None
          | e # r1 \<Rightarrow> if e = CHR 0x5D then Some (JArr [], r1)
                      else (case parse_elems n (d - 1) r of None \<Rightarrow> None | Some (xs, r2) \<Rightarrow> Some (JArr xs, r2))))
       else if c = CHR 0x7B then
         (if d = 0 then None
          else (case skip_ws r of
            [] \<Rightarrow> None
          | e # r1 \<Rightarrow> if e = CHR 0x7D then Some (JObj [], r1)
                      else (case parse_members n (d - 1) r of None \<Rightarrow> None | Some (xs, r2) \<Rightarrow> Some (JObj xs, r2))))
       else literal (c # r))"
| "parse_elems 0 d s = None"
| "parse_elems (Suc n) d s = (case parse_value n d s of
     None \<Rightarrow> None
   | Some (x, r) \<Rightarrow> (case skip_ws r of
       [] \<Rightarrow> None
     | c # r1 \<Rightarrow>
         if c = CHR 0x5D then Some ([x], r1)
         else if c = CHR 0x2C then
           (case parse_elems n d r1 of None \<Rightarrow> None | Some (xs, r2) \<Rightarrow> Some (x # xs, r2))
         else None))"
| "parse_members 0 d s = None"
| "parse_members (Suc n) d s = (case skip_ws s of
     [] \<Rightarrow> None
   | q # r0 \<Rightarrow>
       if q \<noteq> CHR 0x22 then None
       else (case parse_str r0 of
         None \<Rightarrow> None
       | Some (k, r) \<Rightarrow> (case skip_ws r of
           [] \<Rightarrow> None
         | c # r1 \<Rightarrow>
             if c \<noteq> CHR 0x3A then None
             else (case parse_value n d r1 of
               None \<Rightarrow> None
             | Some (x, r2) \<Rightarrow> (case skip_ws r2 of
                 [] \<Rightarrow> None
               | e # r3 \<Rightarrow>
                   if e = CHR 0x7D then Some ([(k, x)], r3)
                   else if e = CHR 0x2C then
                     (case parse_members n d r3 of None \<Rightarrow> None | Some (xs, r4) \<Rightarrow> Some ((k, x) # xs, r4))
                   else None)))))"

definition max_nesting :: nat where
  "max_nesting = 10000"

definition json_parse :: "string \<Rightarrow> json option" where
  "json_parse s = (case parse_value (2 * length s + 2) max_nesting s of
     None \<Rightarrow> None
   | Some (x, r) \<Rightarrow> if skip_ws r = [] then Some x else None)"

section \<open>Decoding\<close>

text \<open>
  A decoder stores a value into a variable that already has one, and fails on a type mismatch: null
  leaves a string, an integer or a struct as it is and empties a slice; the elements of an array go
  into the elements the slice has, or into zero values; the members of an object go into the fields
  they name, exactly or up to case folding (where \<^verbatim>\<open>U+017F\<close> folds to S and \<^verbatim>\<open>U+212A\<close> to K),
  and unknown members are skipped.
\<close>

definition dec_string :: "json \<Rightarrow> string \<Rightarrow> string option" where
  "dec_string j cur = (case j of JNull \<Rightarrow> Some cur | JStr s \<Rightarrow> Some s | _ \<Rightarrow> None)"

definition dec_int :: "json \<Rightarrow> int \<Rightarrow> int option" where
  "dec_int j cur = (case j of JNull \<Rightarrow> Some cur | JNum x \<Rightarrow> Atoi x | _ \<Rightarrow> None)"

fun dec_elems :: "(json \<Rightarrow> 'a \<Rightarrow> 'a option) \<Rightarrow> 'a \<Rightarrow> json list \<Rightarrow> 'a list \<Rightarrow> 'a list option" where
  "dec_elems f zero [] cur = Some []"
| "dec_elems f zero (j # js) cur =
     (case f j (case cur of [] \<Rightarrow> zero | x # _ \<Rightarrow> x) of
        None \<Rightarrow> None
      | Some x \<Rightarrow> (case dec_elems f zero js (drop 1 cur) of None \<Rightarrow> None | Some xs \<Rightarrow> Some (x # xs)))"

definition dec_slice :: "(json \<Rightarrow> 'a \<Rightarrow> 'a option) \<Rightarrow> 'a \<Rightarrow> json \<Rightarrow> 'a list \<Rightarrow> 'a list option" where
  "dec_slice f zero j cur = (case j of JNull \<Rightarrow> Some [] | JArr js \<Rightarrow> dec_elems f zero js cur | _ \<Rightarrow> None)"

fun fold_name :: "string \<Rightarrow> string" where
  "fold_name [] = []"
| "fold_name (c # s) =
     (if byte c = 0xC5 \<and> HasPrefix s [char_of (0xBF :: nat)] then CHR ''S'' # fold_name (drop 1 s)
      else if byte c = 0xE2 \<and> HasPrefix s [char_of (0x84 :: nat), char_of (0xAA :: nat)]
        then CHR ''K'' # fold_name (drop 2 s)
      else (if byte_in 97 122 c then char_of (byte c - 32) else c) # fold_name s)"

definition find_field :: "string list \<Rightarrow> string \<Rightarrow> string option" where
  "find_field names k =
     (if k \<in> set names then Some k else find (\<lambda>n. fold_name n = fold_name k) names)"

fun dec_members :: "string list \<Rightarrow> (string \<Rightarrow> json \<Rightarrow> 'a \<Rightarrow> 'a option) \<Rightarrow> (string \<times> json) list \<Rightarrow> 'a \<Rightarrow> 'a option" where
  "dec_members names set_field [] cur = Some cur"
| "dec_members names set_field ((k, j) # ms) cur =
     (case find_field names k of
        None \<Rightarrow> dec_members names set_field ms cur
      | Some n \<Rightarrow> (case set_field n j cur of None \<Rightarrow> None | Some x \<Rightarrow> dec_members names set_field ms x))"

definition dec_struct :: "string list \<Rightarrow> (string \<Rightarrow> json \<Rightarrow> 'a \<Rightarrow> 'a option) \<Rightarrow> json \<Rightarrow> 'a \<Rightarrow> 'a option" where
  "dec_struct names set_field j cur =
     (case j of JNull \<Rightarrow> Some cur | JObj ms \<Rightarrow> dec_members names set_field ms cur | _ \<Rightarrow> None)"

definition json_Unmarshal :: "(json \<Rightarrow> 'a \<Rightarrow> 'a option) \<Rightarrow> 'a \<Rightarrow> string \<Rightarrow> 'a res" where
  "json_Unmarshal dec zero s = (case json_parse s of
     None \<Rightarrow> Inl (Plain ''invalid JSON'')
   | Some j \<Rightarrow> (case dec j zero of None \<Rightarrow> Inl (Plain ''json: cannot unmarshal'') | Some x \<Rightarrow> Inr x))"

lemma dec_elems_map:
  "(\<And>x. x \<in> set xs \<Longrightarrow> f (g x) zero = Some x) \<Longrightarrow> dec_elems f zero (map g xs) [] = Some xs"
  by (induction xs) auto

section \<open>The fuel is enough\<close>

lemma skip_ws_length: "length (skip_ws s) \<le> length s"
  by (simp add: skip_ws_def length_dropWhile_le)

lemma dropWhile_shorter: "takeWhile P s \<noteq> [] \<Longrightarrow> length (dropWhile P s) < length s"
  by (metis add.commute add_diff_cancel_right' length_append length_greater_0_conv less_add_same_cancel2 takeWhile_dropWhile_id)

lemma int_part_shorter: "int_part s = Some (x, r) \<Longrightarrow> length r < length s"
  using dropWhile_shorter[of is_digit s]
  by (auto simp: int_part_def digits_span_def split: list.splits if_splits)

lemma frac_part_length: "frac_part s = Some (x, r) \<Longrightarrow> length r \<le> length s"
  by (auto simp: frac_part_def le_SucI length_dropWhile_le split: list.splits if_splits)

lemma exp_part_length: "exp_part s = Some (x, r) \<Longrightarrow> length r \<le> length s"
  by (auto simp: exp_part_def exp_sign_def le_SucI length_dropWhile_le split: list.splits if_splits)

lemma parse_num_shorter: "parse_num s = Some (x, r) \<Longrightarrow> length r < length s"
  by (fastforce simp: parse_num_def dest: int_part_shorter frac_part_length exp_part_length
      split: list.splits if_splits option.splits prod.splits)

lemma literal_shorter: "literal s = Some (x, r) \<Longrightarrow> length r < length s"
  by (fastforce simp: literal_def HasPrefix_iff dest: parse_num_shorter split: if_splits option.splits)

lemma skip_ws_Cons: "skip_ws s = c # r \<Longrightarrow> length r < length s"
  using skip_ws_length[of s] by simp

lemma parse_shorter:
  "parse_value n d s = Some (x, r) \<Longrightarrow> length r < length s"
  "parse_elems n d s = Some (xs, r) \<Longrightarrow> length r < length s"
  "parse_members n d s = Some (ms, r) \<Longrightarrow> length r < length s"
proof (induction n d s and n d s and n d s arbitrary: x r and xs r and ms r
    rule: parse_value_parse_elems_parse_members.induct)
  case (2 n d s)
  then show ?case
    by (auto split: list.splits if_splits option.splits dest!: skip_ws_Cons parse_str_shorter literal_shorter)
      (meson less_trans)+
next
  case (4 n d s)
  then show ?case
    by (auto split: list.splits if_splits option.splits dest!: skip_ws_Cons) (meson less_trans)+
next
  case (6 n d s)
  then show ?case
    by (auto split: list.splits if_splits option.splits dest!: skip_ws_Cons parse_str_shorter) (meson less_trans)+
qed auto

lemmas parse_steps = parse_value.simps(2) parse_elems.simps(2) parse_members.simps(2)

lemmas parse_congs = list.case_cong option.case_cong prod.case_cong if_cong refl

lemma parse_fuel:
  "2 * length s + 1 \<le> n \<Longrightarrow> parse_value (Suc n) d s = parse_value n d s"
  "2 * length s + 2 \<le> n \<Longrightarrow> parse_elems (Suc n) d s = parse_elems n d s"
  "2 * length s + 2 \<le> n \<Longrightarrow> parse_members (Suc n) d s = parse_members n d s"
proof (induction n arbitrary: s d)
  case (Suc n)
  {
    case 1
    then show ?case
      unfolding parse_steps(1)[of "Suc n" d s] parse_steps(1)[of n d s]
      by (intro parse_congs Suc.IH) (auto simp: Suc.IH simp del: parse_value.simps parse_elems.simps parse_members.simps dest!: skip_ws_Cons)
  next
    case 2
    then show ?case
      unfolding parse_steps(2)[of "Suc n" d s] parse_steps(2)[of n d s]
      by (intro parse_congs Suc.IH) (auto simp: Suc.IH simp del: parse_value.simps parse_elems.simps parse_members.simps dest!: skip_ws_Cons parse_shorter)
  next
    case 3
    then show ?case
      unfolding parse_steps(3)[of "Suc n" d s] parse_steps(3)[of n d s]
      by (intro parse_congs Suc.IH) (auto simp: Suc.IH simp del: parse_value.simps parse_elems.simps parse_members.simps dest!: skip_ws_Cons parse_shorter parse_str_shorter)
  }
qed auto

text \<open>So the result of \<open>json_parse\<close> does not depend on the fuel.\<close>

lemma parse_more_fuel: "parse_value (2 * length s + 2 + k) d s = parse_value (2 * length s + 2) d s"
  by (induction k) (simp_all del: parse_value.simps add: parse_fuel(1))

section \<open>Printing and reading back\<close>

definition quoted :: "string \<Rightarrow> string" where
  "quoted s = [CHR 0x22] @ s @ [CHR 0x22]"

fun json_print :: "json \<Rightarrow> string" where
  "json_print JNull = ''null''"
| "json_print (JBool b) = (if b then ''true'' else ''false'')"
| "json_print (JNum x) = x"
| "json_print (JStr s) = quoted s"
| "json_print (JArr xs) = [CHR 0x5B] @ Join (map json_print xs) '','' @ [CHR 0x5D]"
| "json_print (JObj ms) =
     [CHR 0x7B] @ Join (map (\<lambda>kv. quoted (fst kv) @ '':'' @ json_print (snd kv)) ms) '','' @ [CHR 0x7D]"

text \<open>Values that need no escapes: printable ASCII strings, decimal integers, limited nesting.\<close>

definition plain_str :: "string \<Rightarrow> bool" where
  "plain_str s = list_all (\<lambda>c. byte_in 0x20 0x7F c \<and> c \<noteq> CHR 0x22 \<and> c \<noteq> CHR 0x5C) s"

fun plain_json :: "nat \<Rightarrow> json \<Rightarrow> bool" where
  "plain_json d (JNum x) = (\<exists>n. x = nat_digits n)"
| "plain_json d (JStr s) = plain_str s"
| "plain_json d (JArr xs) = (d \<noteq> 0 \<and> (\<forall>x \<in> set xs. plain_json (d - 1) x))"
| "plain_json d (JObj ms) = (d \<noteq> 0 \<and> (\<forall>kv \<in> set ms. plain_str (fst kv) \<and> plain_json (d - 1) (snd kv)))"
| "plain_json d _ = True"

definition ends_value :: "string \<Rightarrow> bool" where
  "ends_value r \<longleftrightarrow> r = [] \<or> hd r = CHR 0x2C \<or> hd r = CHR 0x5D \<or> hd r = CHR 0x7D"

lemma parse_str_plain: "plain_str s \<Longrightarrow> parse_str (s @ [CHR 0x22] @ r) = Some (s, r)"
proof (induction s)
  case Nil
  then show ?case by (simp add: parse_str.simps)
next
  case (Cons c s)
  then have "string_unit c (s @ [CHR 0x22] @ r) = Some ([c], s @ [CHR 0x22] @ r)"
    by (auto simp: plain_str_def string_unit_def byte_in_def)
  with Cons show ?case by (subst parse_str.simps) (auto simp: plain_str_def)
qed

lemma nat_digits_hd: "0 < n \<Longrightarrow> hd (nat_digits n) \<noteq> CHR ''0''"
proof (induction n rule: nat_digits.induct)
  case (1 n)
  show ?case
  proof (cases "n < 10")
    case True
    have "of_char (CHR ''0'') = (48 :: nat)" by simp
    moreover have "of_char (char_of (48 + n)) = 48 + n" using True by simp
    ultimately show ?thesis using True 1 by (subst nat_digits.simps) (metis add_cancel_left_right less_not_refl list.sel(1))
  next
    case False
    with 1 show ?thesis by (subst nat_digits.simps) simp
  qed
qed

lemma nat_digits_Cons: "\<exists>c cs. nat_digits n = c # cs \<and> is_digit c \<and> (c = CHR ''0'' \<longrightarrow> nat_digits n = ''0'')"
proof -
  obtain c cs where c: "nat_digits n = c # cs" using nat_digits_nonempty[of n] by (cases "nat_digits n") auto
  moreover have "is_digit c" using nat_digits_digits[of n] c by simp
  moreover have "c = CHR ''0'' \<longrightarrow> nat_digits n = ''0''"
    using nat_digits_hd[of n] c by (cases "n = 0") (auto simp: nat_digits.simps)
  ultimately show ?thesis by blast
qed

lemma ends_value_not_number:
  assumes "ends_value r"
  shows "takeWhile is_digit r = []" "dropWhile is_digit r = r" "frac_part r = Some ([], r)" "exp_part r = Some ([], r)"
  using assms by (cases r; auto simp: ends_value_def frac_part_def exp_part_def is_digit_def)+

lemma parse_num_digits:
  assumes "ends_value r"
  shows "parse_num (nat_digits n @ r) = Some (nat_digits n, r)"
proof -
  obtain c cs where c: "nat_digits n = c # cs" "is_digit c" "c = CHR ''0'' \<longrightarrow> cs = []"
    using nat_digits_Cons[of n] by auto
  have all: "\<forall>x \<in> set (c # cs). is_digit x" using nat_digits_digits[of n] c(1) by metis
  have "c \<noteq> CHR ''-''" using is_digit_plain[OF c(2)] by simp
  moreover have "int_part (c # cs @ r) = Some (c # cs, r)"
  proof (cases "c = CHR ''0''")
    case False
    have "takeWhile is_digit (cs @ r) = cs" "dropWhile is_digit (cs @ r) = r"
      using all ends_value_not_number[OF assms] by (simp_all add: takeWhile_append2 dropWhile_append2)
    with False c(2) show ?thesis by (simp add: int_part_def digits_span_def)
  qed (use c in \<open>simp add: int_part_def\<close>)
  ultimately show ?thesis using ends_value_not_number[OF assms] by (simp add: parse_num_def c(1))
qed

text \<open>Every plain value is read back, given enough fuel; \<open>reads f P x\<close> says so of one parser.\<close>

definition reads :: "(nat \<Rightarrow> string \<Rightarrow> ('a \<times> string) option) \<Rightarrow> (string \<Rightarrow> bool) \<Rightarrow> string \<Rightarrow> 'a \<Rightarrow> bool" where
  "reads f ok s x \<longleftrightarrow> (\<exists>N. \<forall>n r. N \<le> n \<longrightarrow> ok r \<longrightarrow> f n (s @ r) = Some (x, r))"

lemma readsI: "(\<And>n r. N \<le> n \<Longrightarrow> ok r \<Longrightarrow> f n (s @ r) = Some (x, r)) \<Longrightarrow> reads f ok s x"
  unfolding reads_def by blast

lemma readsE:
  assumes "reads f ok s x"
  obtains N where "\<forall>n r. N \<le> n \<longrightarrow> ok r \<longrightarrow> f n (s @ r) = Some (x, r)"
  using assms unfolding reads_def by (elim exE)

lemma skip_ws_id: "\<not> is_json_space c \<Longrightarrow> skip_ws (c # r) = c # r"
  by (simp add: skip_ws_def)

lemma reads_elems:
  assumes "xs \<noteq> []" and "\<forall>x \<in> set xs. reads (\<lambda>n. parse_value n d) ends_value (json_print x) x"
  shows "reads (\<lambda>n. parse_elems n d) (\<lambda>r. True) (Join (map json_print xs) '','' @ [CHR 0x5D]) xs"
  using assms
proof (induction xs rule: list_nonempty_induct)
  case (single x)
  then obtain N where N: "\<forall>n r. N \<le> n \<longrightarrow> ends_value r \<longrightarrow> parse_value n d (json_print x @ r) = Some (x, r)"
    by (auto simp: reads_def)
  show ?case
  proof (rule readsI[of "Suc N"])
    fix n r assume "Suc N \<le> n"
    then obtain m where "n = Suc m" "N \<le> m" by (cases n) auto
    then show "parse_elems n d ((Join (map json_print [x]) '','' @ [CHR 0x5D]) @ r) = Some ([x], r)"
      by (simp add: N ends_value_def skip_ws_id is_json_space_def)
  qed
next
  case (cons x xs)
  have "reads (\<lambda>n. parse_value n d) ends_value (json_print x) x" using cons.prems by simp
  then obtain N where
    N: "\<forall>n r. N \<le> n \<longrightarrow> ends_value r \<longrightarrow> parse_value n d (json_print x @ r) = Some (x, r)"
    by (rule readsE)
  have "reads (\<lambda>n. parse_elems n d) (\<lambda>r. True) (Join (map json_print xs) '','' @ [CHR 0x5D]) xs"
    using cons by simp
  then obtain M where M: "\<forall>n r. M \<le> n \<longrightarrow> parse_elems n d (Join (map json_print xs) '','' @ CHR 0x5D # r) = Some (xs, r)"
    by (auto simp: reads_def)
  show ?case
  proof (rule readsI[of "Suc (max N M)"])
    fix n r assume "Suc (max N M) \<le> n"
    then obtain m where "n = Suc m" "N \<le> m" "M \<le> m" by (cases n) auto
    then show "parse_elems n d ((Join (map json_print (x # xs)) '','' @ [CHR 0x5D]) @ r) = Some (x # xs, r)"
      using cons.hyps by (simp add: N M Join_Cons ends_value_def skip_ws_id is_json_space_def)
  qed
qed

lemma reads_members:
  assumes "ms \<noteq> []" and "\<forall>kv \<in> set ms. plain_str (fst kv) \<and>
    reads (\<lambda>n. parse_value n d) ends_value (json_print (snd kv)) (snd kv)"
  shows "reads (\<lambda>n. parse_members n d) (\<lambda>r. True)
    (Join (map (\<lambda>kv. quoted (fst kv) @ '':'' @ json_print (snd kv)) ms) '','' @ [CHR 0x7D]) ms"
  using assms
proof (induction ms rule: list_nonempty_induct)
  case (single kv)
  then obtain N where N: "\<forall>n r. N \<le> n \<longrightarrow> ends_value r \<longrightarrow> parse_value n d (json_print (snd kv) @ r) = Some (snd kv, r)"
    and k: "plain_str (fst kv)" by (auto simp: reads_def)
  show ?case
  proof (rule readsI[of "Suc N"])
    fix n r assume "Suc N \<le> n"
    then obtain m where "n = Suc m" "N \<le> m" by (cases n) auto
    then show "parse_members n d ((Join (map (\<lambda>kv. quoted (fst kv) @ '':'' @ json_print (snd kv)) [kv]) '','' @
        [CHR 0x7D]) @ r) = Some ([kv], r)"
      using parse_str_plain[OF k] by (simp add: quoted_def N ends_value_def skip_ws_id is_json_space_def)
  qed
next
  case (cons kv ms)
  let ?p = "\<lambda>kv. quoted (fst kv) @ '':'' @ json_print (snd kv)"
  have k: "plain_str (fst kv)" and "reads (\<lambda>n. parse_value n d) ends_value (json_print (snd kv)) (snd kv)"
    using cons.prems by auto
  from this(2) obtain N where
    N: "\<forall>n r. N \<le> n \<longrightarrow> ends_value r \<longrightarrow> parse_value n d (json_print (snd kv) @ r) = Some (snd kv, r)"
    by (rule readsE)
  have "reads (\<lambda>n. parse_members n d) (\<lambda>r. True) (Join (map ?p ms) '','' @ [CHR 0x7D]) ms"
    using cons by simp
  then obtain M where M: "\<forall>n r. M \<le> n \<longrightarrow> parse_members n d (Join (map ?p ms) '','' @ CHR 0x7D # r) = Some (ms, r)"
    by (auto simp: reads_def)
  show ?case
  proof (rule readsI[of "Suc (max N M)"])
    fix n r assume "Suc (max N M) \<le> n"
    then obtain m where "n = Suc m" "N \<le> m" "M \<le> m" by (cases n) auto
    then show "parse_members n d ((Join (map ?p (kv # ms)) '','' @ [CHR 0x7D]) @ r) = Some (kv # ms, r)"
      using cons.hyps parse_str_plain[OF k] M
      by (simp add: quoted_def N Join_Cons ends_value_def skip_ws_id is_json_space_def)
  qed
qed

lemma literal_digits:
  assumes "ends_value r"
  shows "literal (nat_digits n @ r) = Some (JNum (nat_digits n), r)"
proof -
  obtain c cs where "nat_digits n = c # cs" "is_digit c" using nat_digits_Cons[of n] by auto
  then have "\<not> HasPrefix (nat_digits n @ r) p" if "p \<in> {''null'', ''true'', ''false''}" for p
    using that by (auto simp: HasPrefix_def is_digit_def)
  with parse_num_digits[OF assms, of n] show ?thesis by (simp add: literal_def)
qed

lemma parse_value_digits:
  assumes "ends_value r"
  shows "parse_value (Suc n) d (nat_digits k @ r) = Some (JNum (nat_digits k), r)"
proof -
  obtain c cs where c: "nat_digits k = c # cs" "is_digit c" using nat_digits_Cons[of k] by auto
  then have "c \<notin> {CHR 0x22, CHR 0x5B, CHR 0x7B}" "\<not> is_json_space c"
    by (auto simp: is_digit_def is_json_space_def)
  with literal_digits[OF assms, of k] c(1) show ?thesis by (simp add: skip_ws_id)
qed

text \<open>What an array or an object starts with is not its closing bracket.\<close>

lemma print_hd:
  "plain_json d x \<Longrightarrow> \<exists>c r. json_print x = c # r \<and> \<not> is_json_space c \<and> c \<noteq> CHR 0x5D \<and> c \<noteq> CHR 0x7D"
proof (cases x)
  case (JNum y)
  assume "plain_json d x"
  then obtain n where "y = nat_digits n" using JNum by auto
  then show ?thesis using nat_digits_Cons[of n] JNum by (auto simp: is_digit_def is_json_space_def)
qed (auto simp: quoted_def is_json_space_def)

lemma json_reads: "plain_json d x \<Longrightarrow> reads (\<lambda>n. parse_value n d) ends_value (json_print x) x"
proof (induction x arbitrary: d)
  case (JArr xs)
  show ?case
  proof (cases "xs = []")
    case False
    from JArr have "\<forall>x \<in> set xs. reads (\<lambda>n. parse_value n (d - 1)) ends_value (json_print x) x" by simp
    from reads_elems[OF False this] obtain N where
      N: "\<forall>n r. N \<le> n \<longrightarrow> True \<longrightarrow> parse_elems n (d - 1) ((Join (map json_print xs) '','' @ [CHR 0x5D]) @ r) = Some (xs, r)"
      by (rule readsE)
    obtain y ys where y: "xs = y # ys" using False by (cases xs) auto
    with JArr.prems obtain c s where "json_print y = c # s" "\<not> is_json_space c" "c \<noteq> CHR 0x5D"
      using print_hd[of "d - 1" y] by auto
    then have "\<exists>s. Join (map json_print xs) '','' = c # s" using y by (cases "ys = []") (auto simp: Join_Cons)
    then obtain t where t: "Join (map json_print xs) '','' = c # t" by blast
    show ?thesis
    proof (rule readsI[of "Suc N"])
      fix n r assume "Suc N \<le> n"
      then obtain m where "n = Suc m" "N \<le> m" by (cases n) auto
      with N[rule_format, of m r] JArr.prems t \<open>\<not> is_json_space c\<close> \<open>c \<noteq> CHR 0x5D\<close>
      show "parse_value n d (json_print (JArr xs) @ r) = Some (JArr xs, r)"
        by (simp add: skip_ws_id is_json_space_def)
    qed
  qed (use JArr.prems in \<open>auto intro!: readsI[of 1] simp: skip_ws_id is_json_space_def elim!: Suc_le_D[elim_format]\<close>)
next
  case (JObj ms)
  let ?p = "\<lambda>kv. quoted (fst kv) @ '':'' @ json_print (snd kv)"
  show ?case
  proof (cases "ms = []")
    case False
    have "\<forall>kv \<in> set ms. plain_str (fst kv) \<and>
        reads (\<lambda>n. parse_value n (d - 1)) ends_value (json_print (snd kv)) (snd kv)"
    proof
      fix kv assume kv: "kv \<in> set ms"
      have "snd kv \<in> Basic_BNFs.snds kv" by (cases kv) simp
      from JObj.IH[OF kv this, of "d - 1"] JObj.prems kv
      show "plain_str (fst kv) \<and> reads (\<lambda>n. parse_value n (d - 1)) ends_value (json_print (snd kv)) (snd kv)" by simp
    qed
    from reads_members[OF False this] obtain N where
      N: "\<forall>n r. N \<le> n \<longrightarrow> True \<longrightarrow> parse_members n (d - 1) ((Join (map ?p ms) '','' @ [CHR 0x7D]) @ r) = Some (ms, r)"
      by (rule readsE)
    obtain kv kvs where "ms = kv # kvs" using False by (cases ms) auto
    then have "\<exists>s. Join (map ?p ms) '','' = CHR 0x22 # s" by (cases "kvs = []") (auto simp: Join_Cons quoted_def)
    then obtain t where t: "Join (map ?p ms) '','' = CHR 0x22 # t" by blast
    show ?thesis
    proof (rule readsI[of "Suc N"])
      fix n r assume "Suc N \<le> n"
      then obtain m where "n = Suc m" "N \<le> m" by (cases n) auto
      with N[rule_format, of m r] JObj.prems t show "parse_value n d (json_print (JObj ms) @ r) = Some (JObj ms, r)"
        by (simp add: skip_ws_id is_json_space_def)
    qed
  qed (use JObj.prems in \<open>auto intro!: readsI[of 1] simp: skip_ws_id is_json_space_def elim!: Suc_le_D[elim_format]\<close>)
next
  case (JNum y)
  then obtain k where "y = nat_digits k" by auto
  then show ?case
    by (auto intro!: readsI[of 1] simp: parse_value_digits simp del: parse_value.simps elim!: Suc_le_D[elim_format])
next
  case (JStr y)
  then show ?case
    using parse_str_plain[of y]
    by (auto intro!: readsI[of 1] simp: quoted_def skip_ws_id is_json_space_def elim!: Suc_le_D[elim_format])
qed (auto intro!: readsI[of 1] simp: skip_ws_id is_json_space_def literal_def HasPrefix_def elim!: Suc_le_D[elim_format])

lemma json_roundtrip:
  assumes "plain_json max_nesting x"
  shows "json_parse (json_print x) = Some x"
proof -
  let ?s = "json_print x"
  obtain N where N: "\<forall>n r. N \<le> n \<longrightarrow> ends_value r \<longrightarrow> parse_value n max_nesting (?s @ r) = Some (x, r)"
    using json_reads[OF assms] by (rule readsE)
  have "parse_value (2 * length ?s + 2 + N) max_nesting (?s @ []) = Some (x, [])"
    by (rule N[rule_format]) (simp_all add: ends_value_def)
  then have "parse_value (2 * length ?s + 2) max_nesting ?s = Some (x, [])"
    by (simp only: parse_more_fuel append_Nil2)
  then show ?thesis by (simp add: json_parse_def skip_ws_def)
qed

end
