(* ===== verification/GoAny.thy ===== *)
theory GoAny
  imports GoJson "HOL-Library.AList"
begin

text \<open>
  Decoding JSON into Go's \<^verbatim>\<open>any\<close>: numbers become \<^verbatim>\<open>float64\<close>, rounded to the nearest value with ties to
  even as \<^verbatim>\<open>strconv.ParseFloat\<close> does, objects become maps in which the last of equal keys wins. Two such
  values have the same text under \<^verbatim>\<open>json.Marshal\<close> exactly when they are equal, because it writes map
  keys in order, floats in the shortest form that reads back, and strings injectively; comparing the
  marshalled texts is therefore comparing the values.
\<close>

section \<open>Numbers\<close>

text \<open>A finite float64: sign, integer significand, binary exponent.\<close>

datatype float64 = Float64 bool nat int

fun dec_val :: "nat \<Rightarrow> string \<Rightarrow> nat" where
  "dec_val acc [] = acc"
| "dec_val acc (c # cs) = dec_val (acc * 10 + (byte c - 48)) cs"

text \<open>The exponent stops growing at 10000, as in \<^verbatim>\<open>readFloat\<close>.\<close>

fun exp_val :: "nat \<Rightarrow> string \<Rightarrow> nat" where
  "exp_val acc [] = acc"
| "exp_val acc (c # cs) = exp_val (if acc < 10000 then acc * 10 + (byte c - 48) else acc) cs"

text \<open>A JSON number as sign, decimal significand and decimal exponent.\<close>

definition decimal :: "string \<Rightarrow> bool \<times> nat \<times> int" where
  "decimal s =
     (let neg = HasPrefix s ''-''; s0 = (if neg then drop 1 s else s);
          i = takeWhile is_digit s0; s1 = dropWhile is_digit s0;
          f = (if HasPrefix s1 ''.'' then takeWhile is_digit (drop 1 s1) else []);
          s2 = (if HasPrefix s1 ''.'' then dropWhile is_digit (drop 1 s1) else s1);
          (sg, ds) = exp_sign (drop 1 s2);
          e = int (exp_val 0 ds)
      in (neg, dec_val 0 (i @ f), (if sg = ''-'' then - e else e) - int (length f)))"

fun bits :: "nat \<Rightarrow> nat" where
  "bits n = (if n = 0 then 0 else Suc (bits (n div 2)))"

declare bits.simps [simp del]

definition round_even :: "nat \<Rightarrow> nat \<Rightarrow> nat" where
  "round_even num den =
     (let q = num div den; r = num mod den in if den < 2 * r \<or> den = 2 * r \<and> odd q then q + 1 else q)"

text \<open>The binary exponent of a positive fraction.\<close>

definition log2_frac :: "nat \<Rightarrow> nat \<Rightarrow> int" where
  "log2_frac num den =
     (let b = int (bits num) - int (bits den)
      in if den * 2 ^ nat b \<le> num * 2 ^ nat (- b) then b else b - 1)"

text \<open>The nearest float to a fraction; \<open>None\<close> when it is out of range.\<close>

definition nearest :: "nat \<Rightarrow> nat \<Rightarrow> (nat \<times> int) option" where
  "nearest num den =
     (if num = 0 then Some (0, 0)
      else let x = max (log2_frac num den - 52) (- 1074);
               q = round_even (num * 2 ^ nat (- x)) (den * 2 ^ nat x);
               (q, x) = (if q = 2 ^ 53 then (2 ^ 52, x + 1) else (q, x))
           in if q = 0 then Some (0, 0) else if 971 < x then None else Some (q, x))"

definition ParseFloat :: "string \<Rightarrow> float64 option" where
  "ParseFloat s = (case decimal s of (neg, m, e) \<Rightarrow>
     map_option (\<lambda>(q, x). Float64 neg q x) (nearest (m * 10 ^ nat e) (10 ^ nat (- e))))"

section \<open>Values\<close>

datatype goany = ANil | ABool bool | ANum float64 | AStr string | AArr "goany list" | AObj "(string \<times> goany) list"

text \<open>The entries of a map in the order \<^verbatim>\<open>json.Marshal\<close> writes them.\<close>

definition as_map :: "(string \<times> 'a) list \<Rightarrow> (string \<times> 'a) list" where
  "as_map ms = sort_key fst (fold (\<lambda>(k, v). AList.update k v) ms [])"

fun any_of :: "json \<Rightarrow> goany option" where
  "any_of JNull = Some ANil"
| "any_of (JBool b) = Some (ABool b)"
| "any_of (JNum x) = map_option ANum (ParseFloat x)"
| "any_of (JStr s) = Some (AStr s)"
| "any_of (JArr xs) = map_option AArr (those (map any_of xs))"
| "any_of (JObj ms) = map_option (\<lambda>vs. AObj (as_map (zip (map fst ms) vs))) (those (map (\<lambda>kv. any_of (snd kv)) ms))"

section \<open>Integers below two to the 53 are exact\<close>

lemma bits_one: "bits (Suc 0) = 1"
  by (simp add: bits.simps[of "Suc 0"] bits.simps[of 0])

lemma bits_bounds: "0 < n \<Longrightarrow> 2 ^ (bits n - 1) \<le> n \<and> n < 2 ^ bits n \<and> 0 < bits n"
proof (induction n rule: bits.induct)
  case (1 n)
  show ?case
  proof (cases "n < 2")
    case True
    with 1 have "n = 1" by simp
    then show ?thesis by (simp add: bits_one)
  next
    case False
    with 1 have "2 ^ (bits (n div 2) - 1) \<le> n div 2 \<and> n div 2 < 2 ^ bits (n div 2) \<and> 0 < bits (n div 2)" by auto
    moreover have "bits n = Suc (bits (n div 2))" using 1 by (subst bits.simps) simp
    moreover have "(2 :: nat) ^ bits (n div 2) = 2 * 2 ^ (bits (n div 2) - 1)" if "0 < bits (n div 2)"
      using that by (metis Suc_diff_1 power_Suc)
    moreover have "n = 2 * (n div 2) + n mod 2" "n mod 2 < 2" by simp_all
    ultimately show ?thesis by (simp del: mult_div_mod_eq) linarith
  qed
qed

lemma round_even_exact: "0 < den \<Longrightarrow> round_even (n * den) den = n"
  by (simp add: round_even_def)

lemma nearest_exact:
  assumes "0 < n" and "n < 2 ^ 53"
  shows "\<exists>k \<le> 52. nearest n 1 = Some (n * 2 ^ k, - int k) \<and> 2 ^ 52 \<le> n * 2 ^ k"
proof -
  let ?b = "bits n"
  have b: "2 ^ (?b - 1) \<le> n" "n < 2 ^ ?b" "0 < ?b" using bits_bounds[OF assms(1)] by auto
  have "(2 :: nat) ^ (?b - 1) < 2 ^ 53" using b(1) assms(2) by (rule le_less_trans)
  then have "?b - 1 < 53" by (rule power_less_imp_less_exp[rotated]) simp
  then have le: "?b \<le> 53" by simp
  let ?k = "53 - ?b"
  have log: "log2_frac n 1 = int ?b - 1" using b by (auto simp: log2_frac_def bits_one nat_diff_distrib')
  have x: "max (log2_frac n 1 - 52) (- 1074) = - int ?k" using le log by simp
  have "round_even (n * 2 ^ ?k) (1 * 2 ^ 0) = n * 2 ^ ?k" using round_even_exact[of 1] by simp
  moreover have "n * 2 ^ ?k < 2 ^ ?b * 2 ^ ?k" using b(2) by simp
  then have lt: "n * 2 ^ ?k < 2 ^ 53" using le by (simp flip: power_add)
  moreover have "2 ^ (?b - 1) * 2 ^ ?k \<le> n * 2 ^ ?k" using b(1) by simp
  then have "2 ^ 52 \<le> n * 2 ^ ?k" using le b(3) by (simp flip: power_add)
  ultimately have "nearest n 1 = Some (n * 2 ^ ?k, - int ?k)" using assms(1) x by (simp add: nearest_def Let_def)
  with \<open>2 ^ 52 \<le> n * 2 ^ ?k\<close> b(3) show ?thesis by (intro exI[of _ ?k]) auto
qed

lemma dec_val_append: "dec_val acc (xs @ ys) = dec_val (dec_val acc xs) ys"
  by (induction xs arbitrary: acc) auto

lemma dec_val_digits: "dec_val 0 (nat_digits n) = n"
proof (induction n rule: nat_digits.induct)
  case (1 n)
  show ?case
  proof (cases "n < 10")
    case True
    then show ?thesis by (subst nat_digits.simps) (simp add: of_char_of take_bit_nat_eq_self)
  next
    case False
    then have "nat_digits n = nat_digits (n div 10) @ [char_of (48 + n mod 10)]" by (subst nat_digits.simps) simp
    with 1 False show ?thesis by (simp add: dec_val_append of_char_of take_bit_nat_eq_self)
  qed
qed

lemma decimal_digits: "decimal (nat_digits n) = (False, n, 0)"
proof -
  obtain c cs where c: "nat_digits n = c # cs" "is_digit c" using nat_digits_Cons[of n] by auto
  then have "\<not> HasPrefix (nat_digits n) ''-''" by (auto simp: HasPrefix_def is_digit_def)
  moreover have t: "takeWhile is_digit (nat_digits n) = nat_digits n"
    using nat_digits_digits[of n] by (simp add: takeWhile_eq_all_conv)
  moreover have d: "dropWhile is_digit (nat_digits n) = []" using nat_digits_digits[of n] by (simp add: dropWhile_eq_Nil_conv)
  ultimately show ?thesis by (simp add: decimal_def Let_def exp_sign_def HasPrefix_def dec_val_digits t d)
qed

lemma ParseFloat_small:
  assumes "n < 2 ^ 53"
  shows "\<exists>k. ParseFloat (nat_digits n) = Some (Float64 False (n * 2 ^ k) (- int k))"
proof (cases "n = 0")
  case True
  then show ?thesis by (auto simp: ParseFloat_def decimal_digits nearest_def)
next
  case False
  with nearest_exact[of n] assms obtain k where "nearest n 1 = Some (n * 2 ^ k, - int k)" by auto
  then show ?thesis by (auto simp: ParseFloat_def decimal_digits)
qed

lemma ParseFloat_inj:
  assumes "m < 2 ^ 53" and "n < 2 ^ 53" and "ParseFloat (nat_digits m) = ParseFloat (nat_digits n)"
  shows "m = n"
  using ParseFloat_small[OF assms(1)] ParseFloat_small[OF assms(2)] assms(3) by auto

section \<open>Maps\<close>

lemma map_of_fold_update: "map_of (fold (\<lambda>(k, v). AList.update k v) ms acc) k =
    (case map_of (rev ms) k of Some v \<Rightarrow> Some v | None \<Rightarrow> map_of acc k)"
  by (induction ms arbitrary: acc) (auto simp: AList.update_conv' map_add_def split: option.splits)

lemma distinct_fold_update: "distinct (map fst acc) \<Longrightarrow> distinct (map fst (fold (\<lambda>(k, v). AList.update k v) ms acc))"
  by (induction ms arbitrary: acc) (auto simp: AList.distinct_update)

lemma distinct_as_map: "distinct (map fst (as_map ms))"
  using distinct_fold_update[of "[]" ms] unfolding as_map_def by (metis distinct.simps(1) distinct_map distinct_sort list.simps(8) set_sort)

lemma map_of_as_map: "map_of (as_map ms) = map_of (rev ms)"
proof -
  let ?l = "fold (\<lambda>(k, v). AList.update k v) ms []"
  have d: "distinct (map fst ?l)" by (rule distinct_fold_update) simp
  have "map_of (as_map ms) = map_of ?l"
    using d distinct_as_map[of ms] by (subst map_of_inject_set) (auto simp: as_map_def)
  then show ?thesis by (auto simp: map_of_fold_update split: option.splits)
qed

text \<open>Two maps are written in the same way exactly when they have the same entries.\<close>

lemma as_map_eq: "as_map ms = as_map ms' \<longleftrightarrow> map_of (rev ms) = map_of (rev ms')"
proof
  assume eq: "map_of (rev ms) = map_of (rev ms')"
  then have "set (as_map ms) = set (as_map ms')"
    using map_of_inject_set[OF distinct_as_map distinct_as_map, of ms ms'] by (simp add: map_of_as_map)
  moreover have "sorted (map fst (as_map l))" for l :: "(string \<times> 'a) list" by (simp add: as_map_def)
  moreover have "inj_on fst (set (as_map ms))" using distinct_as_map[of ms] by (simp add: distinct_map)
  ultimately show "as_map ms = as_map ms'"
    using distinct_as_map[of ms] distinct_as_map[of ms'] map_sorted_distinct_set_unique[of fst "as_map ms" "as_map ms'"]
    by simp
next
  assume "as_map ms = as_map ms'"
  then show "map_of (rev ms) = map_of (rev ms')" by (metis map_of_as_map)
qed

end
