(* ===== verification/Webhook.thy ===== *)
theory Webhook
  imports GoAny
begin

text \<open>
  The admission webhook that keeps node service accounts from changing specifications,
  \<^verbatim>\<open>internal/webhook/node_validator.go\<close>. The request carries the objects as JSON text. A
  \<^verbatim>\<open>json.RawMessage\<close> is kept as the value its text parses to, which the surrounding document's scan has
  already found to be well formed.
\<close>

section \<open>Requests and responses\<close>

datatype operation = OpCreate | OpUpdate | OpDelete | OpConnect

record admission_request =
  rq_operation :: operation
  rq_username :: string
  rq_resource :: string
  rq_name :: string
  rq_object :: string
  rq_oldObject :: string

datatype admission_response = Allowed | Denied string | Errored nat err

definition nodeServiceAccountPrefix :: string where
  "nodeServiceAccountPrefix = ''system:serviceaccount:nodemanager:nodemanager-''"

definition nodeHostname :: "string \<Rightarrow> string" where
  "nodeHostname username =
     (if \<not> HasPrefix username nodeServiceAccountPrefix then []
      else TrimPrefix username nodeServiceAccountPrefix)"

section \<open>Reading the objects\<close>

text \<open>Into \<^verbatim>\<open>map[string]json.RawMessage\<close>: null leaves the map nil, the last of equal keys wins.\<close>

definition dec_raw_map :: "json \<Rightarrow> (string \<times> json) list \<Rightarrow> (string \<times> json) list option" where
  "dec_raw_map j cur = (case j of JNull \<Rightarrow> Some [] | JObj ms \<Rightarrow> Some (rev ms) | _ \<Rightarrow> None)"

definition extractSpecs :: "admission_request \<Rightarrow> (json option \<times> json option) res" where
  "extractSpecs req = (case json_Unmarshal dec_raw_map [] (rq_object req) of
     Inl e \<Rightarrow> Inl (Wrap ''unmarshalling new object'' e)
   | Inr newObj \<Rightarrow> (case json_Unmarshal dec_raw_map [] (rq_oldObject req) of
       Inl e \<Rightarrow> Inl (Wrap ''unmarshalling old object'' e)
     | Inr oldObj \<Rightarrow> Inr (map_of oldObj ''spec'', map_of newObj ''spec'')))"

definition dec_node_name :: "json \<Rightarrow> string \<Rightarrow> string option" where
  "dec_node_name = dec_struct [''nodeName''] (\<lambda>_. dec_string)"

definition dec_jail_object :: "json \<Rightarrow> string \<Rightarrow> string option" where
  "dec_jail_object = dec_struct [''spec''] (\<lambda>_. dec_node_name)"

definition extractJailNodeName :: "admission_request \<Rightarrow> string res" where
  "extractJailNodeName req = (case json_Unmarshal dec_jail_object [] (rq_object req) of
     Inl e \<Rightarrow> Inl (Wrap ''reading jail spec.nodeName'' e)
   | Inr name \<Rightarrow> Inr name)"

definition jsonEqual :: "json option \<Rightarrow> json option \<Rightarrow> bool" where
  "jsonEqual a b = (case (a, b) of
     (None, None) \<Rightarrow> True
   | (Some x, Some y) \<Rightarrow> (case (any_of x, any_of y) of (Some av, Some bv) \<Rightarrow> av = bv | _ \<Rightarrow> False)
   | _ \<Rightarrow> False)"

section \<open>The decision\<close>

definition check_jail_owner :: "admission_request \<Rightarrow> string \<Rightarrow> admission_response option" where
  "check_jail_owner req hostname =
     (if rq_resource req = ''jails'' then
        (case extractJailNodeName req of
           Inl e \<Rightarrow> Some (Errored 400 e)
         | Inr nodeName \<Rightarrow>
             if nodeName \<noteq> [] \<and> nodeName \<noteq> hostname
             then Some (Denied (''node SA '' @ Quote (rq_username req) @ '' cannot modify jail assigned to '' @ Quote nodeName))
             else None)
      else None)"

definition check_node_owner :: "admission_request \<Rightarrow> string \<Rightarrow> admission_response option" where
  "check_node_owner req hostname =
     (if rq_resource req = ''managednodes'' \<and> rq_name req \<noteq> hostname
      then Some (Denied (''node SA '' @ Quote (rq_username req) @ '' cannot modify ManagedNode '' @ Quote (rq_name req)))
      else None)"

definition Handle :: "admission_request \<Rightarrow> admission_response" where
  "Handle req =
     (let hostname = nodeHostname (rq_username req) in
      if rq_operation req \<noteq> OpUpdate then Allowed
      else if hostname = [] then Allowed
      else (case extractSpecs req of
        Inl e \<Rightarrow> Errored 400 (Wrap ''decoding objects'' e)
      | Inr (oldSpec, newSpec) \<Rightarrow>
          if \<not> jsonEqual oldSpec newSpec
          then Denied (''node SA '' @ Quote (rq_username req) @ '' is not permitted to modify .spec'')
          else (case check_jail_owner req hostname of
            Some r \<Rightarrow> r
          | None \<Rightarrow> (case check_node_owner req hostname of Some r \<Rightarrow> r | None \<Rightarrow> Allowed))))"

section \<open>What equality of specifications means\<close>

text \<open>Semantic equality of JSON values: objects as maps from keys to values, the last of equal keys counting.\<close>

inductive same_json :: "json \<Rightarrow> json \<Rightarrow> bool" where
  "same_json JNull JNull"
| "same_json (JBool b) (JBool b)"
| "same_json (JNum x) (JNum x)"
| "same_json (JStr s) (JStr s)"
| "list_all2 same_json xs ys \<Longrightarrow> same_json (JArr xs) (JArr ys)"
| "(\<And>k. rel_option same_json (map_of (rev ms) k) (map_of (rev ms') k)) \<Longrightarrow> same_json (JObj ms) (JObj ms')"

inductive_simps same_json_simps:
  "same_json JNull y" "same_json (JBool b) y" "same_json (JNum x) y" "same_json (JStr s) y"
  "same_json (JArr xs) y" "same_json (JObj ms) y"

text \<open>Numbers are decimal integers that a float64 holds exactly.\<close>

fun exact_numbers :: "json \<Rightarrow> bool" where
  "exact_numbers (JNum x) = (\<exists>n < 2 ^ 53. x = nat_digits n)"
| "exact_numbers (JArr xs) = (\<forall>x \<in> set xs. exact_numbers x)"
| "exact_numbers (JObj ms) = (\<forall>kv \<in> set ms. exact_numbers (snd kv))"
| "exact_numbers _ = True"

lemma those_Some: "(\<forall>x \<in> set xs. \<exists>y. f x = Some y) \<Longrightarrow> those (map f xs) = Some (map (the \<circ> f) xs)"
  by (induction xs) auto

lemma any_of_total: "exact_numbers j \<Longrightarrow> \<exists>v. any_of j = Some v"
proof (induction j)
  case (JNum x)
  then show ?case using ParseFloat_small by fastforce
next
  case (JArr xs)
  then show ?case using those_Some[of xs any_of] by auto
next
  case (JObj ms)
  then have "\<forall>kv \<in> set ms. \<exists>v. any_of (snd kv) = Some v" by (auto simp: snds.simps)
  then show ?case using those_Some[of ms "\<lambda>kv. any_of (snd kv)"] by auto
qed auto

end
