(* ===== verification/WebhookCorrect.thy ===== *)
theory WebhookCorrect
  imports Webhook GoSlices
begin

text \<open>
  The webhook's comparison of specifications decides semantic equality, so a node service account
  can neither change a specification nor touch the objects of another node.
\<close>

section \<open>The comparison is exact\<close>

definition norm :: "json \<Rightarrow> goany" where
  "norm j = the (any_of j)"

lemma norm_simps:
  "norm JNull = ANil" "norm (JBool b) = ABool b" "norm (JStr s) = AStr s" "norm (JNum x) = the (map_option ANum (ParseFloat x))"
  "exact_numbers (JArr xs) \<Longrightarrow> norm (JArr xs) = AArr (map norm xs)"
  "exact_numbers (JObj ms) \<Longrightarrow> norm (JObj ms) = AObj (as_map (map (\<lambda>(k, v). (k, norm v)) ms))"
proof -
  show "norm (JArr xs) = AArr (map norm xs)" if "exact_numbers (JArr xs)"
    using that those_Some[of xs any_of] any_of_total by (simp add: norm_def[abs_def] comp_def)
  show "norm (JObj ms) = AObj (as_map (map (\<lambda>(k, v). (k, norm v)) ms))" if "exact_numbers (JObj ms)"
  proof -
    have "zip (map fst ms) (map (the \<circ> (\<lambda>kv. any_of (snd kv))) ms) = map (\<lambda>(k, v). (k, norm v)) ms"
      by (induction ms) (auto simp: norm_def)
    then show ?thesis
      using that those_Some[of ms "\<lambda>kv. any_of (snd kv)"] any_of_total by (simp add: norm_def[of "JObj ms"])
  qed
qed (simp_all add: norm_def)

lemma norm_num:
  assumes "exact_numbers (JNum x)"
  obtains f where "norm (JNum x) = ANum f"
proof -
  obtain n where "n < 2 ^ 53" "x = nat_digits n" using assms by auto
  with ParseFloat_small[of n] that show ?thesis by (auto simp: norm_def)
qed

lemma map_of_rev_map: "map_of (rev (map (\<lambda>(k, v). (k, f v)) ms)) k = map_option f (map_of (rev ms) k)"
  by (induction ms) (auto simp: map_add_def split: option.splits)

lemma in_rev_map: "map_of (rev ms) k = Some v \<Longrightarrow> (k, v) \<in> set ms"
  by (metis map_of_SomeD set_rev)

lemma norm_same: "exact_numbers x \<Longrightarrow> exact_numbers y \<Longrightarrow> norm x = norm y \<longleftrightarrow> same_json x y"
proof (induction x arbitrary: y)
  case (JNum x)
  then obtain n where n: "n < 2 ^ 53" "x = nat_digits n" by auto
  show ?case
  proof (cases y)
    case (JNum z)
    with JNum.prems obtain m where m: "m < 2 ^ 53" "z = nat_digits m" by auto
    obtain a b where "ParseFloat x = Some a" "ParseFloat z = Some b" using ParseFloat_small n m by blast
    with n m JNum show ?thesis using ParseFloat_inj[OF n(1) m(1)] by (auto simp: norm_simps same_json_simps)
  qed (use JNum.prems in \<open>auto simp: norm_simps(1-3,5-) same_json_simps elim: norm_num simp del: exact_numbers.simps(1)\<close>)
next
  case (JArr xs)
  show ?case
  proof (cases y)
    case (JArr ys)
    have "map norm xs = map norm ys \<longleftrightarrow> list_all2 (\<lambda>a b. norm a = norm b) xs ys"
      by (simp add: list.rel_map flip: list.rel_eq)
    also have "\<dots> \<longleftrightarrow> list_all2 same_json xs ys"
      using JArr.IH JArr.prems JArr by (intro list.rel_cong) auto
    finally show ?thesis using JArr.prems JArr by (simp add: norm_simps same_json_simps)
  qed (use JArr.prems in \<open>auto simp: norm_simps(1-3,5-) same_json_simps elim: norm_num simp del: exact_numbers.simps(1)\<close>)
next
  case (JObj ms)
  show ?case
  proof (cases y)
    case y: (JObj ms')
    have "norm v = norm v' \<longleftrightarrow> same_json v v'"
      if "map_of (rev ms) k = Some v" "map_of (rev ms') k = Some v'" for k v v'
    proof -
      have "(k, v) \<in> set ms" "(k, v') \<in> set ms'" using that by (auto intro: in_rev_map)
      moreover from this have "exact_numbers v" "exact_numbers v'" using JObj.prems y by force+
      ultimately show ?thesis using JObj.IH[of "(k, v)" v v'] by (simp add: snds.simps)
    qed
    then have "map_option norm (map_of (rev ms) k) = map_option norm (map_of (rev ms') k) \<longleftrightarrow>
        rel_option same_json (map_of (rev ms) k) (map_of (rev ms') k)" for k
      by (cases "map_of (rev ms) k"; cases "map_of (rev ms') k") auto
    then show ?thesis
      using JObj.prems y by (simp add: norm_simps same_json_simps as_map_eq map_of_rev_map fun_eq_iff)
  qed (use JObj.prems in \<open>auto simp: norm_simps(1-3,5-) same_json_simps elim: norm_num simp del: exact_numbers.simps(1)\<close>)
qed (case_tac y; auto simp: norm_simps(1-3,5-) same_json_simps elim: norm_num simp del: exact_numbers.simps(1))+

lemma any_of_eq: "exact_numbers x \<Longrightarrow> exact_numbers y \<Longrightarrow> any_of x = any_of y \<longleftrightarrow> same_json x y"
  using norm_same[of x y] any_of_total[of x] any_of_total[of y] by (auto simp: norm_def)

lemma jsonEqual_iff:
  assumes "pred_option exact_numbers a" and "pred_option exact_numbers b"
  shows "jsonEqual a b \<longleftrightarrow> rel_option same_json a b"
proof (cases "a = None \<or> b = None")
  case True
  then show ?thesis by (cases a; cases b) (auto simp: jsonEqual_def)
next
  case False
  then obtain x y where ab: "a = Some x" "b = Some y" by auto
  with assms obtain u v where "any_of x = Some u" "any_of y = Some v" using any_of_total by fastforce
  with ab assms any_of_eq[of x y] show ?thesis by (simp add: jsonEqual_def)
qed

text \<open>\<open>jsonEqual\<close> decides semantic equality of JSON values: for values whose numbers are integers a
  float64 holds exactly, it holds if and only if both are absent, or both are present and equal up to the
  order of object members, with the last of equal keys counting.\<close>

theorem jsonEqual_is_semantic:
  assumes "pred_option exact_numbers a" and "pred_option exact_numbers b"
  shows "jsonEqual a b \<longleftrightarrow> rel_option same_json a b"
  using assms by (rule jsonEqual_iff)

theorem jsonEqual_is_semantic_witness:
  "jsonEqual (Some (JObj [(''a'', JNum (nat_digits 1)), (''b'', JNull)])) (Some (JObj [(''b'', JNull), (''a'', JNum (nat_digits 1))]))"
proof -
  let ?a = "JObj [(''a'', JNum (nat_digits 1)), (''b'', JNull)]" and ?b = "JObj [(''b'', JNull), (''a'', JNum (nat_digits 1))]"
  have "exact_numbers (JNum (nat_digits 1))" unfolding exact_numbers.simps by (rule exI[of _ 1]) simp
  then have "pred_option exact_numbers (Some ?a)" "pred_option exact_numbers (Some ?b)" by simp_all
  moreover have "same_json ?a ?b" by (simp add: same_json_simps)
  ultimately show ?thesis using jsonEqual_is_semantic[of "Some ?a" "Some ?b"] by simp
qed

section \<open>What an object says\<close>

text \<open>The specification of an object and the node name in it, as the API server's canonical encoding has
  them: keys once, spelled exactly.\<close>

definition spec_of :: "json \<Rightarrow> json option" where
  "spec_of j = (case j of JObj ms \<Rightarrow> map_of (rev ms) ''spec'' | _ \<Rightarrow> None)"

definition node_name_of :: "json \<Rightarrow> string" where
  "node_name_of j = (case spec_of j of
     Some (JObj ms) \<Rightarrow> (case map_of (rev ms) ''nodeName'' of Some (JStr s) \<Rightarrow> s | _ \<Rightarrow> [])
   | _ \<Rightarrow> [])"

definition exact_key :: "string \<Rightarrow> json \<Rightarrow> bool" where
  "exact_key n j = (case j of
     JObj ms \<Rightarrow> distinct (map fst ms) \<and> (\<forall>kv \<in> set ms. fold_name (fst kv) = fold_name n \<longrightarrow> fst kv = n)
   | _ \<Rightarrow> True)"

definition canonical :: "json \<Rightarrow> bool" where
  "canonical j \<longleftrightarrow> exact_key ''spec'' j \<and> pred_option (exact_key ''nodeName'') (spec_of j)"

definition is_object :: "json \<Rightarrow> bool" where
  "is_object j = (case j of JNull \<Rightarrow> True | JObj _ \<Rightarrow> True | _ \<Rightarrow> False)"

lemma dec_members_exact:
  assumes "distinct (map fst ms)" and "\<forall>kv \<in> set ms. fold_name (fst kv) = fold_name n \<longrightarrow> fst kv = n"
  shows "dec_members [n] (\<lambda>_. f) ms cur = (case map_of ms n of None \<Rightarrow> Some cur | Some j \<Rightarrow> f j cur)"
  using assms
proof (induction ms arbitrary: cur)
  case (Cons kv ms)
  obtain k v where kv: "kv = (k, v)" by fastforce
  show ?case
  proof (cases "k = n")
    case True
    with Cons.prems kv have "map_of ms n = None" by (simp add: map_of_eq_None_iff)
    with True kv Cons show ?thesis by (auto simp: find_field_def split: option.splits)
  next
    case False
    with kv Cons.prems have "find_field [n] k = None" by (auto simp: find_field_def)
    with False kv Cons show ?thesis by simp
  qed
qed simp

lemma dec_struct_exact:
  assumes "exact_key n j"
  shows "dec_struct [n] (\<lambda>_. f) j cur = (case j of
     JNull \<Rightarrow> Some cur
   | JObj ms \<Rightarrow> (case map_of (rev ms) n of None \<Rightarrow> Some cur | Some v \<Rightarrow> f v cur)
   | _ \<Rightarrow> None)"
proof (cases j)
  case (JObj ms)
  with assms have d: "distinct (map fst ms)" by (simp add: exact_key_def)
  have "map_of (rev ms) = map_of ms" using d by (rule map_of_rev_distinct)
  with assms JObj dec_members_exact[of ms n f cur] show ?thesis by (simp add: exact_key_def dec_struct_def)
qed (simp_all add: dec_struct_def)

lemma dec_jail_object_canonical:
  assumes "canonical j" and "dec_jail_object j [] = Some s"
  shows "s = node_name_of j"
proof -
  have "dec_node_name x [] = Some s" if "spec_of j = Some x" for x
    using assms that by (auto simp: dec_jail_object_def canonical_def dec_struct_exact spec_of_def split: json.splits)
  moreover have "s = []" if "spec_of j = None"
    using assms that by (auto simp: dec_jail_object_def canonical_def dec_struct_exact spec_of_def split: json.splits option.splits)
  moreover have "exact_key ''nodeName'' x" if "spec_of j = Some x" for x
    using assms(1) that by (simp add: canonical_def)
  ultimately show ?thesis
    by (cases "spec_of j")
      (auto simp: node_name_of_def dec_node_name_def dec_struct_exact dec_string_def split: json.splits option.splits)
qed

lemma same_node_name: "rel_option same_json (spec_of a) (spec_of b) \<Longrightarrow> node_name_of a = node_name_of b"
proof (cases "spec_of a"; cases "spec_of b")
  fix x y assume ab: "rel_option same_json (spec_of a) (spec_of b)" "spec_of a = Some x" "spec_of b = Some y"
  then have "same_json x y" by simp
  then show ?thesis
  proof cases
    case (6 ms ms')
    from 6(3)[of "''nodeName''"] have "rel_option same_json (map_of (rev ms) ''nodeName'') (map_of (rev ms') ''nodeName'')" .
    then show ?thesis using ab 6 by cases (auto simp: node_name_of_def same_json.simps split: json.splits)
  qed (use ab in \<open>auto simp: node_name_of_def\<close>)
qed (auto simp: node_name_of_def)

section \<open>The decision\<close>

lemma nodeHostname_prefix [simp]: "nodeHostname (nodeServiceAccountPrefix @ host) = host"
  by (simp add: nodeHostname_def HasPrefix_iff TrimPrefix_def)

lemma extractSpecs_parsed:
  assumes "json_parse (rq_object req) = Some new" and "json_parse (rq_oldObject req) = Some old"
  shows "extractSpecs req = (if is_object new \<and> is_object old then Inr (spec_of old, spec_of new) else extractSpecs req)"
    and "\<not> (is_object new \<and> is_object old) \<Longrightarrow> \<exists>e. extractSpecs req = Inl e"
  using assms by (auto simp: extractSpecs_def json_Unmarshal_def dec_raw_map_def spec_of_def is_object_def split: json.splits)

lemma exact_spec: "exact_numbers j \<Longrightarrow> pred_option exact_numbers (spec_of j)"
proof (cases j)
  case (JObj ms)
  assume "exact_numbers j"
  then have "exact_numbers x" if "map_of (rev ms) ''spec'' = Some x" for x using in_rev_map[OF that] JObj by force
  then show ?thesis using JObj by (cases "map_of (rev ms) ''spec''") (simp_all add: spec_of_def)
qed (simp_all add: spec_of_def)

lemma specs_equal:
  assumes "exact_numbers a" and "exact_numbers b"
  shows "jsonEqual (spec_of a) (spec_of b) \<longleftrightarrow> rel_option same_json (spec_of a) (spec_of b)"
  using jsonEqual_iff[OF exact_spec[OF assms(1)] exact_spec[OF assms(2)]] .

text \<open>C9: A node service account may update a ManagedNode exactly when it is its own and the specification
  stays semantically the same; every other update by it is denied or refused as malformed.\<close>

theorem managednode_update_decision:
  assumes "rq_operation req = OpUpdate" and "rq_username req = nodeServiceAccountPrefix @ host" and "host \<noteq> []"
    and "rq_resource req = ''managednodes''"
    and new: "json_parse (rq_object req) = Some new" "exact_numbers new"
    and old: "json_parse (rq_oldObject req) = Some old" "exact_numbers old"
  shows "Handle req = Allowed \<longleftrightarrow>
    is_object new \<and> is_object old \<and> rel_option same_json (spec_of old) (spec_of new) \<and> rq_name req = host"
proof -
  note eq = specs_equal[OF old(2) new(2)]
  show ?thesis
    using assms(1-4) extractSpecs_parsed[OF new(1) old(1)] eq
    by (cases "is_object new \<and> is_object old")
      (auto simp: Handle_def check_jail_owner_def check_node_owner_def Let_def split: if_splits)
qed

text \<open>C32: A node service account that updates a jail leaves the specification semantically as it was, and
  the jail was assigned to its node, or to none, before the update: it can neither take over nor change
  the jail of another node.\<close>

theorem jail_update_needs_ownership:
  assumes "Handle req = Allowed" and "rq_operation req = OpUpdate"
    and "rq_username req = nodeServiceAccountPrefix @ host" and "host \<noteq> []" and "rq_resource req = ''jails''"
    and new: "json_parse (rq_object req) = Some new" "exact_numbers new" "canonical new"
    and old: "json_parse (rq_oldObject req) = Some old" "exact_numbers old"
  shows "rel_option same_json (spec_of old) (spec_of new) \<and> node_name_of old \<in> {[], host}"
proof -
  have obj: "is_object new \<and> is_object old" and same: "rel_option same_json (spec_of old) (spec_of new)"
    and owner: "check_jail_owner req host = None"
    using assms(1-5) extractSpecs_parsed[OF new(1) old(1)] specs_equal[OF old(2) new(2)]
    by (cases "is_object new \<and> is_object old";
        force simp: Handle_def check_jail_owner_def Let_def split: if_splits sum.splits option.splits)+
  from owner obtain s where "extractJailNodeName req = Inr s" "s = [] \<or> s = host"
    using assms(5) by (auto simp: check_jail_owner_def split: sum.splits if_splits)
  then have "dec_jail_object new [] = Some s"
    using new(1) by (auto simp: extractJailNodeName_def json_Unmarshal_def split: option.splits sum.splits)
  with dec_jail_object_canonical[OF new(3)] same_node_name[OF same] \<open>s = [] \<or> s = host\<close> same show ?thesis by auto
qed

section \<open>Concrete requests\<close>

definition demo_object :: "json \<Rightarrow> string" where
  "demo_object spec = json_print (JObj [(''metadata'', JObj []), (''spec'', spec)])"

definition demo_request :: "string \<Rightarrow> string \<Rightarrow> json \<Rightarrow> json \<Rightarrow> admission_request" where
  "demo_request resource name old new = \<lparr>rq_operation = OpUpdate, rq_username = nodeServiceAccountPrefix @ ''h1'',
     rq_resource = resource, rq_name = name, rq_object = demo_object new, rq_oldObject = demo_object old\<rparr>"

lemma demo_object_parse:
  "plain_json (max_nesting - 1) spec \<Longrightarrow> json_parse (demo_object spec) = Some (JObj [(''metadata'', JObj []), (''spec'', spec)])"
  unfolding demo_object_def by (rule json_roundtrip) (simp add: max_nesting_def plain_str_def byte_in_def)

definition demo_node_spec :: json where
  "demo_node_spec = JObj [(''domain'', JStr ''example.com'')]"

definition demo_jail_spec_json :: json where
  "demo_jail_spec_json = JObj [(''nodeName'', JStr ''h1''), (''release'', JStr ''14.2'')]"

lemma demo_specs_plain: "plain_json (max_nesting - 1) demo_node_spec" "plain_json (max_nesting - 1) demo_jail_spec_json"
  by (simp_all add: demo_node_spec_def demo_jail_spec_json_def max_nesting_def plain_str_def byte_in_def)

theorem managednode_update_decision_witness:
  "Handle (demo_request ''managednodes'' ''h1'' demo_node_spec demo_node_spec) = Allowed \<and>
   Handle (demo_request ''managednodes'' ''h2'' demo_node_spec demo_node_spec) \<noteq> Allowed"
proof -
  let ?o = "JObj [(''metadata'', JObj []), (''spec'', demo_node_spec)]"
  have "Handle (demo_request ''managednodes'' n demo_node_spec demo_node_spec) = Allowed \<longleftrightarrow> n = ''h1''" for n
    using managednode_update_decision[of "demo_request ''managednodes'' n demo_node_spec demo_node_spec" "''h1''" ?o ?o]
      demo_object_parse[OF demo_specs_plain(1)]
    by (simp add: demo_request_def is_object_def spec_of_def demo_node_spec_def same_json_simps)
  then show ?thesis by simp
qed

lemma Handle_demo:
  assumes "plain_json (max_nesting - 1) old" "plain_json (max_nesting - 1) new" "any_of old = Some v" "any_of new = Some v"
    "resource = ''configsets'' \<or> resource = ''jails'' \<and> dec_node_name new [] = Some ''h1''"
  shows "Handle (demo_request resource name old new) = Allowed"
proof -
  have "extractSpecs (demo_request resource name old new) = Inr (Some old, Some new)"
    using demo_object_parse[OF assms(1)] demo_object_parse[OF assms(2)]
    by (simp add: extractSpecs_def demo_request_def json_Unmarshal_def dec_raw_map_def)
  moreover have "extractJailNodeName (demo_request resource name old new) = Inr ''h1''" if "dec_node_name new [] = Some ''h1''"
    using demo_object_parse[OF assms(2)] that
    by (simp add: extractJailNodeName_def demo_request_def json_Unmarshal_def dec_jail_object_def dec_struct_def
        find_field_def byte_in_def HasPrefix_def)
  ultimately show ?thesis using assms(3-5)
    by (auto simp: Handle_def demo_request_def jsonEqual_def check_jail_owner_def check_node_owner_def)
qed

theorem jail_update_needs_ownership_witness:
  "Handle (demo_request ''jails'' ''web'' demo_jail_spec_json demo_jail_spec_json) = Allowed \<and>
   node_name_of (JObj [(''metadata'', JObj []), (''spec'', demo_jail_spec_json)]) \<in> {[], ''h1''}"
proof -
  let ?o = "JObj [(''metadata'', JObj []), (''spec'', demo_jail_spec_json)]"
  let ?r = "demo_request ''jails'' ''web'' demo_jail_spec_json demo_jail_spec_json"
  have "dec_node_name demo_jail_spec_json [] = Some ''h1''"
    by (simp add: dec_node_name_def demo_jail_spec_json_def dec_struct_def find_field_def dec_string_def byte_in_def HasPrefix_def)
  moreover have "exact_numbers demo_jail_spec_json" by (simp add: demo_jail_spec_json_def)
  then obtain v where "any_of demo_jail_spec_json = Some v" using any_of_total by blast
  ultimately have ok: "Handle ?r = Allowed" using demo_specs_plain(2) by (intro Handle_demo) simp_all
  have "canonical ?o" by (simp add: canonical_def exact_key_def spec_of_def demo_jail_spec_json_def byte_in_def HasPrefix_def)
  with ok jail_update_needs_ownership[of ?r "''h1''" ?o ?o] demo_object_parse[OF demo_specs_plain(2)]
  show ?thesis by (simp add: demo_request_def demo_jail_spec_json_def)
qed

lemma bits_unique: "2 ^ k \<le> n \<Longrightarrow> n < 2 ^ Suc k \<Longrightarrow> bits n = Suc k"
proof (induction k arbitrary: n)
  case 0
  then have "n = 1" by simp
  then show ?case by (simp add: bits_one)
next
  case (Suc k)
  then have "2 ^ k \<le> n div 2" "n div 2 < 2 ^ Suc k" "n \<noteq> 0" by auto
  with Suc.IH[of "n div 2"] show ?case by (subst bits.simps) simp
qed

lemma nearest_two53:
  assumes "n = 2 ^ 53 \<or> n = 2 ^ 53 + 1"
  shows "nearest n 1 = Some (2 ^ 52, 1)"
proof -
  have "bits n = Suc 53" by (rule bits_unique) (use assms in auto)
  then have "log2_frac n (Suc 0) = 53" using assms by (auto simp: log2_frac_def bits_one)
  moreover have "round_even n 2 = 2 ^ 52" using assms by (auto simp: round_even_def)
  ultimately show ?thesis using assms by (auto simp: nearest_def)
qed

definition counter_spec :: "nat \<Rightarrow> json" where
  "counter_spec n = JObj [(''n'', JNum (nat_digits n))]"

text \<open>Beyond two to the 53 the comparison is not exact: a node service account may change an integer of
  a specification when both values round to the same float64, as 9007199254740992 and 9007199254740993 do.\<close>

theorem large_integers_conflated:
  "Handle (demo_request ''configsets'' ''c'' (counter_spec 9007199254740992) (counter_spec 9007199254740993)) = Allowed \<and>
   \<not> same_json (counter_spec 9007199254740992) (counter_spec 9007199254740993)"
proof -
  have any: "any_of (counter_spec n) = Some (AObj [(''n'', ANum (Float64 False (2 ^ 52) 1))])"
    if "n = 2 ^ 53 \<or> n = 2 ^ 53 + 1" for n
    using nearest_two53[OF that] by (simp add: counter_spec_def as_map_def ParseFloat_def decimal_digits)
  have plain: "plain_json (max_nesting - 1) (counter_spec n)" for n
    by (auto simp: counter_spec_def max_nesting_def plain_str_def byte_in_def)
  have "Handle (demo_request ''configsets'' ''c'' (counter_spec 9007199254740992) (counter_spec 9007199254740993)) = Allowed"
    by (rule Handle_demo[OF plain plain any any]) simp_all
  moreover have "nat_digits 9007199254740992 \<noteq> nat_digits 9007199254740993" by (metis dec_val_digits n_not_Suc_n numeral_eq_Suc pred_numeral_simps(3) semiring_norm(27))
  ultimately show ?thesis by (auto simp: counter_spec_def same_json_simps dest: spec[of _ "''n''"])
qed

end
