(* ===== verification/JailConfig.thy ===== *)
theory JailConfig
  imports Common GoSlices GoJson
begin

text \<open>
  The parts of \<^verbatim>\<open>pkg/jail\<close> that compute and write a jail's configuration: the merge with a template
  (\<^verbatim>\<open>merge.go\<close>), the fstab (\<^verbatim>\<open>fstab.go\<close>), the \<^verbatim>\<open>jail.conf\<close> fragment (\<^verbatim>\<open>conf.go\<close>), the
  rc.d service (\<^verbatim>\<open>rc.go\<close>) and the list of running jails that \<^verbatim>\<open>jls\<close> prints (\<^verbatim>\<open>jls.go\<close>,
  \<^verbatim>\<open>jail.go\<close>). The Go templates are written out as the strings they render to, with their
  white-space trimming carried out.
\<close>

section \<open>merge.go\<close>

definition or_else :: "string \<Rightarrow> string \<Rightarrow> string" where
  "or_else s t = (if s = [] then t else s)"

definition mergeUpdate :: "jail_update \<Rightarrow> jail_update \<Rightarrow> jail_update" where
  "mergeUpdate spec tmpl =
     \<lparr>ju_schedule = or_else (ju_schedule spec) (ju_schedule tmpl),
      ju_delay = or_else (ju_delay spec) (ju_delay tmpl),
      ju_group = or_else (ju_group spec) (ju_group tmpl)\<rparr>"

definition mergeParameters :: "string smap \<Rightarrow> string smap \<Rightarrow> string smap" where
  "mergeParameters spec tmpl = (if tmpl = [] then spec else set_all spec (set_all tmpl []))"

definition mergePF :: "jail_pf option \<Rightarrow> jail_pf option \<Rightarrow> jail_pf option" where
  "mergePF spec tmpl = (case tmpl of
     None \<Rightarrow> spec
   | Some t \<Rightarrow> (case spec of
       None \<Rightarrow> Some t
     | Some s \<Rightarrow> Some \<lparr>pf_anchorName = or_else (pf_anchorName s) (pf_anchorName t),
                       pf_rules = pf_rules t @ pf_rules s\<rparr>))"

definition MergeTemplateDefaults :: "jail_spec \<Rightarrow> jail_template_spec \<Rightarrow> jail_spec" where
  "MergeTemplateDefaults spec tmpl =
     spec\<lparr>js_interface := or_else (js_interface spec) (jt_interface tmpl),
          js_mounts := (if js_mounts spec = [] then jt_mounts tmpl else js_mounts spec),
          js_update := mergeUpdate (js_update spec) (jt_update tmpl),
          js_pf := mergePF (js_pf spec) (jt_pf tmpl),
          js_parameters := mergeParameters (js_parameters spec) (jt_parameters tmpl)\<rparr>"

section \<open>Rendered lines\<close>

abbreviation dq :: string where
  "dq \<equiv> [CHR 0x22]"

definition line :: "string \<Rightarrow> string" where
  "line s = s @ [CHR 10]"

definition tabbed :: "string \<Rightarrow> string" where
  "tabbed s = line (CHR 9 # s)"

section \<open>fstab.go\<close>

record fstab_entry =
  fe_device :: string
  fe_mountpoint :: string
  fe_type :: string
  fe_options :: string

definition fstab_entry_of :: "string \<Rightarrow> jail_mount \<Rightarrow> fstab_entry" where
  "fstab_entry_of jailRoot m =
     \<lparr>fe_device = jm_hostPath m, fe_mountpoint = filepath_Join [jailRoot, jm_jailPath m],
      fe_type = (if jm_type m = [] then ''nullfs'' else jm_type m),
      fe_options = (if jm_readOnly m then ''ro'' else ''rw'')\<rparr>"

definition fstab_line :: "fstab_entry \<Rightarrow> string" where
  "fstab_line e =
     line (Join [fe_device e, fe_mountpoint e, fe_type e, fe_options e, ''0'', ''0''] [CHR 9])"

text \<open>The dash of the header is \<^verbatim>\<open>U+2014\<close>, three bytes.\<close>

definition fstab_header :: string where
  "fstab_header = line (''# Managed by nodemanager '' @ [CHR 0xE2, CHR 0x80, CHR 0x94] @ '' do not edit manually.'')"

definition fstabTmpl :: "fstab_entry list \<Rightarrow> string" where
  "fstabTmpl es = fstab_header @ concat (map fstab_line es)"

text \<open>
  Both writers read what is there, write the new text with mode 0o644, and report whether a readable file had other
  content.
\<close>

definition rewrite_file :: "'h host \<Rightarrow> string \<Rightarrow> string \<Rightarrow> string \<Rightarrow> ('h world, bool res) state" where
  "rewrite_file h p text wrap = do {
     existing \<leftarrow> os_ReadFile h p;
     check (os_WriteFile h p text 420) (Wrap wrap)
       (ret (Inr (case existing of Inl _ \<Rightarrow> False | Inr old \<Rightarrow> old \<noteq> text)))
   }"

definition writeFstab :: "'h host \<Rightarrow> string \<Rightarrow> string \<Rightarrow> jail_mount list \<Rightarrow> ('h world, bool res) state" where
  "writeFstab h fstabPath jailRoot mounts =
     check (os_MkdirAll h (Dir fstabPath) 493) (Wrap ''creating fstab directory'')
       (rewrite_file h fstabPath (fstabTmpl (map (fstab_entry_of jailRoot) mounts)) (''writing fstab '' @ fstabPath))"

text \<open>Removing a file that is not there is not an error.\<close>

definition remove_file :: "'h host \<Rightarrow> string \<Rightarrow> string \<Rightarrow> ('h world, err option) state" where
  "remove_file h p wrap = do {
     e \<leftarrow> os_Remove h p;
     ret (case e of Some x \<Rightarrow> if os_is_not_exist x then None else Some (Wrap wrap x) | None \<Rightarrow> None)
   }"

definition removeFstab :: "'h host \<Rightarrow> string \<Rightarrow> ('h world, err option) state" where
  "removeFstab h fstabPath = remove_file h fstabPath (''removing fstab '' @ fstabPath)"

section \<open>conf.go\<close>

definition DefaultJailConfDir :: string where
  "DefaultJailConfDir = ''/etc/jail.conf.d''"

record jail_conf_data =
  jc_name :: string
  jc_hostname :: string
  jc_path :: string
  jc_interface :: string
  jc_inet :: string
  jc_inet6 :: string
  jc_release :: string
  jc_fstabPath :: string
  jc_parameters :: "string smap"

definition when_set :: "string \<Rightarrow> string \<Rightarrow> string" where
  "when_set v text = (if v = [] then [] else line [] @ text)"

text \<open>A template visits the entries of a map in the order of the keys.\<close>

definition conf_parameter :: "string \<times> string \<Rightarrow> string" where
  "conf_parameter kv =
     line [] @ (if snd kv = [] then tabbed (fst kv @ '';'') else tabbed (fst kv @ '' = '' @ snd kv @ '';''))"

definition jailConfTmpl :: "jail_conf_data \<Rightarrow> string" where
  "jailConfTmpl d =
     line (jc_name d @ '' {'') @
     tabbed (''host.hostname = '' @ dq @ jc_hostname d @ dq @ '';'') @
     tabbed (''path          = '' @ dq @ jc_path d @ dq @ '';'') @
     line [] @
     tabbed (''exec.start = '' @ dq @ ''/bin/sh /etc/rc'' @ dq @ '';'') @
     tabbed (''exec.stop  = '' @ dq @ ''/bin/sh /etc/rc.shutdown jail'' @ dq @ '';'') @
     tabbed ''exec.clean;'' @
     tabbed (''exec.consolelog = '' @ dq @ ''/var/log/jail_'' @ jc_name d @ ''_console.log'' @ dq @ '';'') @
     line [] @
     tabbed ''mount.devfs;'' @
     tabbed ''devfs_ruleset = 4;'' @
     tabbed ''enforce_statfs = 2;'' @
     tabbed ''securelevel = 2;'' @
     line [] @
     tabbed ''allow.raw_sockets;'' @
     when_set (jc_interface d) (tabbed (''interface = '' @ dq @ jc_interface d @ dq @ '';'')) @
     when_set (jc_inet d) (tabbed (''ip4.addr = '' @ jc_inet d @ '';'')) @
     when_set (jc_inet6 d) (tabbed (''ip6.addr = '' @ jc_inet6 d @ '';'') @ tabbed ''ip6 = new;'') @
     when_set (jc_release d) (tabbed (''osrelease = '' @ dq @ jc_release d @ dq @ '';'')) @
     when_set (jc_fstabPath d) (tabbed (''mount.fstab = '' @ dq @ jc_fstabPath d @ dq @ '';'')) @
     concat (map conf_parameter (sort_key fst (jc_parameters d))) @
     line ''}''"

definition jail_conf_data_of :: "string \<Rightarrow> string \<Rightarrow> string \<Rightarrow> jail_spec \<Rightarrow> jail_conf_data" where
  "jail_conf_data_of name jailRoot fstabPath spec =
     \<lparr>jc_name = name, jc_hostname = or_else (js_hostname spec) name, jc_path = jailRoot,
      jc_interface = js_interface spec, jc_inet = js_inet spec, jc_inet6 = js_inet6 spec,
      jc_release = js_release spec, jc_fstabPath = fstabPath, jc_parameters = js_parameters spec\<rparr>"

definition conf_path :: "string \<Rightarrow> string \<Rightarrow> string" where
  "conf_path confDir name = filepath_Join [confDir, name @ ''.conf'']"

definition writeJailConf :: "'h host \<Rightarrow> string \<Rightarrow> string \<Rightarrow> string \<Rightarrow> string \<Rightarrow> jail_spec \<Rightarrow>
    ('h world, bool res) state" where
  "writeJailConf h confDir name jailRoot fstabPath spec =
     check (os_MkdirAll h confDir 493) (Wrap (''creating '' @ confDir))
       (rewrite_file h (conf_path confDir name) (jailConfTmpl (jail_conf_data_of name jailRoot fstabPath spec))
          (''writing '' @ conf_path confDir name))"

definition removeJailConf :: "'h host \<Rightarrow> string \<Rightarrow> string \<Rightarrow> ('h world, err option) state" where
  "removeJailConf h confDir name =
     remove_file h (conf_path confDir name) (''removing jail.conf for '' @ name)"

section \<open>rc.go\<close>

definition rcServiceDir :: string where
  "rcServiceDir = ''/usr/local/etc/rc.d''"

definition rcServiceTmpl :: "string \<Rightarrow> string \<Rightarrow> string" where
  "rcServiceTmpl name confPath =
     line ''#!/bin/sh'' @ line ''#'' @ line (''# PROVIDE: jail_'' @ name) @ line ''# REQUIRE: NETWORKING'' @
     line ''# BEFORE: DAEMON'' @ line ''# KEYWORD: shutdown nojail'' @ line [] @
     line ''. /etc/rc.subr'' @ line [] @
     line (''name='' @ dq @ ''jail_'' @ name @ dq) @
     line (''rcvar='' @ dq @ ''${name}_enable'' @ dq) @
     line (''start_cmd='' @ dq @ ''${name}_start'' @ dq) @
     line (''stop_cmd='' @ dq @ ''${name}_stop'' @ dq) @ line [] @
     line (''jail_'' @ name @ ''_start()'') @ line ''{'' @
     tabbed (''/usr/sbin/jail -c -f '' @ dq @ confPath @ dq @ '' '' @ dq @ name @ dq) @ line ''}'' @ line [] @
     line (''jail_'' @ name @ ''_stop()'') @ line ''{'' @
     tabbed (''/usr/sbin/jail -r '' @ dq @ name @ dq) @ line ''}'' @ line [] @
     line ''load_rc_config $name'' @
     line ('': ${jail_'' @ name @ ''_enable:='' @ dq @ ''NO'' @ dq @ ''}'') @ line [] @
     line (''run_rc_command '' @ dq @ ''$1'' @ dq)"

definition rc_script :: "string \<Rightarrow> string" where
  "rc_script name = filepath_Join [rcServiceDir, ''jail_'' @ name]"

definition rcvar :: "string \<Rightarrow> string" where
  "rcvar name = ''jail_'' @ name @ ''_enable''"

definition ensureJailRCService :: "'h host \<Rightarrow> string \<Rightarrow> string \<Rightarrow> ('h world, err option) state" where
  "ensureJailRCService h name confDir = (let text = rcServiceTmpl name (conf_path confDir name) in
     check_fail (os_MkdirAll h rcServiceDir 493) (Wrap (''creating '' @ rcServiceDir)) (do {
       existing \<leftarrow> os_ReadFile h (rc_script name);
       check_fail (if existing \<noteq> Inr text then os_WriteFile h (rc_script name) text 493 else ret None)
         (Wrap (''writing rc.d script for jail '' @ name)) (do {
           (out, _, _) \<leftarrow> RunCommand h ''sysrc'' [''-n'', rcvar name];
           check_fail (if TrimSpace out \<noteq> ''YES'' then SimpleRunCommand h ''sysrc'' [rcvar name @ ''=YES''] else ret None)
             (Wrap (''enabling '' @ rcvar name @ '' via sysrc'')) (ret None)
         })
     }))"

definition removeJailRCService :: "'h host \<Rightarrow> string \<Rightarrow> ('h world, err option) state" where
  "removeJailRCService h name = do {
     (out, _, _) \<leftarrow> RunCommand h ''sysrc'' [''-n'', rcvar name];
     _ \<leftarrow> (if TrimSpace out = ''YES'' then SimpleRunCommand h ''sysrc'' [rcvar name @ ''=NO''] else ret None);
     remove_file h (rc_script name) (''removing rc.d script for jail '' @ name)
   }"

section \<open>jls.go\<close>

record jls_jail =
  jl_jid :: int
  jl_hostname :: string
  jl_path :: string
  jl_name :: string
  jl_state :: string
  jl_cpusetid :: int
  jl_ipv4_addrs :: "string list"
  jl_ipv6_addrs :: "string list"

definition zero_jls_jail :: jls_jail where
  "zero_jls_jail = \<lparr>jl_jid = 0, jl_hostname = [], jl_path = [], jl_name = [], jl_state = [],
     jl_cpusetid = 0, jl_ipv4_addrs = [], jl_ipv6_addrs = []\<rparr>"

definition jls_fields :: "string list" where
  "jls_fields = [''jid'', ''hostname'', ''path'', ''name'', ''state'', ''cpusetid'', ''ipv4_addrs'', ''ipv6_addrs'']"

definition set_jls_field :: "string \<Rightarrow> json \<Rightarrow> jls_jail \<Rightarrow> jls_jail option" where
  "set_jls_field k j r =
     (if k = ''jid'' then map_option (\<lambda>x. r\<lparr>jl_jid := x\<rparr>) (dec_int j (jl_jid r))
      else if k = ''hostname'' then map_option (\<lambda>x. r\<lparr>jl_hostname := x\<rparr>) (dec_string j (jl_hostname r))
      else if k = ''path'' then map_option (\<lambda>x. r\<lparr>jl_path := x\<rparr>) (dec_string j (jl_path r))
      else if k = ''name'' then map_option (\<lambda>x. r\<lparr>jl_name := x\<rparr>) (dec_string j (jl_name r))
      else if k = ''state'' then map_option (\<lambda>x. r\<lparr>jl_state := x\<rparr>) (dec_string j (jl_state r))
      else if k = ''cpusetid'' then map_option (\<lambda>x. r\<lparr>jl_cpusetid := x\<rparr>) (dec_int j (jl_cpusetid r))
      else if k = ''ipv4_addrs'' then map_option (\<lambda>x. r\<lparr>jl_ipv4_addrs := x\<rparr>) (dec_slice dec_string [] j (jl_ipv4_addrs r))
      else map_option (\<lambda>x. r\<lparr>jl_ipv6_addrs := x\<rparr>) (dec_slice dec_string [] j (jl_ipv6_addrs r)))"

definition dec_jls_jail :: "json \<Rightarrow> jls_jail \<Rightarrow> jls_jail option" where
  "dec_jls_jail = dec_struct jls_fields set_jls_field"

record jls_output =
  jo_version :: string
  jo_jails :: "jls_jail list"

definition dec_jail_information :: "json \<Rightarrow> jls_jail list \<Rightarrow> jls_jail list option" where
  "dec_jail_information = dec_struct [''jail''] (\<lambda>k. dec_slice dec_jls_jail zero_jls_jail)"

definition dec_jls_output :: "json \<Rightarrow> jls_output \<Rightarrow> jls_output option" where
  "dec_jls_output = dec_struct [''__version'', ''jail-information''] (\<lambda>k j r.
     if k = ''__version'' then map_option (\<lambda>x. r\<lparr>jo_version := x\<rparr>) (dec_string j (jo_version r))
     else map_option (\<lambda>x. r\<lparr>jo_jails := x\<rparr>) (dec_jail_information j (jo_jails r)))"

definition jlsCmd :: string where
  "jlsCmd = ''/usr/sbin/jls''"

definition listRunningJails :: "'h host \<Rightarrow> ('h world, jls_jail list res) state" where
  "listRunningJails h = do {
     (out, _, e) \<leftarrow> RunCommand h jlsCmd [''-v'', ''--libxo=json''];
     ret (case e of
            Some x \<Rightarrow> Inl (Wrap ''running jls'' x)
          | None \<Rightarrow> if out = [] then Inr []
                    else (case json_Unmarshal dec_jls_output \<lparr>jo_version = [], jo_jails = []\<rparr> out of
                            Inl x \<Rightarrow> Inl (Wrap ''parsing jls output'' x)
                          | Inr r \<Rightarrow> Inr (jo_jails r)))
   }"

definition isJailRunning :: "'h host \<Rightarrow> string \<Rightarrow> ('h world, bool res) state" where
  "isJailRunning h name =
     or_return (listRunningJails h) id (\<lambda>jails. ret (Inr (list_ex (\<lambda>j. jl_name j = name) jails)))"

section \<open>What the writers leave on the trace\<close>

lemma emits_rewrite_file [emits_rules]: "emits P (rewrite_file h p text wrap)" "emits P (remove_file h p wrap)"
  unfolding rewrite_file_def remove_file_def by (intro emits_rules)+

lemma emits_config_files [emits_rules]:
  "emits P (writeFstab h p root ms)" "emits P (removeFstab h p)"
  "emits P (writeJailConf h dir name root fstab spec)" "emits P (removeJailConf h dir name)"
  unfolding writeFstab_def removeFstab_def writeJailConf_def removeJailConf_def by (intro emits_rules)+

lemma emits_jls [emits_rules]:
  "(\<And>n. P (EvExec jlsCmd [''-v'', ''--libxo=json''] [] n)) \<Longrightarrow> emits P (listRunningJails h)"
  "(\<And>n. P (EvExec jlsCmd [''-v'', ''--libxo=json''] [] n)) \<Longrightarrow> emits P (isJailRunning h name)"
  unfolding isJailRunning_def listRunningJails_def by (intro emits_rules; simp)+

lemma emits_rc_service [emits_rules]:
  assumes "\<And>a n. P (EvExec ''sysrc'' a [] n)"
  shows "emits P (ensureJailRCService h name dir)" "emits P (removeJailRCService h name)"
  unfolding ensureJailRCService_def removeJailRCService_def using assms by (intro emits_rules; simp)+

end
