(* ===== verification/Zfs.thy ===== *)
theory Zfs
  imports OsFile
begin

text \<open>
  \<^verbatim>\<open>pkg/zfs/zfs.go\<close>: idempotent operations on ZFS datasets, each a call of \<^verbatim>\<open>/sbin/zfs\<close> through the
  command runner. The manager has no state beside the runner.
\<close>

definition zfsCmd :: string where
  "zfsCmd = ''/sbin/zfs''"

definition zfs_GetProperty :: "'h host \<Rightarrow> string \<Rightarrow> string \<Rightarrow> ('h world, string res) state" where
  "zfs_GetProperty h dataset property = do {
     (out, _, e) \<leftarrow> RunCommand h zfsCmd [''get'', ''-H'', ''-o'', ''value'', property, dataset];
     ret (case e of
            Some x \<Rightarrow> Inl (Wrap (''zfs get '' @ property @ '' '' @ dataset) x)
          | None \<Rightarrow> Inr (TrimSpace out))
   }"

text \<open>Exit code 1 of \<^verbatim>\<open>zfs list\<close> means that the dataset does not exist; any other failure is an error.\<close>

definition zfs_Exists :: "'h host \<Rightarrow> string \<Rightarrow> ('h world, bool res) state" where
  "zfs_Exists h dataset = do {
     (_, code, e) \<leftarrow> RunCommand h zfsCmd [''list'', dataset];
     ret (if code = 1 then Inr False else (case e of Some x \<Rightarrow> Inl x | None \<Rightarrow> Inr True))
   }"

definition opt_args :: "string list \<Rightarrow> string list" where
  "opt_args opts = concat (map (\<lambda>o'. [''-o'', o']) opts)"

definition zfs_createDataset :: "'h host \<Rightarrow> string \<Rightarrow> string list \<Rightarrow> ('h world, err option) state" where
  "zfs_createDataset h dataset opts = SimpleRunCommand h zfsCmd (''create'' # opt_args opts @ [dataset])"

definition zfs_Ensure :: "'h host \<Rightarrow> string \<Rightarrow> string list \<Rightarrow> ('h world, err option) state" where
  "zfs_Ensure h dataset opts =
     or_fail (zfs_Exists h dataset) id (\<lambda>ex. if \<not> ex then zfs_createDataset h dataset opts else ret None)"

definition zfs_Snapshot :: "'h host \<Rightarrow> string \<Rightarrow> string \<Rightarrow> ('h world, err option) state" where
  "zfs_Snapshot h dataset name = SimpleRunCommand h zfsCmd [''snapshot'', dataset @ ''@'' @ name]"

definition zfs_Clone :: "'h host \<Rightarrow> string \<Rightarrow> string \<Rightarrow> string list \<Rightarrow> ('h world, err option) state" where
  "zfs_Clone h snapshot target opts =
     SimpleRunCommand h zfsCmd (''clone'' # opt_args opts @ [snapshot, target])"

definition zfs_DestroyDataset :: "'h host \<Rightarrow> string \<Rightarrow> ('h world, err option) state" where
  "zfs_DestroyDataset h dataset = SimpleRunCommand h zfsCmd [''destroy'', dataset]"

definition zfs_DestroyDatasetRecursive :: "'h host \<Rightarrow> string \<Rightarrow> ('h world, err option) state" where
  "zfs_DestroyDatasetRecursive h dataset = SimpleRunCommand h zfsCmd [''destroy'', ''-r'', ''-f'', dataset]"

section \<open>What the operations run\<close>

definition zfs_event :: "string list \<Rightarrow> event \<Rightarrow> bool" where
  "zfs_event args e \<longleftrightarrow> (\<exists>n. e = EvExec zfsCmd args [] n)"

lemma zfs_event_simps [simp]:
  "zfs_event args (EvExec zfsCmd args' i n) \<longleftrightarrow> args' = args \<and> i = []"
  by (auto simp: zfs_event_def)

lemma emits_zfs [emits_rules]:
  "(\<And>n. P (EvExec zfsCmd [''get'', ''-H'', ''-o'', ''value'', prop, ds] [] n)) \<Longrightarrow> emits P (zfs_GetProperty h ds prop)"
  "(\<And>n. P (EvExec zfsCmd [''list'', ds] [] n)) \<Longrightarrow> emits P (zfs_Exists h ds)"
  "(\<And>n. P (EvExec zfsCmd (''create'' # opt_args opts @ [ds]) [] n)) \<Longrightarrow> emits P (zfs_createDataset h ds opts)"
  "(\<And>n. P (EvExec zfsCmd [''snapshot'', ds @ ''@'' @ name] [] n)) \<Longrightarrow> emits P (zfs_Snapshot h ds name)"
  "(\<And>n. P (EvExec zfsCmd (''clone'' # opt_args opts @ [snap, ds]) [] n)) \<Longrightarrow> emits P (zfs_Clone h snap ds opts)"
  "(\<And>n. P (EvExec zfsCmd [''destroy'', ds] [] n)) \<Longrightarrow> emits P (zfs_DestroyDataset h ds)"
  "(\<And>n. P (EvExec zfsCmd [''destroy'', ''-r'', ''-f'', ds] [] n)) \<Longrightarrow> emits P (zfs_DestroyDatasetRecursive h ds)"
  unfolding zfs_GetProperty_def zfs_Exists_def zfs_createDataset_def zfs_Snapshot_def zfs_Clone_def
    zfs_DestroyDataset_def zfs_DestroyDatasetRecursive_def
  by (intro emits_rules | simp)+

lemma emits_zfs_Ensure [emits_rules]:
  "(\<And>n. P (EvExec zfsCmd [''list'', ds] [] n)) \<Longrightarrow>
   (\<And>n. P (EvExec zfsCmd (''create'' # opt_args opts @ [ds]) [] n)) \<Longrightarrow> emits P (zfs_Ensure h ds opts)"
  unfolding zfs_Ensure_def by (intro emits_rules)

end
