(* ===== verification/JailManager.thy ===== *)
theory JailManager
  imports JailConfig Zfs
begin

unbundle bit_operations_syntax

text \<open>
  The release manager (\<^verbatim>\<open>pkg/jail/release.go\<close>) and the jail manager (\<^verbatim>\<open>pkg/jail/manager.go\<close>): the
  lifecycle of a jail on its ZFS datasets, configuration files, mounts, addresses and PF anchor. The
  managers hold configuration only; everything they change is outside. HTTP and the random part of
  the name of a temporary file are parameters.
\<close>

section \<open>release.go\<close>

definition goarchToFreeBSD :: "(string \<times> string) smap" where
  "goarchToFreeBSD =
     [(''amd64'', (''amd64'', ''amd64'')), (''arm64'', (''arm64'', ''aarch64'')), (''arm'', (''arm'', ''armv7''))]"

definition freebsdArch :: "string \<Rightarrow> string \<times> string" where
  "freebsdArch goarch = (case map_of goarchToFreeBSD goarch of Some p \<Rightarrow> p | None \<Rightarrow> (goarch, goarch))"

record release_manager =
  rm_basePath :: string
  rm_dataset :: string
  rm_mirror :: string
  rm_arch :: string

definition newReleaseManager :: "string \<Rightarrow> string \<Rightarrow> string \<Rightarrow> string \<Rightarrow> release_manager" where
  "newReleaseManager goarch basePath dataset mirror =
     (let (machine, processor) = freebsdArch goarch in
      \<lparr>rm_basePath = basePath, rm_dataset = dataset, rm_mirror = mirror, rm_arch = machine @ ''/'' @ processor\<rparr>)"

text \<open>
  A GET request fails, or answers with a status code and a body that is read up to an error.
  \<open>n_tempName\<close> gives the name \<^verbatim>\<open>os.CreateTemp\<close> chooses for a new file.
\<close>

datatype http_result = HttpFail err | HttpResponse int string "err option"

record 'h net =
  n_http_get :: "string \<Rightarrow> ('h, http_result) state"
  n_tempName :: "('h, string) state"

definition os_CreateTemp :: "'h host \<Rightarrow> 'h net \<Rightarrow> ('h world, string res) state" where
  "os_CreateTemp h net = do {
     name \<leftarrow> ext (n_tempName net);
     f \<leftarrow> ext (h_fault h ''open'' name);
     t \<leftarrow> now h;
     fs \<leftarrow> get_fs;
     (case f of
        Some m \<Rightarrow> ret (Inl (OsFail (''open '' @ name @ '': '' @ m)))
      | None \<Rightarrow> do {
          put_fs (AList.update (Clean name) \<lparr>i_kind = FFile [], i_mode = 384 AND NOT (h_umask h), i_uid = h_uid h, i_gid = h_gid h,
            i_mtime = t\<rparr> fs);
          ret (Inr name)
        })
   }"

definition release_Path :: "release_manager \<Rightarrow> string \<Rightarrow> string" where
  "release_Path r version = filepath_Join [rm_basePath r, version]"

definition isExtracted :: "'h host \<Rightarrow> string \<Rightarrow> ('h world, bool) state" where
  "isExtracted h root = do {
     r \<leftarrow> os_Stat h (filepath_Join [root, ''bin'', ''freebsd-version'']);
     ret (case r of Inl _ \<Rightarrow> False | Inr _ \<Rightarrow> True)
   }"

definition download :: "'h host \<Rightarrow> 'h net \<Rightarrow> string \<Rightarrow> string \<Rightarrow> ('h world, err option) state" where
  "download h net url tmp = do {
     r \<leftarrow> ext (n_http_get net url);
     (case r of
        HttpFail e \<Rightarrow> ret (Some e)
      | HttpResponse code body e \<Rightarrow>
          if code \<noteq> 200 then ret (Some (Plain (''unexpected HTTP '' @ Itoa code @ '' fetching '' @ url)))
          else check_fail (file_Write h (Clean tmp) body) (Wrap ''writing download'')
            (ret (case e of Some x \<Rightarrow> Some (Wrap ''writing download'' x) | None \<Rightarrow> None)))
   }"

definition release_extract :: "'h host \<Rightarrow> string \<Rightarrow> string \<Rightarrow> ('h world, err option) state" where
  "release_extract h txzPath dest = SimpleRunCommand h ''tar'' [''-xf'', txzPath, ''--unlink'', ''-C'', dest]"

definition release_url :: "release_manager \<Rightarrow> string \<Rightarrow> string" where
  "release_url r version = rm_mirror r @ ''/'' @ rm_arch r @ ''/'' @ version @ ''/base.txz''"

text \<open>Downloading and extracting; the deferred removal of the temporary file follows in every case.\<close>

definition fetch_release :: "'h host \<Rightarrow> 'h net \<Rightarrow> release_manager \<Rightarrow> string \<Rightarrow> string \<Rightarrow> ('h world, err option) state" where
  "fetch_release h net r version tmp = do {
     e \<leftarrow> check_fail (download h net (release_url r version) tmp) (Wrap (''downloading '' @ release_url r version))
       (check_fail (os_MkdirAll h (release_Path r version) 493) (Wrap (''creating release root '' @ release_Path r version))
          (check_fail (release_extract h tmp (release_Path r version)) (Wrap (''extracting release '' @ version)) (ret None)));
     _ \<leftarrow> os_Remove h tmp;
     ret e
   }"

definition release_Ensure :: "'h host \<Rightarrow> 'h net \<Rightarrow> release_manager \<Rightarrow> string \<Rightarrow> ('h world, err option) state" where
  "release_Ensure h net r version =
     (let ds = filepath_Join [rm_dataset r, version] in
      check_fail (zfs_Ensure h ds []) (Wrap (''ensuring release dataset '' @ ds)) (do {
        ready \<leftarrow> isExtracted h (release_Path r version);
        if ready then ret None
        else or_fail (os_CreateTemp h net) (Wrap ''creating temp file for release download'')
               (fetch_release h net r version)
      }))"

section \<open>manager.go: names\<close>

definition JailRootDir :: string where
  "JailRootDir = ''jails''"

definition ReleaseRootDir :: string where
  "ReleaseRootDir = ''releases''"

record jail_manager =
  mg_basePath :: string
  mg_dataset :: string
  mg_confDir :: string
  mg_releases :: release_manager

definition jail_dataset :: "jail_manager \<Rightarrow> string \<Rightarrow> string" where
  "jail_dataset m name = filepath_Join [mg_dataset m, JailRootDir, name]"

definition jail_root_dataset :: "jail_manager \<Rightarrow> string \<Rightarrow> string" where
  "jail_root_dataset m name = filepath_Join [mg_dataset m, JailRootDir, name, ''root'']"

definition jail_root :: "jail_manager \<Rightarrow> string \<Rightarrow> string" where
  "jail_root m name = filepath_Join [mg_basePath m, JailRootDir, name, ''root'']"

definition jail_fstab :: "jail_manager \<Rightarrow> string \<Rightarrow> string" where
  "jail_fstab m name = filepath_Join [mg_basePath m, JailRootDir, name, ''fstab'']"

definition release_dataset :: "jail_manager \<Rightarrow> string \<Rightarrow> string" where
  "release_dataset m release = filepath_Join [mg_dataset m, ReleaseRootDir, release]"

definition jailAnchorName :: "string \<Rightarrow> jail_pf option \<Rightarrow> string" where
  "jailAnchorName name pf = (case pf of
     Some p \<Rightarrow> if pf_anchorName p \<noteq> [] then pf_anchorName p else ''jails/'' @ name
   | None \<Rightarrow> ''jails/'' @ name)"

definition releaseFromOrigin :: "string \<Rightarrow> string" where
  "releaseFromOrigin origin = Base (hd (SplitN (CHR 0x40) 2 origin))"

definition stripCIDR :: "string \<Rightarrow> string" where
  "stripCIDR addr = hd (SplitN slash 2 addr)"

definition NewManager :: "'h host \<Rightarrow> string \<Rightarrow> string \<Rightarrow> string \<Rightarrow> string \<Rightarrow> ('h world, jail_manager res) state" where
  "NewManager h goarch basePath zfsDataset mirror =
     check (zfs_Ensure h zfsDataset [''mountpoint='' @ basePath]) (Wrap (''ensuring base dataset '' @ zfsDataset))
     (check (zfs_Ensure h (filepath_Join [zfsDataset, JailRootDir]) [])
        (Wrap (''ensuring dataset '' @ filepath_Join [zfsDataset, JailRootDir]))
     (check (zfs_Ensure h (filepath_Join [zfsDataset, ReleaseRootDir]) [])
        (Wrap (''ensuring dataset '' @ filepath_Join [zfsDataset, ReleaseRootDir]))
     (ret (Inr \<lparr>mg_basePath = basePath, mg_dataset = zfsDataset, mg_confDir = DefaultJailConfDir,
        mg_releases = newReleaseManager goarch (filepath_Join [basePath, ReleaseRootDir])
          (filepath_Join [zfsDataset, ReleaseRootDir]) mirror\<rparr>))))"

section \<open>Running jails\<close>

definition StartJail :: "'h host \<Rightarrow> jail_manager \<Rightarrow> string \<Rightarrow> ('h world, err option) state" where
  "StartJail h m name = SimpleRunCommand h ''jail'' [''-c'', ''-f'', conf_path (mg_confDir m) name, name]"

definition StopJail :: "'h host \<Rightarrow> string \<Rightarrow> ('h world, err option) state" where
  "StopJail h name = SimpleRunCommand h ''jail'' [''-r'', name]"

definition RestartJail :: "'h host \<Rightarrow> jail_manager \<Rightarrow> string \<Rightarrow> ('h world, err option) state" where
  "RestartJail h m name = check_fail (StopJail h name) id (StartJail h m name)"

definition ExecInJail :: "'h host \<Rightarrow> string \<Rightarrow> string \<Rightarrow> string list \<Rightarrow> ('h world, err option) state" where
  "ExecInJail h name command args = SimpleRunCommand h ''jexec'' (name # command # args)"

definition BootstrapPkg :: "'h host \<Rightarrow> string \<Rightarrow> string \<Rightarrow> ('h world, err option) state" where
  "BootstrapPkg h name root = do {
     r \<leftarrow> os_Stat h (filepath_Join [root, ''usr/local/sbin/pkg'']);
     (case r of
        Inr _ \<Rightarrow> ret None
      | Inl _ \<Rightarrow> ExecInJail h name ''env'' [''ASSUME_ALWAYS_YES=yes'', ''pkg'', ''bootstrap''])
   }"

definition UpdateJail :: "'h host \<Rightarrow> string \<Rightarrow> ('h world, err option) state" where
  "UpdateJail h root = SimpleRunCommand h ''env''
     [''PAGER=cat'', ''/usr/sbin/freebsd-update'', ''-b'', root, ''--not-running-from-cron'', ''fetch'', ''install'']"

fun userland_version :: "string list \<Rightarrow> string option" where
  "userland_version [] = None"
| "userland_version (l # ls) =
     (let t = TrimSpace l in
      if HasPrefix t ''USERLAND_VERSION='' then Some (Trim (\<lambda>c. c = CHR 0x22) (TrimPrefix t ''USERLAND_VERSION=''))
      else userland_version ls)"

definition installedRelease :: "'h host \<Rightarrow> string \<Rightarrow> ('h world, string res) state" where
  "installedRelease h root =
     or_return (os_ReadFile h (filepath_Join [root, ''bin'', ''freebsd-version'']))
       (Wrap ''reading freebsd-version'') (\<lambda>data. ret (case userland_version (Split (CHR 10) data) of
          Some v \<Rightarrow> Inr v
        | None \<Rightarrow> Inl (Plain (''USERLAND_VERSION not found in '' @ root @ ''/bin/freebsd-version''))))"

definition FlushAnchor :: "'h host \<Rightarrow> string \<Rightarrow> ('h world, err option) state" where
  "FlushAnchor h anchor = SimpleRunCommand h ''pfctl'' [''-a'', anchor, ''-F'', ''all'']"

definition EnsureAnchor :: "'h host \<Rightarrow> string \<Rightarrow> string list \<Rightarrow> ('h world, err option) state" where
  "EnsureAnchor h anchor rules =
     (if rules = [] then FlushAnchor h anchor
      else do {
        (_, _, e) \<leftarrow> RunCommandWithInput h (Join rules [CHR 10] @ [CHR 10]) ''pfctl'' [''-a'', anchor, ''-f'', ''-''];
        ret e
      })"

section \<open>Addresses\<close>

definition removeIPAliases :: "'h host \<Rightarrow> jail_spec \<Rightarrow> ('h world, unit) state" where
  "removeIPAliases h spec =
     (if js_interface spec = [] then ret ()
      else do {
        _ \<leftarrow> (if js_inet spec \<noteq> [] then
                SimpleRunCommand h ''ifconfig'' [js_interface spec, ''inet'', stripCIDR (js_inet spec), ''-alias'']
              else ret None);
        _ \<leftarrow> (if js_inet6 spec \<noteq> [] then
                SimpleRunCommand h ''ifconfig'' [js_interface spec, ''inet6'', stripCIDR (js_inet6 spec), ''-alias'']
              else ret None);
        ret ()
      })"

definition first_addr :: "string list \<Rightarrow> string" where
  "first_addr as = (case as of [] \<Rightarrow> [] | a # _ \<Rightarrow> a)"

text \<open>Whether the running jail has the declared addresses; only its first entry in the list counts.\<close>

definition network_current :: "jail_spec \<Rightarrow> jls_jail \<Rightarrow> bool" where
  "network_current spec r \<longleftrightarrow>
     stripCIDR (js_inet spec) = first_addr (jl_ipv4_addrs r) \<and>
     stripCIDR (js_inet6 spec) = first_addr (jl_ipv6_addrs r)"

definition cycleJailIfNetworkChanged :: "'h host \<Rightarrow> string \<Rightarrow> jail_spec \<Rightarrow> ('h world, err option) state" where
  "cycleJailIfNetworkChanged h name spec =
     (if js_inet spec = [] \<and> js_inet6 spec = [] then ret None
      else or_fail (listRunningJails h) (Wrap ''listing running jails'') (\<lambda>jails.
        (case find (\<lambda>j. jl_name j = name) jails of
           Some r \<Rightarrow>
             if network_current spec r then ret None
             else do { _ \<leftarrow> StopJail h name; removeIPAliases h spec; ret None }
         | None \<Rightarrow> do { removeIPAliases h spec; ret None })))"

section \<open>Mounts and files\<close>

definition longer_first :: "string \<Rightarrow> string \<Rightarrow> int" where
  "longer_first a b =
     (if length a > length b then -1 else if length a < length b then 1
      else if a < b then -1 else if b < a then 1 else 0)"

definition mount_points :: "string \<Rightarrow> string \<Rightarrow> string list" where
  "mount_points jailRoot output =
     filter (\<lambda>mp. HasPrefix mp (jailRoot @ ''/''))
       (List.map_filter (\<lambda>l. case Fields l of _ # mp # _ \<Rightarrow> Some mp | _ \<Rightarrow> None) (Split (CHR 10) output))"

fun umount_each :: "'h host \<Rightarrow> string list \<Rightarrow> ('h world, unit) state" where
  "umount_each h [] = ret ()"
| "umount_each h (mp # mps) = do { _ \<leftarrow> SimpleRunCommand h ''umount'' [''-f'', mp]; umount_each h mps }"

definition unmountAll :: "'h host \<Rightarrow> string \<Rightarrow> ('h world, unit) state" where
  "unmountAll h jailRoot = do {
     (out, _, e) \<leftarrow> RunCommand h ''mount'' [''-p''];
     if e \<noteq> None then ret ()
     else umount_each h (insertion_sort longer_first (mount_points jailRoot out))
   }"

definition copy_host_file :: "'h host \<Rightarrow> string \<Rightarrow> string \<Rightarrow> ('h world, err option) state" where
  "copy_host_file h jailRoot f = do {
     r \<leftarrow> os_ReadFile h f;
     (case r of
        Inl e \<Rightarrow> ret (if os_is_not_exist e then None else Some (Wrap (''reading '' @ f) e))
      | Inr data \<Rightarrow>
          (let dest = filepath_Join [jailRoot, f] in
           check_fail (os_MkdirAll h (Dir dest) 493) (Wrap (''creating directory for '' @ dest))
             (check_fail (os_WriteFile h dest data 420) (Wrap (''writing '' @ dest)) (ret None))))
   }"

definition copyHostFiles :: "'h host \<Rightarrow> string \<Rightarrow> ('h world, err option) state" where
  "copyHostFiles h jailRoot =
     check_fail (copy_host_file h jailRoot ''/etc/resolv.conf'') id
       (check_fail (copy_host_file h jailRoot ''/etc/localtime'') id (ret None))"

fun make_mountpoints :: "'h host \<Rightarrow> string \<Rightarrow> jail_mount list \<Rightarrow> ('h world, err option) state" where
  "make_mountpoints h root [] = ret None"
| "make_mountpoints h root (mt # ms) =
     check_fail (os_MkdirAll h (filepath_Join [root, jm_jailPath mt]) 493)
       (Wrap (''creating mountpoint '' @ filepath_Join [root, jm_jailPath mt])) (make_mountpoints h root ms)"

section \<open>EnsureJail\<close>

text \<open>
  Step 3: a root that was cloned from another release is destroyed, with the snapshot it came from;
  then, if there is no root, the release is snapshotted and cloned.
\<close>

definition drop_stale_root :: "'h host \<Rightarrow> jail_manager \<Rightarrow> jail \<Rightarrow> ('h world, bool res) state" where
  "drop_stale_root h m j =
     (let name = om_name (j_meta j); ds = jail_root_dataset m name in
      or_return (zfs_GetProperty h ds ''origin'') (Wrap (''checking jail root origin for '' @ name)) (\<lambda>origin.
        if origin \<noteq> [] \<and> origin \<noteq> ''-'' \<and> releaseFromOrigin origin \<noteq> js_release (j_spec j) then do {
          _ \<leftarrow> StopJail h name;
          check (zfs_DestroyDatasetRecursive h ds) (Wrap (''destroying stale jail root for '' @ name)) (do {
            _ \<leftarrow> zfs_DestroyDataset h origin;
            ret (Inr False)
          })
        } else ret (Inr True)))"

definition clone_root :: "'h host \<Rightarrow> jail_manager \<Rightarrow> jail \<Rightarrow> ('h world, err option) state" where
  "clone_root h m j =
     (let name = om_name (j_meta j); rds = release_dataset m (js_release (j_spec j));
          snapshot = rds @ ''@'' @ name in
      or_fail (zfs_Exists h snapshot) (Wrap (''checking release snapshot for '' @ name)) (\<lambda>ex.
        check_fail (if \<not> ex then zfs_Snapshot h rds name else ret None) (Wrap (''snapshotting release for '' @ name))
          (check_fail (zfs_Clone h snapshot (jail_root_dataset m name) [''mountpoint='' @ jail_root m name])
             (Wrap (''cloning jail root for '' @ name)) (ret None))))"

definition ensure_root :: "'h host \<Rightarrow> jail_manager \<Rightarrow> jail \<Rightarrow> ('h world, err option) state" where
  "ensure_root h m j =
     or_fail (zfs_Exists h (jail_root_dataset m (om_name (j_meta j)))) (Wrap ''checking jail root dataset'') (\<lambda>ex.
       or_fail (if ex then drop_stale_root h m j else ret (Inr False)) id (\<lambda>ex2.
         if \<not> ex2 then clone_root h m j else ret None))"

text \<open>Steps 5 and 6: the fstab, its mount points, and the configuration; whether either changed.\<close>

definition ensure_fstab :: "'h host \<Rightarrow> jail_manager \<Rightarrow> jail \<Rightarrow> ('h world, bool res) state" where
  "ensure_fstab h m j =
     (let name = om_name (j_meta j); mounts = js_mounts (j_spec j); root = jail_root m name in
      if mounts = [] then ret (Inr False)
      else or_return (writeFstab h (jail_fstab m name) root mounts) (Wrap (''writing fstab for '' @ name)) (\<lambda>ch.
        check (make_mountpoints h root mounts) id (ret (Inr ch))))"

definition ensure_config :: "'h host \<Rightarrow> jail_manager \<Rightarrow> jail \<Rightarrow> ('h world, bool res) state" where
  "ensure_config h m j =
     (let name = om_name (j_meta j); spec = j_spec j in
      or_return (ensure_fstab h m j) id (\<lambda>fstabChanged.
        or_return (writeJailConf h (mg_confDir m) name (jail_root m name)
            (if js_mounts spec = [] then [] else jail_fstab m name) spec)
          (Wrap (''writing jail.conf for '' @ name)) (\<lambda>confChanged.
            ret (Inr (confChanged \<or> fstabChanged)))))"

definition ensure_anchor :: "'h host \<Rightarrow> jail \<Rightarrow> ('h world, err option) state" where
  "ensure_anchor h j = (case js_pf (j_spec j) of
     None \<Rightarrow> ret None
   | Some pf \<Rightarrow>
       (let anchor = jailAnchorName (om_name (j_meta j)) (Some pf) in
        check_fail (EnsureAnchor h anchor (pf_rules pf)) (Wrap (''syncing PF anchor '' @ anchor)) (ret None)))"

definition EnsureJail :: "'h host \<Rightarrow> 'h net \<Rightarrow> jail_manager \<Rightarrow> jail \<Rightarrow> ('h world, err option) state" where
  "EnsureJail h net m j =
     (let name = om_name (j_meta j); spec = j_spec j in
      check_fail (release_Ensure h net (mg_releases m) (js_release spec)) (Wrap (''ensuring release '' @ js_release spec))
     (check_fail (zfs_Ensure h (jail_dataset m name) []) (Wrap (''ensuring jail dataset '' @ jail_dataset m name))
     (check_fail (ensure_root h m j) id
     (check_fail (copyHostFiles h (jail_root m name)) (Wrap (''copying host files into jail '' @ name))
     (or_fail (ensure_config h m j) id (\<lambda>changed.
      check_fail (ensure_anchor h j) id
     (check_fail (ensureJailRCService h name (mg_confDir m)) (Wrap (''registering rc.d service for jail '' @ name)) (do {
        _ \<leftarrow> (if changed then StopJail h name else ret None);
        check_fail (cycleJailIfNetworkChanged h name spec) (Wrap (''checking network change for '' @ name)) (ret None)
      }))))))))"

section \<open>DeleteJail\<close>

definition destroy_jail_datasets :: "'h host \<Rightarrow> jail_manager \<Rightarrow> jail \<Rightarrow> ('h world, err option) state" where
  "destroy_jail_datasets h m j =
     (let name = om_name (j_meta j); ds = jail_dataset m name in
      or_fail (zfs_Exists h ds) (Wrap ''checking jail dataset'') (\<lambda>ex.
        check_fail (if ex then zfs_DestroyDatasetRecursive h ds else ret None) (Wrap (''destroying jail dataset '' @ ds)) (ret None)))"

definition destroy_release_snapshot :: "'h host \<Rightarrow> jail_manager \<Rightarrow> jail \<Rightarrow> ('h world, err option) state" where
  "destroy_release_snapshot h m j =
     (let release = js_release (j_spec j);
          snapshot = mg_dataset m @ ''/'' @ ReleaseRootDir @ ''/'' @ release @ ''@'' @ om_name (j_meta j) in
      if release = [] then ret None
      else or_fail (zfs_Exists h snapshot) (Wrap (''checking release snapshot '' @ snapshot)) (\<lambda>ex.
        check_fail (if ex then zfs_DestroyDataset h snapshot else ret None)
          (Wrap (''destroying release snapshot '' @ snapshot)) (ret None)))"

definition unmount_jail :: "'h host \<Rightarrow> jail_manager \<Rightarrow> jail \<Rightarrow> ('h world, unit) state" where
  "unmount_jail h m j =
     (let name = om_name (j_meta j); root = jail_root m name in do {
        umount_each h (filepath_Join [root, ''dev''] # map (\<lambda>mt. filepath_Join [root, jm_jailPath mt]) (js_mounts (j_spec j)));
        unmountAll h root;
        _ \<leftarrow> SimpleRunCommand h ''/sbin/zfs'' [''umount'', ''-f'', jail_root_dataset m name];
        ret ()
      })"

definition DeleteJail :: "'h host \<Rightarrow> jail_manager \<Rightarrow> jail \<Rightarrow> ('h world, err option) state" where
  "DeleteJail h m j =
     (let name = om_name (j_meta j); spec = j_spec j in do {
        _ \<leftarrow> StopJail h name;
        removeIPAliases h spec;
        _ \<leftarrow> FlushAnchor h (jailAnchorName name (js_pf spec));
        check_fail (removeJailRCService h name) (Wrap (''deregistering rc.d service for jail '' @ name))
       (check_fail (removeJailConf h (mg_confDir m) name) id
       (check_fail (removeFstab h (jail_fstab m name)) id (do {
          unmount_jail h m j;
          check_fail (destroy_jail_datasets h m j) id (destroy_release_snapshot h m j)
        })))
      })"

end
