(* ===== verification/JailController.thy ===== *)
theory JailController
  imports JailManager GoTime
begin

text \<open>
  The Jail reconciler, \<^verbatim>\<open>internal/controller/freebsd/jail_controller.go\<close>: finalizers, template
  resolution, provisioning, starting, the hooks that run once, the status, and scheduled
  \<^verbatim>\<open>freebsd-update\<close> runs. Beside the environment of every controller it is given the jail manager's
  configuration, HTTP and the cron parser.
\<close>

section \<open>Configuration\<close>

record jail_config =
  jcfg_dataPath :: string
  jcfg_zfsDataset :: string
  jcfg_mirror :: string

definition default_jail_config :: jail_config where
  "default_jail_config = \<lparr>jcfg_dataPath = ''/usr/local/nodemanager'', jcfg_zfsDataset = ''zroot/nodemanager'',
     jcfg_mirror = ''https://download.freebsd.org/releases''\<rparr>"

record 'h jail_env =
  je_env :: "'h env"
  je_net :: "'h net"
  je_cron :: "string \<Rightarrow> (instant \<Rightarrow> instant) res"
  je_cfg :: jail_config
  je_hostname :: string
  je_manager :: jail_manager

abbreviation je_host :: "'h jail_env \<Rightarrow> 'h host" where
  "je_host je \<equiv> e_host (je_env je)"

definition NewJailReconciler :: "'h env \<Rightarrow> 'h net \<Rightarrow> (string \<Rightarrow> (instant \<Rightarrow> instant) res) \<Rightarrow> string \<Rightarrow> jail_config \<Rightarrow>
    ('h world, 'h jail_env res) state" where
  "NewJailReconciler env net cron goarch cfg =
     or_return (nh_Hostname (sy_node (e_system env))) (Wrap ''getting local hostname'') (\<lambda>hostname.
       or_return (NewManager (e_host env) goarch (jcfg_dataPath cfg) (jcfg_zfsDataset cfg) (jcfg_mirror cfg))
         (Wrap ''creating jail manager'') (\<lambda>mg.
           ret (Inr \<lparr>je_env = env, je_net = net, je_cron = cron, je_cfg = cfg, je_hostname = hostname,
             je_manager = mg\<rparr>)))"

definition jailFinalizer :: string where
  "jailFinalizer = ''freebsd.nodemanager/finalizer''"

definition condAvailable :: string where
  "condAvailable = ''Available''"

definition condDegraded :: string where
  "condDegraded = ''Degraded''"

definition condProgressing :: string where
  "condProgressing = ''Progressing''"

section \<open>Status\<close>

definition setCondition :: "'h host \<Rightarrow> string \<Rightarrow> cond_status \<Rightarrow> string \<Rightarrow> string \<Rightarrow> jail \<Rightarrow> ('h world, jail) state" where
  "setCondition h condType status reason msg j = do {
     t \<leftarrow> now h;
     let c = \<lparr>c_type = condType, c_status = status, c_reason = reason, c_message = msg,
              c_lastTransition = zero_time, c_observedGeneration = om_generation (j_meta j)\<rparr>;
     ret (j\<lparr>j_status := (j_status j)\<lparr>jst_conditions := SetStatusCondition t (jst_conditions (j_status j)) c\<rparr>\<rparr>)
   }"

definition updateStatusWithRetry :: "'h env \<Rightarrow> nsname \<Rightarrow> (jail \<Rightarrow> ('h world, jail) state) \<Rightarrow> ('h world, err option) state" where
  "updateStatusWithRetry env key mutate =
     RetryOnConflict (or_fail (api_get env as_jail KJail key) id (\<lambda>fresh. do {
       j \<leftarrow> mutate fresh;
       api_updateStatus env (OJail j)
     }))"

definition degraded :: "'h env \<Rightarrow> nsname \<Rightarrow> string \<Rightarrow> string \<Rightarrow> ('h world, err option) state" where
  "degraded env key reason msg = updateStatusWithRetry env key (setCondition (e_host env) condDegraded CondTrue reason msg)"

definition degraded_stopped :: "'h env \<Rightarrow> nsname \<Rightarrow> string \<Rightarrow> string \<Rightarrow> string \<Rightarrow> ('h world, err option) state" where
  "degraded_stopped env key reason msg msg2 = updateStatusWithRetry env key (\<lambda>fresh. do {
     j \<leftarrow> setCondition (e_host env) condDegraded CondTrue reason msg fresh;
     setCondition (e_host env) condProgressing CondFalse reason msg2 j
   })"

section \<open>Scheduled updates\<close>

type_synonym update_result = "instant \<times> err option"

definition jail_forgiveness :: duration where
  "jail_forgiveness = 60 * second"

definition jail_key :: "jail \<Rightarrow> nsname" where
  "jail_key j = nsn (om_namespace (j_meta j)) (om_name (j_meta j))"

definition record_update :: "'h jail_env \<Rightarrow> jail \<Rightarrow> instant \<Rightarrow> ('h world, update_result) state" where
  "record_update je j next = do {
     t \<leftarrow> now (je_host je);
     e \<leftarrow> updateStatusWithRetry (je_env je) (jail_key j)
            (\<lambda>fresh. ret (fresh\<lparr>j_status := (j_status fresh)\<lparr>jst_lastUpdate := Some t\<rparr>\<rparr>));
     ret (case e of
            Some x \<Rightarrow> (zero_time, Some (Wrap ''recording last update status'' x))
          | None \<Rightarrow> (next, None))
   }"

definition run_update :: "'h jail_env \<Rightarrow> jail \<Rightarrow> string \<Rightarrow> instant \<Rightarrow> ('h world, update_result) state" where
  "run_update je j jailRoot next = (let name = om_name (j_meta j) in do {
     s \<leftarrow> StopJail (je_host je) name;
     (case s of
        Some e \<Rightarrow> ret (zero_time, Some (Wrap ''stopping jail for update'' e))
      | None \<Rightarrow> do {
          u \<leftarrow> UpdateJail (je_host je) jailRoot;
          _ \<leftarrow> StartJail (je_host je) (je_manager je) name;
          (case u of
             Some e \<Rightarrow> ret (zero_time, Some (Wrap (''freebsd-update failed for jail '' @ name) e))
           | None \<Rightarrow> record_update je j next)
        })
   })"

definition update_group :: "jail \<Rightarrow> nsname option" where
  "update_group j =
     (let g = ju_group (js_update (j_spec j))
      in if g = [] then None else Some (nsn (om_namespace (j_meta j)) g))"

definition update_locked :: "'h jail_env \<Rightarrow> jail \<Rightarrow> string \<Rightarrow> (instant \<Rightarrow> instant) \<Rightarrow> instant \<Rightarrow>
    ('h world, update_result) state" where
  "update_locked je j jailRoot sched next = (case update_group j of
     None \<Rightarrow> run_update je j jailRoot next
   | Some req \<Rightarrow> do {
       t \<leftarrow> now (je_host je);
       t2 \<leftarrow> now (je_host je);
       e \<leftarrow> called (LockForCall req (time_sub (sched t) t2))
              (ext (lk_LockFor (e_locker (je_env je)) req (time_sub (sched t) t2)));
       (case e of
          None \<Rightarrow> run_update je j jailRoot next
        | Some x \<Rightarrow>
            if is_conflict x then ret (next, None)
            else ret (zero_time, Some (Wrap (''acquiring jail update lock for '' @ om_name (j_meta j)) x)))
     })"

text \<open>As for node upgrades, the last two branches of the window test both return \<open>next\<close>.\<close>

definition update_when_due :: "'h jail_env \<Rightarrow> jail \<Rightarrow> string \<Rightarrow> (instant \<Rightarrow> instant) \<Rightarrow> instant \<Rightarrow> duration \<Rightarrow>
    ('h world, update_result) state" where
  "update_when_due je j jailRoot sched next delay = do {
     recent \<leftarrow> (case jst_lastUpdate (j_status j) of
        None \<Rightarrow> ret False
      | Some u \<Rightarrow> do { t \<leftarrow> now (je_host je); ret (time_sub t u < delay) });
     if recent then ret (next, None)
     else do {
       t \<leftarrow> now (je_host je);
       if time_sub t next < jail_forgiveness then update_locked je j jailRoot sched next
       else ret (next, None)
     }
   }"

definition update_scheduled :: "'h jail_env \<Rightarrow> jail \<Rightarrow> string \<Rightarrow> (instant \<Rightarrow> instant) \<Rightarrow> duration \<Rightarrow>
    ('h world, update_result) state" where
  "update_scheduled je j jailRoot sched delay = do {
     t \<leftarrow> now (je_host je);
     let next = sched (t - jail_forgiveness);
     (case update_group j of
        None \<Rightarrow> update_when_due je j jailRoot sched next delay
      | Some req \<Rightarrow> do {
          l \<leftarrow> ext (lk_Locked (e_locker (je_env je)) req);
          if l then do {
            _ \<leftarrow> called (UnlockCall req) (ext (lk_Unlock (e_locker (je_env je)) req));
            ret (next, None)
          } else update_when_due je j jailRoot sched next delay
        })
   }"

definition handleUpdate :: "'h jail_env \<Rightarrow> jail \<Rightarrow> string \<Rightarrow> ('h world, update_result) state" where
  "handleUpdate je j jailRoot =
     (let up = js_update (j_spec j) in
      if ju_schedule up = [] \<or> ju_delay up = [] then ret (zero_time, None)
      else (case ParseDuration (ju_delay up) of
              Inl e \<Rightarrow> ret (zero_time, Some (Wrap ''parsing jail update delay'' e))
            | Inr delay \<Rightarrow> (case je_cron je (ju_schedule up) of
                Inl e \<Rightarrow> ret (zero_time, Some (Wrap ''parsing jail update schedule'' e))
              | Inr sched \<Rightarrow> update_scheduled je j jailRoot sched delay)))"

section \<open>Reconcile\<close>

type_synonym reconcile_result = "duration \<times> err option"

text \<open>A failed step marks the jail as degraded and returns its error.\<close>

definition or_degraded :: "'h jail_env \<Rightarrow> nsname \<Rightarrow> string \<Rightarrow> (err \<Rightarrow> string) \<Rightarrow> ('h world, err option) state \<Rightarrow>
    ('h world, 'a res) state \<Rightarrow> ('h world, 'a res) state" where
  "or_degraded je key reason msg m k = do {
     e \<leftarrow> m;
     (case e of
        Some x \<Rightarrow> do { _ \<leftarrow> degraded (je_env je) key reason (msg x); ret (Inl x) }
      | None \<Rightarrow> k)
   }"

definition resolve_template :: "'h jail_env \<Rightarrow> nsname \<Rightarrow> jail \<Rightarrow> ('h world, (jail_spec \<times> post_create_command list) res) state" where
  "resolve_template je key j =
     (let ref = js_templateRef (j_spec j) in
      if ref = [] then ret (Inr (j_spec j, []))
      else do {
        r \<leftarrow> api_get (je_env je) as_jail_template KJailTemplate (nsn (om_namespace (j_meta j)) ref);
        (case r of
           Inl e \<Rightarrow> do {
             _ \<leftarrow> degraded (je_env je) key ''TemplateNotFound'' (''JailTemplate '' @ Quote ref @ '' not found: '' @ err_text e);
             ret (Inl e)
           }
         | Inr t \<Rightarrow> ret (Inr (MergeTemplateDefaults (j_spec j) (jt_spec t), jt_postCreate (jt_spec t))))
      })"

definition provision :: "'h jail_env \<Rightarrow> nsname \<Rightarrow> jail \<Rightarrow> ('h world, err option) state" where
  "provision je key merged =
     check_fail (updateStatusWithRetry (je_env je) key
       (setCondition (je_host je) condProgressing CondTrue ''Provisioning'' ''jail is being provisioned'')) id (do {
         e \<leftarrow> EnsureJail (je_host je) (je_net je) (je_manager je) merged;
         (case e of
            Some x \<Rightarrow> do {
              _ \<leftarrow> degraded_stopped (je_env je) key ''EnsureFailed'' (err_text x) ''provisioning failed'';
              ret (Some x)
            }
          | None \<Rightarrow> ret None)
       })"

definition start_if_stopped :: "'h jail_env \<Rightarrow> nsname \<Rightarrow> string \<Rightarrow> ('h world, bool res) state" where
  "start_if_stopped je key name = do {
     r \<leftarrow> isJailRunning (je_host je) name;
     (case r of
        Inl e \<Rightarrow> do { _ \<leftarrow> degraded (je_env je) key ''StatusCheckFailed'' (err_text e); ret (Inl e) }
      | Inr running \<Rightarrow> do {
          s \<leftarrow> (if running then ret None else StartJail (je_host je) (je_manager je) name);
          (case s of
             Some e \<Rightarrow> do {
               _ \<leftarrow> degraded_stopped (je_env je) key ''StartFailed'' (err_text e) ''jail failed to start'';
               ret (Inl e)
             }
           | None \<Rightarrow> isJailRunning (je_host je) name)
        })
   }"

fun run_hooks :: "'h jail_env \<Rightarrow> nsname \<Rightarrow> string \<Rightarrow> post_create_command list \<Rightarrow> ('h world, err option) state" where
  "run_hooks je key name [] = ret None"
| "run_hooks je key name (cmd # cmds) = do {
     e \<leftarrow> ExecInJail (je_host je) name (pc_command cmd) (pc_args cmd);
     (case e of
        Some x \<Rightarrow> do {
          _ \<leftarrow> degraded (je_env je) key ''PostCreateFailed''
            (''postCreate hook '' @ Quote (pc_name cmd) @ '' failed: '' @ err_text x);
          ret (Some x)
        }
      | None \<Rightarrow> run_hooks je key name cmds)
   }"

definition post_create :: "'h jail_env \<Rightarrow> nsname \<Rightarrow> jail \<Rightarrow> post_create_command list \<Rightarrow> bool \<Rightarrow> ('h world, err option) state" where
  "post_create je key j cmds running =
     (if cmds \<noteq> [] \<and> running \<and> jst_postCreateDone (j_status j) = None then
        check_fail (run_hooks je key (om_name (j_meta j)) cmds) id (do {
          t \<leftarrow> now (je_host je);
          updateStatusWithRetry (je_env je) key
            (\<lambda>fresh. ret (fresh\<lparr>j_status := (j_status fresh)\<lparr>jst_postCreateDone := Some t\<rparr>\<rparr>))
        })
      else ret None)"

definition report_state :: "'h jail_env \<Rightarrow> nsname \<Rightarrow> bool \<Rightarrow> string \<Rightarrow> ('h world, err option) state" where
  "report_state je key running release =
     (let h = je_host je in
      updateStatusWithRetry (je_env je) key (\<lambda>fresh. do {
        j1 \<leftarrow> setCondition h condProgressing CondFalse ''Provisioned'' ''jail provisioned successfully'' fresh;
        j2 \<leftarrow> (if running then do {
                 j \<leftarrow> setCondition h condAvailable CondTrue ''Running'' ''jail is running'' j1;
                 setCondition h condDegraded CondFalse ''Running'' [] j
               } else do {
                 j \<leftarrow> setCondition h condAvailable CondFalse ''NotRunning'' ''jail is not running after start'' j1;
                 setCondition h condDegraded CondTrue ''NotRunning'' ''jail is not running after start attempt'' j
               });
        ret (if release \<noteq> [] then j2\<lparr>j_status := (j_status j2)\<lparr>jst_release := release\<rparr>\<rparr> else j2)
      }))"

definition requeue_jail :: "'h jail_env \<Rightarrow> jail \<Rightarrow> instant \<Rightarrow> ('h world, reconcile_result) state" where
  "requeue_jail je j next =
     (if next \<noteq> zero_time then do { t \<leftarrow> now (je_host je); ret (time_sub next t, None) }
      else ret (if js_reconcilePeriod (j_spec j) = [] then 0
                else (case ParseDuration (js_reconcilePeriod (j_spec j)) of
                        Inl _ \<Rightarrow> 0 | Inr p \<Rightarrow> if 0 < p then p else 0), None))"

definition cfg_jail_root :: "'h jail_env \<Rightarrow> string \<Rightarrow> string" where
  "cfg_jail_root je name = filepath_Join [jcfg_dataPath (je_cfg je), JailRootDir, name, ''root'']"

text \<open>Everything between the finalizer and the update; the error, if any, ends the reconcile.\<close>

definition bring_up :: "'h jail_env \<Rightarrow> nsname \<Rightarrow> jail \<Rightarrow> ('h world, unit res) state" where
  "bring_up je key j = (let name = om_name (j_meta j); root = cfg_jail_root je name in
     or_return (resolve_template je key j) id (\<lambda>(merged, cmds).
     check (provision je key (j\<lparr>j_spec := merged\<rparr>)) id
     (or_return (start_if_stopped je key name) id (\<lambda>running.
      or_degraded je key ''PkgBootstrapFailed'' err_text (if running then BootstrapPkg (je_host je) name root else ret None)
     (check (post_create je key j cmds running) id (do {
        rel \<leftarrow> installedRelease (je_host je) root;
        check (report_state je key running (case rel of Inl _ \<Rightarrow> [] | Inr v \<Rightarrow> v)) id (ret (Inr ()))
      }))))))"

definition reconcile_live :: "'h jail_env \<Rightarrow> nsname \<Rightarrow> jail \<Rightarrow> ('h world, reconcile_result) state" where
  "reconcile_live je key j = do {
     r \<leftarrow> bring_up je key j;
     (case r of
        Inl e \<Rightarrow> ret (0, Some e)
      | Inr _ \<Rightarrow> do {
          (next, e) \<leftarrow> handleUpdate je j (cfg_jail_root je (om_name (j_meta j)));
          if e \<noteq> None then ret (0, e) else requeue_jail je j next
        })
   }"

definition update_jail :: "'h env \<Rightarrow> jail \<Rightarrow> ('h world, jail res) state" where
  "update_jail env j = do { r \<leftarrow> api_write VUpdate (cl_update (e_client env)) (OJail j); ret (decode as_jail r) }"

definition reconcile_deleted :: "'h jail_env \<Rightarrow> nsname \<Rightarrow> jail \<Rightarrow> ('h world, reconcile_result) state" where
  "reconcile_deleted je key j =
     (if jailFinalizer \<notin> set (om_finalizers (j_meta j)) then ret (0, None)
      else if js_deletionProtection (j_spec j) then do {
        _ \<leftarrow> degraded (je_env je) key ''DeletionProtected''
          ''deletion blocked: set spec.deletionProtection=false to allow removal'';
        ret (0, None)
      } else do {
        e \<leftarrow> DeleteJail (je_host je) (je_manager je) j;
        (case e of
           Some x \<Rightarrow> do { _ \<leftarrow> degraded (je_env je) key ''DeleteFailed'' (err_text x); ret (0, Some x) }
         | None \<Rightarrow> do {
             r \<leftarrow> update_jail (je_env je)
               (j\<lparr>j_meta := (j_meta j)\<lparr>om_finalizers := filter (\<lambda>f. f \<noteq> jailFinalizer) (om_finalizers (j_meta j))\<rparr>\<rparr>);
             ret (0, err_of r)
           })
      })"

definition with_finalizer :: "'h jail_env \<Rightarrow> jail \<Rightarrow> ('h world, jail res) state" where
  "with_finalizer je j =
     (if jailFinalizer \<in> set (om_finalizers (j_meta j)) then ret (Inr j)
      else update_jail (je_env je)
             (j\<lparr>j_meta := (j_meta j)\<lparr>om_finalizers := om_finalizers (j_meta j) @ [jailFinalizer]\<rparr>\<rparr>))"

definition Jail_Reconcile :: "'h jail_env \<Rightarrow> nsname \<Rightarrow> ('h world, reconcile_result) state" where
  "Jail_Reconcile je req = do {
     r \<leftarrow> api_get (je_env je) as_jail KJail req;
     (case r of
        Inl e \<Rightarrow> ret (0, ignore_not_found e)
      | Inr j \<Rightarrow>
          if js_nodeName (j_spec j) \<noteq> je_hostname je then ret (0, None)
          else if om_deletionTimestamp (j_meta j) \<noteq> None then reconcile_deleted je req j
          else do {
            f \<leftarrow> with_finalizer je j;
            (case f of Inl e \<Rightarrow> ret (0, Some e) | Inr j2 \<Rightarrow> reconcile_live je req j2)
          })
   }"

definition jailsReferencingTemplate :: "'h env \<Rightarrow> kobj \<Rightarrow> ('h world, nsname list) state" where
  "jailsReferencingTemplate env ob = (case as_jail_template ob of
     None \<Rightarrow> ret []
   | Some t \<Rightarrow> do {
       r \<leftarrow> api_list env as_jail KJail (Some (om_namespace (jt_meta t)));
       ret (case r of
              Inl _ \<Rightarrow> []
            | Inr js \<Rightarrow> map jail_key (filter (\<lambda>j. js_templateRef (j_spec j) = om_name (jt_meta t)) js))
     })"

end
