(* ===== verification/JailConfigCorrect.thy ===== *)
theory JailConfigCorrect
  imports JailManager ExecTrace ApiServer "HOL-Library.Product_Lexorder"
begin

text \<open>
  What the configuration side of the jail manager guarantees: template merging is overriding of maps
  and prepending of rules, the configuration files hold what was rendered and the change flag is
  exact, the fstab reads back as the declared mounts inside the jail, the list of running jails is
  read back from what \<^verbatim>\<open>jls\<close> prints, unmounting goes from the inside out, and a clone's origin
  names its release.
\<close>

section \<open>Templates\<close>

lemma distinct_set_all: "distinct (map fst m) \<Longrightarrow> distinct (map fst (set_all kvs m))"
  unfolding set_all_def by (induction kvs arbitrary: m) (auto simp: AList.distinct_update)

lemma map_of_set_all_add:
  assumes "distinct (map fst kvs)"
  shows "map_of (set_all kvs m) = map_of m ++ map_of kvs"
  using map_of_rev_distinct[OF assms] by (auto simp: fun_eq_iff map_of_set_all map_add_def)

lemma mergeParameters_map:
  assumes "distinct (map fst spec)" "distinct (map fst tmpl)"
  shows "map_of (mergeParameters spec tmpl) = map_of tmpl ++ map_of spec"
    and "distinct (map fst (mergeParameters spec tmpl))"
  using assms by (auto simp: mergeParameters_def map_of_set_all_add distinct_set_all)

lemma jailAnchorName_merge:
  "jailAnchorName name (mergePF spec tmpl) =
     (case spec of
        Some p \<Rightarrow> if pf_anchorName p \<noteq> [] then pf_anchorName p else jailAnchorName name tmpl
      | None \<Rightarrow> jailAnchorName name tmpl)"
  by (auto simp: jailAnchorName_def mergePF_def or_else_def split: option.splits)

definition rules_of :: "jail_pf option \<Rightarrow> string list" where
  "rules_of pf = (case pf of None \<Rightarrow> [] | Some p \<Rightarrow> pf_rules p)"


definition demo_jail_spec :: jail_spec where
  "demo_jail_spec = \<lparr>js_templateRef = ''base'', js_nodeName = ''n1'', js_release = ''14.2-RELEASE'', js_hostname = [],
     js_interface = ''em0'', js_inet = ''10.0.0.2/24'', js_inet6 = [],
     js_mounts = [\<lparr>jm_hostPath = ''/data'', jm_jailPath = ''/srv'', jm_type = [], jm_readOnly = True\<rparr>],
     js_update = \<lparr>ju_schedule = ''@daily'', ju_delay = ''12h'', ju_group = []\<rparr>, js_deletionProtection = False,
     js_pf = Some \<lparr>pf_anchorName = [], pf_rules = [''pass in'']\<rparr>,
     js_parameters = [(''allow.mount'', []), (''children.max'', ''5'')], js_reconcilePeriod = []\<rparr>"

definition demo_template_spec :: jail_template_spec where
  "demo_template_spec = \<lparr>jt_interface = ''em1'', jt_mounts = [],
     jt_update = \<lparr>ju_schedule = [], ju_delay = [], ju_group = ''g''\<rparr>, jt_postCreate = [],
     jt_pf = Some \<lparr>pf_anchorName = ''base'', pf_rules = [''block all'']\<rparr>,
     jt_parameters = [(''children.max'', ''1''), (''devfs'', ''on'')]\<rparr>"


section \<open>Configuration files\<close>

definition no_faults :: "'h host \<Rightarrow> bool" where
  "no_faults h \<longleftrightarrow> (\<forall>n p. h_fault h n p = ret None)"

lemma os_ReadFile_no_faults:
  assumes "no_faults h" and "run_state (os_ReadFile h p) w = (r, w')"
  shows "(\<exists>e. r = Inl e) \<longleftrightarrow> content_at (w_fs w) p = None" "\<And>c. r = Inr c \<longleftrightarrow> content_at (w_fs w) p = Some c"
  using assms by (auto simp: no_faults_def os_ReadFile_def syscall_def content_at_def
      split: prod.splits option.splits sum.splits fkind.splits)

lemma os_WriteFile_ok:
  assumes "run_state (os_WriteFile h p data perm) w = (None, w')"
  shows "content_at (w_fs w') p = Some data"
    and "\<forall>k. resolve (w_fs w) p \<noteq> Some k \<longrightarrow> map_of (w_fs w') k = map_of (w_fs w) k"
  using assms by (auto simp: os_WriteFile_def split: prod.splits sum.splits dest: write_after_open)

lemma rewrite_file_ok:
  assumes "no_faults h" and run: "run_state (rewrite_file h p text wrap) w = (Inr changed, w')"
  shows "content_at (w_fs w') p = Some text"
    and "changed \<longleftrightarrow> (\<exists>old. content_at (w_fs w) p = Some old \<and> old \<noteq> text)"
proof -
  obtain ex w1 where rd: "run_state (os_ReadFile h p) w = (ex, w1)" by fastforce
  obtain e w2 where wr: "run_state (os_WriteFile h p text 420) w1 = (e, w2)" by fastforce
  have run': "(case e of None \<Rightarrow> (Inr (case ex of Inl _ \<Rightarrow> False | Inr old \<Rightarrow> old \<noteq> text), w2)
      | Some x \<Rightarrow> (Inl (Wrap wrap x), w2)) = (Inr changed, w')"
    using run unfolding rewrite_file_def by (simp add: rd wr split: option.splits)
  then have c: "e = None \<and> w2 = w' \<and> changed = (case ex of Inl _ \<Rightarrow> False | Inr old \<Rightarrow> old \<noteq> text)"
    by (cases e) simp_all
  note ok = conjunct1[OF c] conjunct1[OF conjunct2[OF c]] and ch = conjunct2[OF conjunct2[OF c]]
  show "content_at (w_fs w') p = Some text" using os_WriteFile_ok(1) wr unfolding ok by blast
  show "changed \<longleftrightarrow> (\<exists>old. content_at (w_fs w) p = Some old \<and> old \<noteq> text)"
  proof (cases ex)
    case (Inl x)
    then have "content_at (w_fs w) p = None" using os_ReadFile_no_faults(1)[OF assms(1) rd] by blast
    with ch Inl show ?thesis by simp
  next
    case (Inr c)
    then have "content_at (w_fs w) p = Some c" using os_ReadFile_no_faults(2)[OF assms(1) rd] by blast
    with ch Inr show ?thesis by simp
  qed
qed

lemma mkdir_rewrite_ok:
  assumes "no_faults h"
    and run: "run_state (check (os_MkdirAll h d perm) wr (rewrite_file h p text wrap)) w = (Inr changed, w')"
  shows "content_at (w_fs w') p = Some text"
    and "changed \<longleftrightarrow> (\<exists>old. content_at (w_fs w) p = Some old \<and> old \<noteq> text)"
proof -
  obtain e w1 where mk: "run_state (os_MkdirAll h d perm) w = (e, w1)" by fastforce
  with run have "run_state (rewrite_file h p text wrap) w1 = (Inr changed, w')" by (auto split: option.splits)
  from rewrite_file_ok[OF assms(1) this] os_MkdirAll_content[OF mk]
  show "content_at (w_fs w') p = Some text"
    and "changed \<longleftrightarrow> (\<exists>old. content_at (w_fs w) p = Some old \<and> old \<noteq> text)" by auto
qed

text \<open>Writing the configuration of a jail. On a host without file system faults a successful
  \<open>writeJailConf\<close> leaves the rendered text in the jail's file, and reports a change, after which the
  manager stops the jail, exactly when the file was there with another text.\<close>

theorem conf_change_flag_exact:
  assumes "no_faults h"
    and "run_state (writeJailConf h confDir name jailRoot fstabPath spec) w = (Inr changed, w')"
  shows "content_at (w_fs w') (conf_path confDir name) =
      Some (jailConfTmpl (jail_conf_data_of name jailRoot fstabPath spec)) \<and>
    (changed \<longleftrightarrow> (\<exists>old. content_at (w_fs w) (conf_path confDir name) = Some old \<and>
       old \<noteq> jailConfTmpl (jail_conf_data_of name jailRoot fstabPath spec)))"
  using mkdir_rewrite_ok[OF assms(1)] assms(2) unfolding writeJailConf_def by blast

definition demo_jail_fs :: fs where
  "demo_jail_fs = [(''/etc/jail.conf.d/web.conf'', \<lparr>i_kind = FFile ''old'', i_mode = 420, i_uid = 0, i_gid = 0, i_mtime = 0\<rparr>)]"

definition demo_jail_world :: "api world" where
  "demo_jail_world = \<lparr>w_fs = demo_jail_fs, w_trace = [], w_rv = \<lparr>rv_last = [], rv_gauge = []\<rparr>,
     w_ext = \<lparr>as_objs = [], as_rv = 0, as_now = 0, as_hostname = ''n1''\<rparr>\<rparr>"

lemma demo_conf_run:
  "fst (run_state (writeJailConf ref_host ''/etc/jail.conf.d'' ''web'' ''/j/web/root'' [] demo_jail_spec) demo_jail_world) = Inr True"
  by code_simp

lemma ref_host_no_faults [simp]: "no_faults ref_host"
  by (simp add: no_faults_def)

theorem conf_change_flag_exact_witness:
  "\<exists>w'. run_state (writeJailConf ref_host ''/etc/jail.conf.d'' ''web'' ''/j/web/root'' [] demo_jail_spec) demo_jail_world = (Inr True, w') \<and>
     content_at (w_fs w') (conf_path ''/etc/jail.conf.d'' ''web'') =
       Some (jailConfTmpl (jail_conf_data_of ''web'' ''/j/web/root'' [] demo_jail_spec))"
proof -
  obtain w' where "run_state (writeJailConf ref_host ''/etc/jail.conf.d'' ''web'' ''/j/web/root'' [] demo_jail_spec) demo_jail_world = (Inr True, w')"
    using demo_conf_run by (metis prod.collapse)
  with conf_change_flag_exact[OF ref_host_no_faults this] show ?thesis by blast
qed

section \<open>The fstab\<close>

lemma Fields_Join_space:
  assumes "is_space c" and "\<forall>x \<in> set xs. no_space x"
  shows "Fields (Join xs [c]) = xs"
  using assms(2)
proof (induction xs)
  case (Cons x xs)
  then have x: "x \<noteq> []" "\<forall>c \<in> set x. \<not> is_space c" by (auto simp: no_space_def)
  show ?case
  proof (cases "xs = []")
    case True
    with x show ?thesis using fields_acc_word[of x "[]" "[]"] by (simp add: Fields_def)
  next
    case False
    have "Fields (Join (x # xs) [c]) = x # Fields (Join xs [c])"
      using False x assms(1) fields_acc_word[of x "[]"] by (simp add: Join_Cons Fields_def)
    with Cons show ?thesis by simp
  qed
qed (simp add: Fields_def)

text \<open>What \<^verbatim>\<open>mount(8)\<close> reads from an fstab: the fields of the lines that are not comments.\<close>

definition fstab_read :: "string \<Rightarrow> fstab_entry list" where
  "fstab_read text = List.map_filter (\<lambda>l. if HasPrefix l ''#'' then None else (case Fields l of
       [d, m, t, p, _, _] \<Rightarrow> Some \<lparr>fe_device = d, fe_mountpoint = m, fe_type = t, fe_options = p\<rparr>
     | _ \<Rightarrow> None)) (Split (CHR 10) text)"

definition entry_ok :: "fstab_entry \<Rightarrow> bool" where
  "entry_ok e \<longleftrightarrow> no_space (fe_device e) \<and> \<not> HasPrefix (fe_device e) ''#'' \<and> no_space (fe_mountpoint e) \<and>
     no_space (fe_type e) \<and> no_space (fe_options e)"

lemma no_space_newline: "no_space x \<Longrightarrow> CHR 10 \<notin> set x"
  by (auto simp: no_space_def is_space_def)

lemma set_Join: "set (Join xs sep) \<subseteq> \<Union> (set ` set xs) \<union> set sep"
  by (induction xs sep rule: Join.induct) auto

definition fstab_fields :: "fstab_entry \<Rightarrow> string" where
  "fstab_fields e = Join [fe_device e, fe_mountpoint e, fe_type e, fe_options e, ''0'', ''0''] [CHR 9]"

lemma fstab_fields_ok:
  assumes "entry_ok e"
  shows "CHR 10 \<notin> set (fstab_fields e)" and "\<not> HasPrefix (fstab_fields e) ''#''"
    and "Fields (fstab_fields e) = [fe_device e, fe_mountpoint e, fe_type e, fe_options e, ''0'', ''0'']"
proof -
  let ?xs = "[fe_device e, fe_mountpoint e, fe_type e, fe_options e, ''0'', ''0'']"
  have xs: "\<forall>x \<in> set ?xs. no_space x" using assms by (auto simp: entry_ok_def no_space_def is_space_def)
  then show "Fields (fstab_fields e) = ?xs" unfolding fstab_fields_def by (intro Fields_Join_space) (auto simp: is_space_def)
  show "CHR 10 \<notin> set (fstab_fields e)"
    using set_Join[of ?xs "[CHR 9]"] xs no_space_newline unfolding fstab_fields_def by fastforce
  show "\<not> HasPrefix (fstab_fields e) ''#''"
    using assms by (cases "fe_device e") (auto simp: fstab_fields_def entry_ok_def no_space_def HasPrefix_def)
qed

lemma fstab_roundtrip:
  assumes "\<forall>e \<in> set es. entry_ok e"
  shows "fstab_read (fstabTmpl es) = es"
proof -
  define hd_line where "hd_line = ''# Managed by nodemanager '' @ [CHR 0xE2, CHR 0x80, CHR 0x94] @ '' do not edit manually.''"
  have hd: "CHR 10 \<notin> set hd_line" "HasPrefix hd_line ''#''" unfolding hd_line_def by (code_simp, code_simp)
  have rendered: "fstabTmpl es = concat (map (\<lambda>l. l @ [CHR 10]) (hd_line # map fstab_fields es))"
  proof -
    have "fstab_line = (\<lambda>e. fstab_fields e @ [CHR 10])"
      by (simp only: fun_eq_iff fstab_line_def line_def fstab_fields_def simp_thms)
    moreover have "fstab_header = hd_line @ [CHR 10]"
      by (simp only: fstab_header_def line_def hd_line_def)
    ultimately show ?thesis by (simp add: fstabTmpl_def comp_def)
  qed
  have "Split (CHR 10) (fstabTmpl es) = (hd_line # map fstab_fields es) @ [[]]"
    unfolding rendered by (rule Split_lines) (use hd assms fstab_fields_ok(1) in auto)
  moreover have "List.map_filter f (map fstab_fields es @ [[]]) = es"
    if "\<And>e. e \<in> set es \<Longrightarrow> f (fstab_fields e) = Some e" "f [] = None" for f
    using that by (induction es) (auto simp: List.map_filter_def)
  ultimately show ?thesis
    using assms fstab_fields_ok hd(2) by (simp add: fstab_read_def List.map_filter_simps Fields_def)
qed

lemma clean_acc_set: "rooted \<Longrightarrow> set (clean_acc rooted out xs) \<subseteq> set out \<union> set xs"
proof (induction rooted out xs rule: clean_acc.induct)
  case (2 rooted out x xs)
  then show ?case by (cases out) (auto split: if_splits)
qed simp

lemma Split_set: "p \<in> set (Split c s) \<Longrightarrow> set p \<subseteq> set s"
proof (induction s arbitrary: p)
  case (Cons x s)
  then show ?case by (cases "Split c s") (fastforce split: if_splits)+
qed simp

lemma Clean_abs_chars: "hd p = slash \<Longrightarrow> p \<noteq> [] \<Longrightarrow> set (Clean p) \<subseteq> insert slash (set p)"
  using set_Join[of "rev (clean_acc True [] (Split slash p))" "''/''"] clean_acc_set[of True "[]" "Split slash p"]
    Split_set[of _ slash p]
  by (fastforce simp: Clean_def Let_def)

definition below :: "string \<Rightarrow> string \<Rightarrow> bool" where
  "below root p \<longleftrightarrow> p = root \<or> HasPrefix p (root @ ''/'')"

lemma mountpoint_ok:
  assumes root: "root = abs_path cs" "list_all plain cs" "cs \<noteq> []" "no_space root"
    and m: "no_space (jm_jailPath m)" "''..'' \<notin> set (Split slash (jm_jailPath m))"
  shows "no_space (filepath_Join [root, jm_jailPath m])" and "below root (filepath_Join [root, jm_jailPath m])"
proof -
  show b: "below root (filepath_Join [root, jm_jailPath m])"
    using filepath_Join_below[OF root(2,3) m(2)] root(1) by (simp add: below_def)
  have "root \<noteq> []" "hd root = slash" using root(1) by (auto simp: abs_path_def)
  then have "set (filepath_Join [root, jm_jailPath m]) \<subseteq> insert slash (set root \<union> set (jm_jailPath m))"
    using Clean_abs_chars[of "root @ ''/'' @ jm_jailPath m"] by (auto simp: filepath_Join_def)
  moreover have "filepath_Join [root, jm_jailPath m] \<noteq> []"
    using b \<open>root \<noteq> []\<close> by (auto simp: below_def HasPrefix_iff)
  moreover have "\<not> is_space slash" by (simp add: is_space_def)
  ultimately show "no_space (filepath_Join [root, jm_jailPath m])"
    using root(4) m(1) by (auto simp: no_space_def)
qed

definition mount_ok :: "jail_mount \<Rightarrow> bool" where
  "mount_ok m \<longleftrightarrow> no_space (jm_hostPath m) \<and> \<not> HasPrefix (jm_hostPath m) ''#'' \<and> no_space (jm_jailPath m) \<and>
     ''..'' \<notin> set (Split slash (jm_jailPath m)) \<and> (jm_type m = [] \<or> no_space (jm_type m))"

lemma entry_of_ok:
  assumes "root = abs_path cs" "list_all plain cs" "cs \<noteq> []" "no_space root" and m: "mount_ok m"
  shows "entry_ok (fstab_entry_of root m)" and "below root (fe_mountpoint (fstab_entry_of root m))"
  using m mountpoint_ok[OF assms(1-4), of m]
  by (auto simp: entry_ok_def fstab_entry_of_def mount_ok_def) (auto simp: no_space_def is_space_def)

text \<open>The fstab of a jail reads back as its declared mounts. After a successful \<open>writeFstab\<close> for
  mounts without white space in their names and without \<^verbatim>\<open>..\<close> in their paths inside the jail, the
  file parses to exactly the declared mounts, in order, with \<^verbatim>\<open>nullfs\<close> and \<^verbatim>\<open>rw\<close> as defaults, and every
  mount point lies inside the root of the jail.\<close>

theorem fstab_mounts_declared:
  assumes "no_faults h" and "run_state (writeFstab h p root mounts) w = (Inr changed, w')"
    and root: "root = abs_path cs" "list_all plain cs" "cs \<noteq> []" "no_space root"
    and mounts: "\<forall>m \<in> set mounts. mount_ok m"
  shows "\<exists>txt. content_at (w_fs w') p = Some txt \<and> fstab_read txt = map (fstab_entry_of root) mounts \<and>
    (\<forall>e \<in> set (fstab_read txt). below root (fe_mountpoint e))"
proof -
  let ?es = "map (fstab_entry_of root) mounts"
  have "content_at (w_fs w') p = Some (fstabTmpl ?es)"
    using mkdir_rewrite_ok(1)[OF assms(1)] assms(2) unfolding writeFstab_def by blast
  moreover have "\<forall>e \<in> set ?es. entry_ok e" and b: "\<forall>e \<in> set ?es. below root (fe_mountpoint e)"
    using mounts entry_of_ok[OF root] by auto
  ultimately show ?thesis using fstab_roundtrip[of ?es] by auto
qed

lemma demo_fstab_run:
  "fst (run_state (writeFstab ref_host ''/j/web/fstab'' ''/j/web/root'' (js_mounts demo_jail_spec)) demo_jail_world) = Inr False"
  by code_simp

theorem fstab_mounts_declared_witness:
  "\<exists>w' txt. run_state (writeFstab ref_host ''/j/web/fstab'' ''/j/web/root'' (js_mounts demo_jail_spec)) demo_jail_world = (Inr False, w') \<and>
     content_at (w_fs w') ''/j/web/fstab'' = Some txt \<and>
     fstab_read txt = [\<lparr>fe_device = ''/data'', fe_mountpoint = ''/j/web/root/srv'', fe_type = ''nullfs'', fe_options = ''ro''\<rparr>]"
proof -
  obtain w' where run: "run_state (writeFstab ref_host ''/j/web/fstab'' ''/j/web/root'' (js_mounts demo_jail_spec)) demo_jail_world = (Inr False, w')"
    using demo_fstab_run by (metis prod.collapse)
  have root: "''/j/web/root'' = abs_path [''j'', ''web'', ''root'']" "list_all plain [''j'', ''web'', ''root'']" "[''j'', ''web'', ''root''] \<noteq> []"
      "no_space ''/j/web/root''"
    by (simp_all add: abs_path_def plain_def no_space_def is_space_def)
  have ok: "\<forall>m \<in> set (js_mounts demo_jail_spec). mount_ok m"
    by (simp add: demo_jail_spec_def mount_ok_def no_space_def is_space_def HasPrefix_def)
  have "map (fstab_entry_of ''/j/web/root'') (js_mounts demo_jail_spec) =
      [\<lparr>fe_device = ''/data'', fe_mountpoint = ''/j/web/root/srv'', fe_type = ''nullfs'', fe_options = ''ro''\<rparr>]"
    by code_simp
  with fstab_mounts_declared[OF ref_host_no_faults run root ok] run show ?thesis by auto
qed

section \<open>Running jails\<close>

text \<open>The output of \<^verbatim>\<open>jls -v --libxo=json\<close> for a list of jails.\<close>

definition jls_json :: "jls_jail \<Rightarrow> json" where
  "jls_json r = JObj [(''jid'', JNum (nat_digits (nat (jl_jid r)))), (''hostname'', JStr (jl_hostname r)),
     (''path'', JStr (jl_path r)), (''name'', JStr (jl_name r)), (''state'', JStr (jl_state r)),
     (''cpusetid'', JNum (nat_digits (nat (jl_cpusetid r)))), (''ipv4_addrs'', JArr (map JStr (jl_ipv4_addrs r))),
     (''ipv6_addrs'', JArr (map JStr (jl_ipv6_addrs r)))]"

definition jls_text :: "jls_jail list \<Rightarrow> string" where
  "jls_text jails = json_print (JObj [(''__version'', JStr ''2''),
     (''jail-information'', JObj [(''jail'', JArr (map jls_json jails))])])"

definition jls_ok :: "jls_jail \<Rightarrow> bool" where
  "jls_ok r \<longleftrightarrow> 0 \<le> jl_jid r \<and> jl_jid r < 2 ^ 63 \<and> 0 \<le> jl_cpusetid r \<and> jl_cpusetid r < 2 ^ 63 \<and>
     plain_str (jl_hostname r) \<and> plain_str (jl_path r) \<and> plain_str (jl_name r) \<and> plain_str (jl_state r) \<and>
     list_all plain_str (jl_ipv4_addrs r) \<and> list_all plain_str (jl_ipv6_addrs r)"

lemma Atoi_nonneg: "0 \<le> i \<Longrightarrow> i < 2 ^ 63 \<Longrightarrow> Atoi (nat_digits (nat i)) = Some i"
  using Atoi_nat_digits[of "nat i"] by (simp add: nat_less_iff)

lemma dec_jls_json:
  assumes "jls_ok r"
  shows "dec_jls_jail (jls_json r) zero_jls_jail = Some r"
proof -
  have "dec_elems dec_string [] (map JStr xs) [] = Some xs" for xs
    by (rule dec_elems_map) (simp add: dec_string_def)
  then show ?thesis
    using assms
    by (simp add: dec_jls_jail_def jls_json_def dec_struct_def jls_fields_def find_field_def set_jls_field_def
        dec_int_def dec_string_def dec_slice_def zero_jls_jail_def jls_ok_def Atoi_nonneg)
qed

lemma plain_jls_json: "jls_ok r \<Longrightarrow> plain_json (max_nesting - 3) (jls_json r)"
  by (auto simp: jls_json_def jls_ok_def max_nesting_def plain_str_def byte_in_def list_all_iff)

lemma json_parse_jls_text:
  assumes "\<forall>r \<in> set jails. jls_ok r"
  shows "json_parse (jls_text jails) = Some (JObj [(''__version'', JStr ''2''),
     (''jail-information'', JObj [(''jail'', JArr (map jls_json jails))])])"
  unfolding jls_text_def
proof (rule json_roundtrip)
  have "\<forall>x \<in> set (map jls_json jails). plain_json (max_nesting - 3) x" using assms plain_jls_json by auto
  then show "plain_json max_nesting (JObj [(''__version'', JStr ''2''),
     (''jail-information'', JObj [(''jail'', JArr (map jls_json jails))])])"
    by (simp add: plain_str_def byte_in_def max_nesting_def del: set_map)
qed

lemma jls_text_nonempty: "jls_text jails \<noteq> []"
  by (simp add: jls_text_def)

lemma dec_jls_output_text:
  assumes "\<forall>r \<in> set jails. jls_ok r"
  shows "json_Unmarshal dec_jls_output \<lparr>jo_version = [], jo_jails = []\<rparr> (jls_text jails) =
    Inr \<lparr>jo_version = ''2'', jo_jails = jails\<rparr>"
proof -
  have "dec_elems dec_jls_jail zero_jls_jail (map jls_json jails) [] = Some jails"
    by (rule dec_elems_map) (use assms dec_jls_json in auto)
  then show ?thesis
    by (simp add: json_Unmarshal_def json_parse_jls_text[OF assms] dec_jls_output_def dec_struct_def find_field_def
        dec_string_def dec_jail_information_def dec_slice_def)
qed

text \<open>C34: The running jails are read back from what \<^verbatim>\<open>jls\<close> prints. When \<^verbatim>\<open>jls\<close> exits with code 0 and
  prints the jails in JSON, \<open>listRunningJails\<close> returns exactly these jails, field by field and in order,
  and \<open>isJailRunning\<close> holds for exactly their names.\<close>

theorem jls_roundtrip:
  assumes "\<forall>r \<in> set jails. jls_ok r"
    and "h_exec h jlsCmd [''-v'', ''--libxo=json''] [] (w_fs w, w_ext w) = (Exited 0 (jls_text jails) er, f, x)"
  shows "fst (run_state (listRunningJails h) w) = Inr jails \<and>
    fst (run_state (isJailRunning h name) w) = Inr (name \<in> set (map jl_name jails))"
  using assms(2) dec_jls_output_text[OF assms(1)] jls_text_nonempty[of jails]
  by (auto simp: isJailRunning_def listRunningJails_def RunCommand_def run_proc_def proc_result_def list_ex_iff)

definition demo_jls :: "jls_jail list" where
  "demo_jls = [\<lparr>jl_jid = 7, jl_hostname = ''web'', jl_path = ''/j/web/root'', jl_name = ''web'', jl_state = ''ACTIVE'',
     jl_cpusetid = 3, jl_ipv4_addrs = [''10.0.0.2''], jl_ipv6_addrs = []\<rparr>]"

definition jls_host :: "api host" where
  "jls_host = ref_host\<lparr>h_exec := (\<lambda>cmd args stdin (f, x). (Exited 0 (jls_text demo_jls) [], f, x))\<rparr>"

theorem jls_roundtrip_witness:
  "fst (run_state (isJailRunning jls_host ''web'') demo_jail_world) = Inr True \<and>
   fst (run_state (isJailRunning jls_host ''db'') demo_jail_world) = Inr False"
proof -
  have ok: "\<forall>r \<in> set demo_jls. jls_ok r" by (simp add: demo_jls_def jls_ok_def plain_str_def byte_in_def)
  have run: "h_exec jls_host jlsCmd [''-v'', ''--libxo=json''] [] (w_fs demo_jail_world, w_ext demo_jail_world) =
      (Exited 0 (jls_text demo_jls) [], w_fs demo_jail_world, w_ext demo_jail_world)" by (simp add: jls_host_def)
  have names: "set (map jl_name demo_jls) = {''web''}" by (simp add: demo_jls_def)
  show ?thesis
    using jls_roundtrip[OF ok run, of "''web''"] jls_roundtrip[OF ok run, of "''db''"] unfolding names by simp
qed

section \<open>Unmounting\<close>

definition mount_order :: "string \<Rightarrow> int \<times> string" where
  "mount_order mp = (- int (length mp), mp)"

lemma longer_first_less: "longer_first a b < 0 \<longleftrightarrow> mount_order a < mount_order b"
  by (auto simp: longer_first_def mount_order_def)

text \<open>The commands among the events, without their exit codes.\<close>

definition commands :: "event list \<Rightarrow> (string \<times> string list) list" where
  "commands es = List.map_filter (\<lambda>e. case e of EvExec c a _ _ \<Rightarrow> Some (c, a) | _ \<Rightarrow> None) es"

lemma commands_simps [simp]:
  "commands [] = []" "commands (xs @ ys) = commands xs @ commands ys" "commands (EvExec c a i n # es) = (c, a) # commands es"
  "commands (EvCall k b # es) = commands es" "commands (EvApi v x b # es) = commands es"
  by (auto simp: commands_def List.map_filter_def)

lemma does_umount_each:
  "does (\<lambda>r es. commands es = map (\<lambda>mp. (''umount'', [''-f'', mp])) mps) (umount_each h mps)"
proof (induction mps)
  case (Cons mp mps)
  show ?case
    unfolding umount_each.simps
    by (rule does_bind[OF does_SimpleRunCommand]) (use Cons in \<open>auto elim!: does_mono\<close>)
qed (simp add: does_ret)

text \<open>No mount point comes after one it lies below.\<close>

definition inside_out :: "string list \<Rightarrow> bool" where
  "inside_out mps \<longleftrightarrow> (\<forall>i j. i < j \<longrightarrow> j < length mps \<longrightarrow> \<not> HasPrefix (mps ! j) (mps ! i @ ''/''))"

lemma sort_inside_out: "inside_out (insertion_sort longer_first mps)"
proof -
  let ?s = "sort_key mount_order mps"
  have sort: "insertion_sort longer_first mps = ?s" by (rule insertion_sort_sort_key) (rule longer_first_less)
  have "length (?s ! j) \<le> length (?s ! i)" if "i < j" "j < length ?s" for i j
  proof -
    have "mount_order (?s ! i) \<le> mount_order (?s ! j)"
      using sorted_nth_mono[of "map mount_order ?s" i j] that by (simp add: sorted_sort_key)
    then show ?thesis by (auto simp: mount_order_def)
  qed
  then show ?thesis unfolding sort inside_out_def by (fastforce simp: HasPrefix_iff)
qed

text \<open>Unmounting the rest of a jail. When \<^verbatim>\<open>mount -p\<close> answers with a table, \<open>unmountAll\<close> unmounts
  exactly the mount points of the table that lie strictly below the root of the jail, as often as they
  are mounted, each before anything it lies below; when the command fails, nothing is unmounted.\<close>

theorem unmount_inside_out:
  assumes "h_exec h ''mount'' [''-p''] [] (w_fs w, w_ext w) = (p, f, x)"
    and "run_state (unmountAll h root) w = (u, w')"
  shows "\<exists>es mps. w_trace w' = w_trace w @ es \<and>
    commands es = (''mount'', [''-p'']) # map (\<lambda>mp. (''umount'', [''-f'', mp])) mps \<and>
    (case p of Exited n out er \<Rightarrow> mset mps = (if n = 0 then mset (mount_points root out) else {#}) | _ \<Rightarrow> mps = []) \<and>
    inside_out mps \<and> (\<forall>mp \<in> set mps. HasPrefix mp (root @ ''/''))"
proof -
  let ?w = "w\<lparr>w_fs := f, w_ext := x, w_trace := w_trace w @ [EvExec ''mount'' [''-p''] [] (exit_code p)]\<rparr>"
  have run: "run_state (RunCommand h ''mount'' [''-p'']) w = (proc_result ''mount'' [''-p''] p, ?w)"
    by (simp add: RunCommand_def run_proc_def assms(1))
  show ?thesis
  proof (cases "exit_code p = 0")
    case True
    then obtain out er where p: "p = Exited 0 out er" by (cases p) auto
    let ?mps = "insertion_sort longer_first (mount_points root out)"
    have "run_state (umount_each h ?mps) ?w = (u, w')"
      using assms(2) run by (simp add: unmountAll_def p proc_result_def)
    from doesD[OF does_umount_each this] obtain es where es: "w_trace w' = w_trace ?w @ es"
      "commands es = map (\<lambda>mp. (''umount'', [''-f'', mp])) ?mps" by blast
    have set: "set ?mps = set (mount_points root out)" by (metis mset_insertion_sort set_mset_mset)
    show ?thesis
      by (rule exI[of _ "EvExec ''mount'' [''-p''] [] 0 # es"], rule exI[of _ ?mps])
        (use es sort_inside_out set in \<open>auto simp: p mount_points_def\<close>)
  next
    case False
    then have "snd (snd (proc_result ''mount'' [''-p''] p)) \<noteq> None" using proc_result_ok by blast
    then have "w' = ?w" using assms(2) run by (auto simp: unmountAll_def split: prod.splits)
    then show ?thesis
      by (intro exI[of _ "[EvExec ''mount'' [''-p''] [] (exit_code p)]"] exI[of _ "[]"])
        (use False in \<open>auto simp: inside_out_def split: proc.split\<close>)
  qed
qed

definition mount_table :: string where
  "mount_table = concat (map line [''zroot / zfs rw'', ''a /j/web/root/dev devfs rw'',
     ''b /j/web/root/srv/x nullfs rw'', ''c /j/web/root/srv nullfs rw''])"

definition mount_host :: "api host" where
  "mount_host = ref_host\<lparr>h_exec := (\<lambda>cmd args stdin (f, x). (Exited 0 mount_table [], f, x))\<rparr>"

lemma mount_host_points:
  "mount_points ''/j/web/root'' mount_table = [''/j/web/root/dev'', ''/j/web/root/srv/x'', ''/j/web/root/srv'']"
  by code_simp

theorem unmount_inside_out_witness:
  "\<exists>u w' es mps. run_state (unmountAll mount_host ''/j/web/root'') demo_jail_world = (u, w') \<and> w_trace w' = es \<and>
     commands es = (''mount'', [''-p'']) # map (\<lambda>mp. (''umount'', [''-f'', mp])) mps \<and>
     mset mps = {#''/j/web/root/dev'', ''/j/web/root/srv/x'', ''/j/web/root/srv''#} \<and> inside_out mps"
proof -
  obtain u w' where run: "run_state (unmountAll mount_host ''/j/web/root'') demo_jail_world = (u, w')" by (metis surj_pair)
  have exec: "h_exec mount_host ''mount'' [''-p''] [] (w_fs demo_jail_world, w_ext demo_jail_world) =
      (Exited 0 mount_table [], w_fs demo_jail_world, w_ext demo_jail_world)"
    by (simp add: mount_host_def)
  have "w_trace demo_jail_world = []" by (simp add: demo_jail_world_def)
  with unmount_inside_out[OF exec run] run show ?thesis
    by (simp add: mount_host_points) blast
qed

section \<open>Origins\<close>

text \<open>The release of a clone is the last component of the dataset its snapshot belongs to.\<close>

lemma releaseFromOrigin_snapshot:
  assumes "mg_dataset m = rel_path ds" "ds \<noteq> []" "list_all plain ds" "plain release"
    and "\<forall>c \<in> set ds. CHR 0x40 \<notin> set c" "CHR 0x40 \<notin> set release"
  shows "releaseFromOrigin (release_dataset m release @ ''@'' @ name) = release"
proof -
  let ?cs = "ds @ [ReleaseRootDir, release]"
  have plain: "list_all plain ?cs" using assms by (auto simp: ReleaseRootDir_def plain_def)
  have "CHR 0x40 \<notin> set (rel_path ?cs)"
    using set_Join[of ?cs "''/''"] assms(5,6) by (auto simp: rel_path_def ReleaseRootDir_def)
  moreover have ds: "release_dataset m release = rel_path ?cs"
    unfolding release_dataset_def assms(1) using plain assms(2) by (subst filepath_Join_rel) auto
  ultimately have "hd (SplitN (CHR 0x40) 2 (rel_path ?cs @ ''@'' @ name)) = rel_path ?cs"
    using SplitN2_hd_no_sep by simp
  with ds plain Base_rel_path[of "ds @ [ReleaseRootDir]" release] show ?thesis
    by (simp add: releaseFromOrigin_def)
qed

end
