(* ===== verification/JailCorrect.thy ===== *)
theory JailCorrect
  imports JailController JailConfigCorrect UpgradeCorrect
begin

text \<open>
  What the jail manager and the Jail reconciler guarantee about datasets, deletion, updates and hooks:
  a jail root is destroyed only when it comes from another release, a deletion destroys the datasets of
  its own jail only, the finalizer goes only after the datasets are gone, an update always starts the
  jail again and is recorded only when it succeeded, hooks run in order until one fails.
\<close>

section \<open>Destroying datasets\<close>

definition destroys :: "event \<Rightarrow> bool" where
  "destroys e = (case e of EvExec c (a # as) _ _ \<Rightarrow> c = zfsCmd \<and> a = ''destroy'' | _ \<Rightarrow> False)"

lemma destroys_simps [simp]:
  "destroys (EvExec c (a # as) i n) \<longleftrightarrow> c = zfsCmd \<and> a = ''destroy''" "\<not> destroys (EvExec c [] i n)"
  "\<not> destroys (EvCall k b)" "\<not> destroys (EvApi v x b)"
  by (auto simp: destroys_def)

lemma not_zfs_cmd [simp]:
  "zfsCmd \<noteq> ''jail''" "zfsCmd \<noteq> ''tar''" "zfsCmd \<noteq> ''ifconfig''" "zfsCmd \<noteq> ''pfctl''" "zfsCmd \<noteq> ''umount''"
  "zfsCmd \<noteq> ''mount''" "zfsCmd \<noteq> ''sysrc''" "zfsCmd \<noteq> jlsCmd" "zfsCmd \<noteq> ''jexec''" "zfsCmd \<noteq> ''env''"
  "''jail'' \<noteq> zfsCmd" "''tar'' \<noteq> zfsCmd" "''ifconfig'' \<noteq> zfsCmd" "''pfctl'' \<noteq> zfsCmd" "''umount'' \<noteq> zfsCmd"
  "''mount'' \<noteq> zfsCmd" "''sysrc'' \<noteq> zfsCmd" "jlsCmd \<noteq> zfsCmd" "''jexec'' \<noteq> zfsCmd" "''env'' \<noteq> zfsCmd"
  by (simp_all add: zfsCmd_def jlsCmd_def)

text \<open>Which commands the steps of the manager may run; \<open>c\<close> ranges over command lines.\<close>

lemma emits_manager [emits_rules]:
  "(\<And>n. P (EvExec ''jail'' [''-c'', ''-f'', conf_path (mg_confDir m) name, name] [] n)) \<Longrightarrow> emits P (StartJail h m name)"
  "(\<And>n. P (EvExec ''jail'' [''-r'', name] [] n)) \<Longrightarrow> emits P (StopJail h name)"
  "(\<And>n. P (EvExec ''jexec'' (name # command # args) [] n)) \<Longrightarrow> emits P (ExecInJail h name command args)"
  "(\<And>a n. P (EvExec ''pfctl'' a [] n)) \<Longrightarrow> emits P (FlushAnchor h anchor)"
  "(\<And>a n. P (EvExec ''tar'' a [] n)) \<Longrightarrow> emits P (release_extract h txz dest)"
  "(\<And>n. P (EvExec ''env'' [''PAGER=cat'', ''/usr/sbin/freebsd-update'', ''-b'', root, ''--not-running-from-cron'', ''fetch'', ''install''] [] n)) \<Longrightarrow>
    emits P (UpdateJail h root)"
  unfolding StartJail_def StopJail_def ExecInJail_def FlushAnchor_def release_extract_def UpdateJail_def
  by (intro emits_rules; simp)+

lemma emits_manager_files [emits_rules]:
  "emits P (os_CreateTemp h net)" "emits P (isExtracted h root)" "emits P (installedRelease h root)"
  "emits P (copyHostFiles h root)" "emits P (make_mountpoints h root mts)" "emits P (ensure_fstab h m j)"
  "emits P (ensure_config h m j)"
proof -
  show fstab: "emits P (ensure_fstab h m j)"
  proof -
    have "emits P (make_mountpoints h root mts)" for root mts by (induction mts) (auto intro!: emits_rules)
    then show ?thesis unfolding ensure_fstab_def by (intro emits_rules)
  qed
  show "emits P (make_mountpoints h root mts)" by (induction mts) (auto intro!: emits_rules)
  show "emits P (ensure_config h m j)" unfolding ensure_config_def by (intro emits_rules fstab)
qed (auto simp: os_CreateTemp_def isExtracted_def installedRelease_def copyHostFiles_def copy_host_file_def Let_def
      intro!: emits_rules)

lemma emits_download [emits_rules]: "emits P (download h net url tmp)"
  unfolding download_def by (intro emits_rules) (auto split: http_result.split intro!: emits_rules)

lemma emits_release_Ensure [emits_rules]:
  assumes "\<And>a n. P (EvExec ''tar'' a [] n)" "\<And>ds n. P (EvExec zfsCmd [''list'', ds] [] n)"
    "\<And>opts ds n. P (EvExec zfsCmd (''create'' # opt_args opts @ [ds]) [] n)"
  shows "emits P (release_Ensure h net r version)"
  unfolding release_Ensure_def fetch_release_def using assms by (intro emits_rules)

lemma emits_anchor [emits_rules]:
  assumes "\<And>a i n. P (EvExec ''pfctl'' a i n)"
  shows "emits P (EnsureAnchor h anchor rules)" "emits P (ensure_anchor h j)"
  unfolding ensure_anchor_def EnsureAnchor_def using assms by (intro emits_rules; simp)+

lemma emits_aliases [emits_rules]:
  assumes "\<And>a n. P (EvExec ''ifconfig'' a [] n)"
  shows "emits P (removeIPAliases h spec)"
  unfolding removeIPAliases_def using assms by (intro emits_rules)

lemma emits_cycle [emits_rules]:
  assumes "\<And>a n. P (EvExec ''ifconfig'' a [] n)" "\<And>n. P (EvExec ''jail'' [''-r'', name] [] n)"
    "\<And>n. P (EvExec jlsCmd [''-v'', ''--libxo=json''] [] n)"
  shows "emits P (cycleJailIfNetworkChanged h name spec)"
  unfolding cycleJailIfNetworkChanged_def using assms by (intro emits_rules)

lemma emits_umount [emits_rules]:
  assumes "\<And>a n. P (EvExec ''umount'' a [] n)"
  shows "emits P (umount_each h mps)"
  by (induction mps) (auto intro!: emits_rules assms)

lemma emits_unmountAll [emits_rules]:
  assumes "\<And>a n. P (EvExec ''umount'' a [] n)" "\<And>n. P (EvExec ''mount'' [''-p''] [] n)"
  shows "emits P (unmountAll h root)"
  unfolding unmountAll_def using assms by (intro emits_rules)

section \<open>Replacing a root\<close>

definition stale :: "string \<Rightarrow> string \<Rightarrow> bool" where
  "stale release origin \<longleftrightarrow> origin \<noteq> [] \<and> origin \<noteq> ''-'' \<and> releaseFromOrigin origin \<noteq> release"

definition replaces_root :: "jail_manager \<Rightarrow> jail \<Rightarrow> string \<Rightarrow> event \<Rightarrow> bool" where
  "replaces_root m j origin e \<longleftrightarrow> stale (js_release (j_spec j)) origin \<and>
     (\<exists>n. e = EvExec zfsCmd [''destroy'', ''-r'', ''-f'', jail_root_dataset m (om_name (j_meta j))] [] n \<or>
          e = EvExec zfsCmd [''destroy'', origin] [] n)"

definition only_replaces :: "jail_manager \<Rightarrow> jail \<Rightarrow> event list \<Rightarrow> bool" where
  "only_replaces m j es \<longleftrightarrow> (\<exists>origin. \<forall>e \<in> set es. destroys e \<longrightarrow> replaces_root m j origin e)"

lemma only_replaces_quiet: "list_all (\<lambda>e. \<not> destroys e) es \<Longrightarrow> only_replaces m j es"
  by (auto simp: only_replaces_def list_all_iff)

lemma only_replaces_append:
  "list_all (\<lambda>e. \<not> destroys e) es \<Longrightarrow> only_replaces m j fs \<Longrightarrow> only_replaces m j (es @ fs)"
  "only_replaces m j es \<Longrightarrow> list_all (\<lambda>e. \<not> destroys e) fs \<Longrightarrow> only_replaces m j (es @ fs)"
  by (auto simp: only_replaces_def list_all_iff)

lemma does_drop_stale_root: "does (\<lambda>r es. only_replaces m j es) (drop_stale_root h m j)"
  unfolding drop_stale_root_def Let_def
proof (rule does_or_return[OF does_emits[OF emits_zfs(1)]])
  fix x es assume es: "list_all (\<lambda>e. \<not> destroys e) es"
  let ?ds = "jail_root_dataset m (om_name (j_meta j))"
  let ?P = "\<lambda>e. destroys e \<longrightarrow> replaces_root m j x e"
  have "emits ?P (if x \<noteq> [] \<and> x \<noteq> ''-'' \<and> releaseFromOrigin x \<noteq> js_release (j_spec j) then
      StopJail h (om_name (j_meta j)) \<bind> (\<lambda>_. check (zfs_DestroyDatasetRecursive h ?ds) wrap
        (zfs_DestroyDataset h x \<bind> (\<lambda>_. ret (Inr False)))) else ret (Inr True))" for wrap
    by (intro emits_rules) (auto simp: replaces_root_def stale_def)
  then show "does (\<lambda>r fs. only_replaces m j (es @ fs))
     (if x \<noteq> [] \<and> x \<noteq> ''-'' \<and> releaseFromOrigin x \<noteq> js_release (j_spec j) then
      StopJail h (om_name (j_meta j)) \<bind> (\<lambda>_. check (zfs_DestroyDatasetRecursive h ?ds)
        (Wrap (''destroying stale jail root for '' @ om_name (j_meta j)))
        (zfs_DestroyDataset h x \<bind> (\<lambda>_. ret (Inr False)))) else ret (Inr True))"
    by (intro does_mono[OF does_emits[where P = ?P]] only_replaces_append(1)[OF es]) (auto simp: only_replaces_def list_all_iff)
qed (auto simp: only_replaces_quiet)

text \<open>The steps of \<open>EnsureJail\<close> other than the replacement destroy nothing.\<close>

lemma emits_quiet_clone: "emits (\<lambda>e. \<not> destroys e) (clone_root h m j)"
  unfolding clone_root_def Let_def by (intro emits_rules) auto

lemma does_ensure_root: "does (\<lambda>r es. only_replaces m j es) (ensure_root h m j)"
  unfolding ensure_root_def
proof (rule does_or_fail[OF does_emits[OF emits_zfs(2)]])
  fix ex es assume es: "list_all (\<lambda>e. \<not> destroys e) es"
  have drop: "does (\<lambda>r es. only_replaces m j es) (if ex then drop_stale_root h m j else ret (Inr False))"
    by (auto intro: does_drop_stale_root does_ret simp: only_replaces_quiet)
  have "does (\<lambda>r fs. only_replaces m j (gs @ fs)) (if \<not> ex2 then clone_root h m j else ret None)"
    if "only_replaces m j gs" for gs ex2
    using that emits_quiet_clone[of h m j]
    by (auto intro!: does_mono[OF does_emits] does_ret only_replaces_append(2))
  then have "does (\<lambda>r es. only_replaces m j es)
      (or_fail (if ex then drop_stale_root h m j else ret (Inr False)) id (\<lambda>ex2. if \<not> ex2 then clone_root h m j else ret None))"
    by (intro does_or_fail[OF drop]) simp_all
  then show "does (\<lambda>r fs. only_replaces m j (es @ fs))
      (or_fail (if ex then drop_stale_root h m j else ret (Inr False)) id (\<lambda>ex2. if \<not> ex2 then clone_root h m j else ret None))"
    by (rule does_mono) (rule only_replaces_append(1)[OF es])
qed (auto simp: only_replaces_quiet)

lemma does_quiet_first:
  assumes "emits (\<lambda>e. \<not> destroys e) a" and "does (\<lambda>r es. only_replaces m j es) k"
  shows "does (\<lambda>r es. only_replaces m j es) (check_fail a wrap k)"
  by (rule does_check_fail[OF does_emits[OF assms(1)]])
    (auto simp: only_replaces_quiet intro: does_mono[OF assms(2)] only_replaces_append(1))

lemma does_quiet_last:
  assumes "does (\<lambda>r es. only_replaces m j es) a" and "emits (\<lambda>e. \<not> destroys e) k"
  shows "does (\<lambda>r es. only_replaces m j es) (check_fail a wrap k)"
  by (rule does_check_fail[OF assms(1)]) (auto intro!: does_mono[OF does_emits[OF assms(2)]] only_replaces_append(2))

lemma does_EnsureJail: "does (\<lambda>r es. only_replaces m j es) (EnsureJail h net m j)"
  unfolding EnsureJail_def Let_def
  by (intro does_quiet_first does_quiet_last[OF does_ensure_root] emits_rules)
    (auto simp: destroys_def split: list.split)


text \<open>With the answer of ZFS known, an up-to-date root is kept.\<close>

definition origin_is :: "'h host \<Rightarrow> string \<Rightarrow> string \<Rightarrow> bool" where
  "origin_is h ds origin \<longleftrightarrow> (\<forall>s. \<exists>er s'. h_exec h zfsCmd [''get'', ''-H'', ''-o'', ''value'', ''origin'', ds] [] s =
     (Exited 0 (origin @ [CHR 10]) er, s'))"

lemma TrimSpace_line:
  assumes "no_space x"
  shows "TrimSpace (x @ [CHR 10]) = x"
proof -
  have hd: "\<not> is_space (hd x)" "\<not> is_space (last x)" "x \<noteq> []" using assms by (auto simp: no_space_def)
  then have "dropWhile is_space (x @ [CHR 10]) = x @ [CHR 10]" by (cases x) auto
  moreover have "dropWhile is_space (rev x) = rev x" using hd by (metis dropWhile_eq_self_iff hd_rev)
  ultimately show ?thesis by (simp add: TrimSpace_def Trim_def is_space_def)
qed

lemma GetProperty_origin:
  assumes "origin_is h ds origin" "no_space origin"
  shows "\<exists>w'. run_state (zfs_GetProperty h ds ''origin'') w = (Inr origin, w') \<and>
    (\<exists>n. w_trace w' = w_trace w @ [EvExec zfsCmd [''get'', ''-H'', ''-o'', ''value'', ''origin'', ds] [] n])"
proof -
  obtain er s' where "h_exec h zfsCmd [''get'', ''-H'', ''-o'', ''value'', ''origin'', ds] [] (w_fs w, w_ext w) =
      (Exited 0 (origin @ [CHR 10]) er, s')" using assms(1) unfolding origin_is_def by blast
  then show ?thesis
    by (cases s') (simp add: zfs_GetProperty_def RunCommand_def run_proc_def proc_result_def TrimSpace_line[OF assms(2)])
qed

lemma does_keep_root:
  assumes "origin_is h (jail_root_dataset m (om_name (j_meta j))) origin" "no_space origin"
    and "releaseFromOrigin origin = js_release (j_spec j)"
  shows "does (\<lambda>r es. r = Inr True \<and> list_all (\<lambda>e. \<not> destroys e) es) (drop_stale_root h m j)"
proof (rule doesI)
  fix w r w' assume "run_state (drop_stale_root h m j) w = (r, w')"
  with GetProperty_origin[OF assms(1,2), of w] assms(3)
  show "\<exists>es. w_trace w' = w_trace w @ es \<and> r = Inr True \<and> list_all (\<lambda>e. \<not> destroys e) es"
    by (auto simp: drop_stale_root_def Let_def)
qed

lemma emits_keep_root:
  assumes "origin_is h (jail_root_dataset m (om_name (j_meta j))) origin" "no_space origin"
    and "releaseFromOrigin origin = js_release (j_spec j)"
  shows "emits (\<lambda>e. \<not> destroys e) (EnsureJail h net m j)"
proof -
  have "emits (\<lambda>e. \<not> destroys e) (drop_stale_root h m j)"
    by (rule emits_does, rule does_mono[OF does_keep_root[OF assms]]) simp
  then have "emits (\<lambda>e. \<not> destroys e) (ensure_root h m j)"
    unfolding ensure_root_def by (intro emits_rules emits_quiet_clone) simp_all
  then show ?thesis
    unfolding EnsureJail_def Let_def by (intro emits_rules) (auto simp: destroys_def split: list.split)
qed

text \<open>A root cloned from the declared release survives every reconcile. When ZFS reports as the
  origin of the root the snapshot that \<open>EnsureJail\<close> itself clones for this jail and release, a run of
  \<open>EnsureJail\<close> destroys nothing, whatever else happens.\<close>

theorem current_root_is_kept:
  assumes ds: "mg_dataset m = rel_path ds" "ds \<noteq> []" "list_all plain ds" "\<forall>c \<in> set ds. CHR 0x40 \<notin> set c"
    and rel: "plain (js_release (j_spec j))" "CHR 0x40 \<notin> set (js_release (j_spec j))"
    and origin: "origin = release_dataset m (js_release (j_spec j)) @ ''@'' @ om_name (j_meta j)" "no_space origin"
    and zfs: "origin_is h (jail_root_dataset m (om_name (j_meta j))) origin"
    and run: "run_state (EnsureJail h net m j) w = (r, w')"
  shows "\<exists>es. w_trace w' = w_trace w @ es \<and> (\<forall>e \<in> set es. \<not> destroys e)"
proof -
  have "releaseFromOrigin origin = js_release (j_spec j)"
    unfolding origin(1) by (rule releaseFromOrigin_snapshot) (use ds rel in auto)
  from emitsD[OF emits_keep_root[OF zfs origin(2) this] run] show ?thesis by (auto simp: list_all_iff)
qed

definition demo_manager :: jail_manager where
  "demo_manager = \<lparr>mg_basePath = ''/j'', mg_dataset = ''zroot/nm'', mg_confDir = ''/etc/jail.conf.d'',
     mg_releases = newReleaseManager ''amd64'' ''/j/releases'' ''zroot/nm/releases'' ''https://mirror''\<rparr>"

definition demo_net :: "api net" where
  "demo_net = \<lparr>n_http_get = (\<lambda>u. ret (HttpResponse 200 ''txz'' None)), n_tempName = ret ''/tmp/base''\<rparr>"

definition demo_jail :: jail where
  "demo_jail = \<lparr>j_meta = empty_meta\<lparr>om_name := ''web'', om_namespace := ''ns''\<rparr>, j_spec = demo_jail_spec,
     j_status = \<lparr>jst_conditions = [], jst_release = [], jst_lastUpdate = None, jst_postCreateDone = None\<rparr>\<rparr>"

text \<open>A host on which every command succeeds and every clone comes from one snapshot.\<close>

definition origin_host :: "string \<Rightarrow> api host" where
  "origin_host origin = ref_host\<lparr>h_exec := (\<lambda>cmd args stdin (f, x).
     (Exited 0 (if take 1 args = [''get''] then origin @ [CHR 10] else []) [], f, x))\<rparr>"

lemma origin_host_is: "origin_is (origin_host origin) ds origin"
  by (simp add: origin_is_def origin_host_def)

lemma demo_dataset:
  "mg_dataset demo_manager = rel_path [''zroot'', ''nm'']" "list_all plain [''zroot'', ''nm'']"
  "\<forall>c \<in> set [''zroot'', ''nm'']. CHR 0x40 \<notin> set c"
  by (simp_all add: demo_manager_def rel_path_def plain_def)

lemma demo_origin: "release_dataset demo_manager ''14.2-RELEASE'' = ''zroot/nm/releases/14.2-RELEASE''"
  by code_simp

theorem current_root_is_kept_witness:
  "\<exists>r w'. run_state (EnsureJail (origin_host ''zroot/nm/releases/14.2-RELEASE@web'') demo_net demo_manager demo_jail) demo_jail_world = (r, w') \<and>
     (\<forall>e \<in> set (w_trace w'). \<not> destroys e)"
proof -
  obtain r w' where run: "run_state (EnsureJail (origin_host ''zroot/nm/releases/14.2-RELEASE@web'') demo_net demo_manager demo_jail) demo_jail_world = (r, w')"
    by (metis surj_pair)
  have j: "js_release (j_spec demo_jail) = ''14.2-RELEASE''" "om_name (j_meta demo_jail) = ''web''"
    by (simp_all add: demo_jail_def demo_jail_spec_def)
  have "\<exists>es. w_trace w' = w_trace demo_jail_world @ es \<and> (\<forall>e \<in> set es. \<not> destroys e)"
    by (rule current_root_is_kept[OF demo_dataset(1) _ demo_dataset(2,3) _ _ _ _ origin_host_is run])
      (simp_all add: j demo_origin plain_def no_space_def is_space_def)
  with run show ?thesis by (auto simp: demo_jail_world_def)
qed


section \<open>Deleting a jail\<close>

definition jail_snapshot :: "jail_manager \<Rightarrow> string \<Rightarrow> string \<Rightarrow> string" where
  "jail_snapshot m release name = mg_dataset m @ ''/'' @ ReleaseRootDir @ ''/'' @ release @ ''@'' @ name"

text \<open>What the commands on record show of a dataset: absent, or destroyed.\<close>

definition gone :: "string list \<Rightarrow> string \<Rightarrow> event list \<Rightarrow> bool" where
  "gone opts ds es \<longleftrightarrow> EvExec zfsCmd [''list'', ds] [] 1 \<in> set es \<or>
     EvExec zfsCmd (''destroy'' # opts @ [ds]) [] 0 \<in> set es"

definition torn_down :: "jail_manager \<Rightarrow> jail \<Rightarrow> event list \<Rightarrow> bool" where
  "torn_down m j es \<longleftrightarrow> gone [''-r'', ''-f''] (jail_dataset m (om_name (j_meta j))) es \<and>
     (js_release (j_spec j) \<noteq> [] \<longrightarrow> gone [] (jail_snapshot m (js_release (j_spec j)) (om_name (j_meta j))) es)"

lemma gone_append: "gone opts ds es \<Longrightarrow> gone opts ds (fs @ es)" "gone opts ds es \<Longrightarrow> gone opts ds (es @ fs)"
  by (auto simp: gone_def)

lemma does_zfs_Exists:
  "does (\<lambda>r es. \<exists>n. es = [EvExec zfsCmd [''list'', ds] [] n] \<and> (r = Inr False \<longleftrightarrow> n = 1)) (zfs_Exists h ds)"
  unfolding zfs_Exists_def
  by (rule does_bind[OF does_RunCommand]) (auto split: prod.split option.split intro!: does_ret)

lemma does_destroy_if_exists:
  assumes "\<And>ds. does (\<lambda>r es. \<exists>n. es = [EvExec zfsCmd (''destroy'' # opts @ [ds]) [] n] \<and> (r = None \<longleftrightarrow> n = 0)) (destroy ds)"
  shows "does (\<lambda>r es. (r = None \<longrightarrow> gone opts ds es) \<and>
      (\<forall>e \<in> set es. destroys e \<longrightarrow> (\<exists>n. e = EvExec zfsCmd (''destroy'' # opts @ [ds]) [] n)))
    (or_fail (zfs_Exists h ds) wrap1 (\<lambda>ex. check_fail (if ex then destroy ds else ret None) wrap2 (ret None)))"
proof (rule does_or_fail[OF does_zfs_Exists])
  fix ex es assume es: "\<exists>n. es = [EvExec zfsCmd [''list'', ds] [] n] \<and> (Inr ex = Inr False \<longleftrightarrow> n = 1)"
  show "does (\<lambda>r fs. (r = None \<longrightarrow> gone opts ds (es @ fs)) \<and>
      (\<forall>e \<in> set (es @ fs). destroys e \<longrightarrow> (\<exists>n. e = EvExec zfsCmd (''destroy'' # opts @ [ds]) [] n)))
     (check_fail (if ex then destroy ds else ret None) wrap2 (ret None))"
  proof (cases ex)
    case True
    have "does (\<lambda>r fs. (r = None \<longrightarrow> gone opts ds (es @ fs)) \<and>
      (\<forall>e \<in> set (es @ fs). destroys e \<longrightarrow> (\<exists>n. e = EvExec zfsCmd (''destroy'' # opts @ [ds]) [] n)))
     (check_fail (destroy ds) wrap2 (ret None))"
      by (rule does_check_fail[OF assms]) (use es True in \<open>auto intro!: does_ret simp: gone_def\<close>)
    with True show ?thesis by simp
  next
    case False
    then show ?thesis using es by (auto simp: check_fail_def gone_def intro!: does_ret)
  qed
qed auto

definition own_destroy :: "jail_manager \<Rightarrow> jail \<Rightarrow> event \<Rightarrow> bool" where
  "own_destroy m j e \<longleftrightarrow> (\<exists>n.
     e = EvExec zfsCmd [''destroy'', ''-r'', ''-f'', jail_dataset m (om_name (j_meta j))] [] n \<or>
     e = EvExec zfsCmd [''destroy'', jail_snapshot m (js_release (j_spec j)) (om_name (j_meta j))] [] n)"

definition teardown :: "jail_manager \<Rightarrow> jail \<Rightarrow> err option \<Rightarrow> event list \<Rightarrow> bool" where
  "teardown m j r es \<longleftrightarrow> (r = None \<longrightarrow> torn_down m j es) \<and> (\<forall>e \<in> set es. destroys e \<longrightarrow> own_destroy m j e)"

lemma does_destroy_parts:
  "does (\<lambda>r es. (r = None \<longrightarrow> gone [''-r'', ''-f''] (jail_dataset m (om_name (j_meta j))) es) \<and>
     (\<forall>e \<in> set es. destroys e \<longrightarrow> own_destroy m j e)) (destroy_jail_datasets h m j)"
  "does (\<lambda>r es. (r = None \<longrightarrow> js_release (j_spec j) \<noteq> [] \<longrightarrow>
       gone [] (jail_snapshot m (js_release (j_spec j)) (om_name (j_meta j))) es) \<and>
     (\<forall>e \<in> set es. destroys e \<longrightarrow> own_destroy m j e)) (destroy_release_snapshot h m j)"
proof -
  have 1: "does (\<lambda>r es. \<exists>n. es = [EvExec zfsCmd (''destroy'' # [''-r'', ''-f''] @ [ds]) [] n] \<and> (r = None \<longleftrightarrow> n = 0))
      (zfs_DestroyDatasetRecursive h ds)" for ds
    using does_SimpleRunCommand by (simp add: zfs_DestroyDatasetRecursive_def)
  have 2: "does (\<lambda>r es. \<exists>n. es = [EvExec zfsCmd (''destroy'' # [] @ [ds]) [] n] \<and> (r = None \<longleftrightarrow> n = 0))
      (zfs_DestroyDataset h ds)" for ds
    using does_SimpleRunCommand by (simp add: zfs_DestroyDataset_def)
  show "does (\<lambda>r es. (r = None \<longrightarrow> gone [''-r'', ''-f''] (jail_dataset m (om_name (j_meta j))) es) \<and>
     (\<forall>e \<in> set es. destroys e \<longrightarrow> own_destroy m j e)) (destroy_jail_datasets h m j)"
    unfolding destroy_jail_datasets_def Let_def
    by (rule does_mono[OF does_destroy_if_exists[OF 1]]) (auto simp: own_destroy_def)
  show "does (\<lambda>r es. (r = None \<longrightarrow> js_release (j_spec j) \<noteq> [] \<longrightarrow>
       gone [] (jail_snapshot m (js_release (j_spec j)) (om_name (j_meta j))) es) \<and>
     (\<forall>e \<in> set es. destroys e \<longrightarrow> own_destroy m j e)) (destroy_release_snapshot h m j)"
    unfolding destroy_release_snapshot_def Let_def jail_snapshot_def[symmetric]
    by (rule does_if) (auto intro!: does_ret does_mono[OF does_destroy_if_exists[OF 2]] simp: own_destroy_def)
qed

lemma does_destroy_all:
  "does (teardown m j) (check_fail (destroy_jail_datasets h m j) id (destroy_release_snapshot h m j))"
proof (rule does_check_fail[OF does_destroy_parts(1)])
  fix es assume es: "(None = None \<longrightarrow> gone [''-r'', ''-f''] (jail_dataset m (om_name (j_meta j))) es) \<and>
     (\<forall>e \<in> set es. destroys e \<longrightarrow> own_destroy m j e)"
  show "does (\<lambda>r fs. teardown m j r (es @ fs)) (destroy_release_snapshot h m j)"
    by (rule does_mono[OF does_destroy_parts(2)[of j m h]])
      (use es gone_append in \<open>auto simp: teardown_def torn_down_def\<close>)
qed (auto simp: teardown_def)

text \<open>Steps that destroy nothing before a teardown.\<close>

lemma teardown_prefix: "list_all (\<lambda>e. \<not> destroys e) es \<Longrightarrow> teardown m j r fs \<Longrightarrow> teardown m j r (es @ fs)"
  by (auto simp: teardown_def torn_down_def list_all_iff gone_append)

lemma does_teardown_bind:
  assumes "emits (\<lambda>e. \<not> destroys e) a" and "\<And>x. does (teardown m j) (k x)"
  shows "does (teardown m j) (State_Monad.bind a k)"
  by (rule does_bind[OF does_emits[OF assms(1)]]) (auto intro: does_mono[OF assms(2)] teardown_prefix)

lemma does_teardown_check:
  assumes "emits (\<lambda>e. \<not> destroys e) a" and "does (teardown m j) k"
  shows "does (teardown m j) (check_fail a wrap k)"
proof (rule does_check_fail[OF does_emits[OF assms(1)]])
  show "does (\<lambda>r fs. teardown m j r (es @ fs)) k" if "list_all (\<lambda>e. \<not> destroys e) es" for es
    using that by (auto intro: does_mono[OF assms(2)] teardown_prefix)
qed (auto simp: teardown_def list_all_iff)

lemma emits_quiet_unmount: "emits (\<lambda>e. \<not> destroys e) (unmount_jail h m j)"
  unfolding unmount_jail_def Let_def by (intro emits_rules) (auto simp: destroys_def split: list.split)

lemma does_DeleteJail: "does (teardown m j) (DeleteJail h m j)"
  unfolding DeleteJail_def Let_def
  by (intro does_teardown_bind does_teardown_check does_destroy_all emits_quiet_unmount emits_rules)
    (auto simp: destroys_def split: list.split)

text \<open>A dataset covers itself, its descendants and its snapshots.\<close>

definition covers :: "string \<Rightarrow> string \<Rightarrow> bool" where
  "covers d x \<longleftrightarrow> x = d \<or> HasPrefix x (d @ ''/'') \<or> HasPrefix x (d @ ''@'')"

lemma jail_dataset_path:
  assumes "mg_dataset m = rel_path ds" "ds \<noteq> []" "list_all plain ds" "plain name"
  shows "jail_dataset m name = rel_path (ds @ [JailRootDir, name])"
    and "jail_root_dataset m name = jail_dataset m name @ ''/root''"
proof -
  have p: "list_all plain (ds @ [JailRootDir, name, ''root''])" using assms by (auto simp: JailRootDir_def plain_def)
  then show d: "jail_dataset m name = rel_path (ds @ [JailRootDir, name])"
    unfolding jail_dataset_def assms(1) using assms(2) by (subst filepath_Join_rel) auto
  have "jail_root_dataset m name = rel_path ((ds @ [JailRootDir, name]) @ [''root''])"
    unfolding jail_root_dataset_def assms(1) using p assms(2) by (subst filepath_Join_rel) auto
  then show "jail_root_dataset m name = jail_dataset m name @ ''/root''"
    unfolding d by (simp only: rel_path_def) (subst Join_append; simp)
qed

lemma rel_path_snoc: "cs \<noteq> [] \<Longrightarrow> rel_path (cs @ [c]) = rel_path cs @ slash # c"
  by (simp add: rel_path_def Join_append)

text \<open>Two names without a slash that are followed by a slash or by nothing are the same.\<close>

lemma plain_prefix_eq:
  assumes "slash \<notin> set a" "slash \<notin> set b" and "a @ s = b @ t" and "s = [] \<or> hd s = slash" "t = [] \<or> hd t = slash"
  shows "a = b"
proof -
  have tw: "takeWhile (\<lambda>c. c \<noteq> slash) (x @ u) = x" if "slash \<notin> set x" "u = [] \<or> hd u = slash" for x u
    using that by (cases u) (auto simp: takeWhile_append)
  show ?thesis using tw[OF assms(1,4)] tw[OF assms(2,5)] assms(3) by simp
qed

lemma dataset_not_covered:
  assumes ds: "mg_dataset m = rel_path ds" "ds \<noteq> []" "list_all plain ds"
    and names: "plain name" "plain other" "other \<noteq> name" "CHR 0x40 \<notin> set other"
    and that: "s \<in> {[], ''/root''}"
  shows "\<not> covers (jail_dataset m name) (jail_dataset m other @ s)"
proof
  let ?p = "rel_path (ds @ [JailRootDir])"
  have path: "jail_dataset m n = ?p @ slash # n" if "plain n" for n
    using jail_dataset_path(1)[OF ds that] rel_path_snoc[of "ds @ [JailRootDir]" n] by simp
  assume "covers (jail_dataset m name) (jail_dataset m other @ s)"
  then consider t where "other @ s = name @ t" "t = [] \<or> hd t = slash" | t where "other @ s = name @ ''@'' @ t"
    unfolding path[OF names(1)] path[OF names(2)] covers_def by (auto simp: HasPrefix_iff)
  then show False
  proof cases
    case (1 t)
    with names that have "other = name" by (intro plain_prefix_eq[of other name s t]) (auto simp: plain_def)
    with names(3) show False by simp
  next
    case (2 t)
    then have "CHR 0x40 \<in> set (other @ s)" by simp
    with names(4) that show False by auto
  qed
qed

text \<open>C17: Deleting a jail destroys its own datasets only. Whatever \<open>DeleteJail\<close> destroys is the dataset
  of the jail, recursively, or the snapshot of its release that carries its name; neither covers the
  dataset or the root of another jail, and when it returns without an error both are gone: \<^verbatim>\<open>zfs list\<close>
  did not find them or \<^verbatim>\<open>zfs destroy\<close> succeeded.\<close>

theorem delete_spares_other_jails:
  assumes ds: "mg_dataset m = rel_path ds" "ds \<noteq> []" "list_all plain ds"
    and names: "plain (om_name (j_meta j))" "plain other" "other \<noteq> om_name (j_meta j)" "CHR 0x40 \<notin> set other"
    and run: "run_state (DeleteJail h m j) w = (r, w')"
  shows "\<exists>es. w_trace w' = w_trace w @ es \<and> (r = None \<longrightarrow> torn_down m j es) \<and>
    (\<forall>e \<in> set es. destroys e \<longrightarrow> own_destroy m j e) \<and>
    \<not> covers (jail_dataset m (om_name (j_meta j))) (jail_dataset m other) \<and>
    \<not> covers (jail_dataset m (om_name (j_meta j))) (jail_root_dataset m other)"
  using doesD[OF does_DeleteJail run] dataset_not_covered[OF ds names, of "[]"] dataset_not_covered[OF ds names, of "''/root''"]
    jail_dataset_path(2)[OF ds names(2)]
  unfolding teardown_def by auto

theorem delete_spares_other_jails_witness:
  "\<exists>r w'. run_state (DeleteJail ref_host demo_manager demo_jail) demo_jail_world = (r, w') \<and>
     (r = None \<longrightarrow> torn_down demo_manager demo_jail (w_trace w')) \<and>
     (\<forall>e \<in> set (w_trace w'). destroys e \<longrightarrow> own_destroy demo_manager demo_jail e) \<and>
     \<not> covers (jail_dataset demo_manager ''web'') (jail_dataset demo_manager ''web2'')"
proof -
  obtain r w' where run: "run_state (DeleteJail ref_host demo_manager demo_jail) demo_jail_world = (r, w')" by (metis surj_pair)
  have j: "om_name (j_meta demo_jail) = ''web''" by (simp add: demo_jail_def)
  have n: "plain (om_name (j_meta demo_jail))" "plain ''web2''" "''web2'' \<noteq> om_name (j_meta demo_jail)" "CHR 0x40 \<notin> set ''web2''"
    by (simp_all add: j plain_def)
  from delete_spares_other_jails[OF demo_dataset(1) _ demo_dataset(2) n run] run j show ?thesis
    by (auto simp: demo_jail_world_def)
qed

section \<open>The reconciler: status writes\<close>

definition is_status_write :: "event \<Rightarrow> bool" where
  "is_status_write e \<longleftrightarrow> (\<exists>j b. e = EvApi VUpdateStatus (OJail j) b)"

lemma is_status_write_simps [simp]:
  "is_status_write (EvApi VUpdateStatus (OJail j) b)" "\<not> is_status_write (EvApi VUpdate x b)"
  "\<not> is_status_write (EvExec c a i n)" "\<not> is_status_write (EvCall k b)"
  by (auto simp: is_status_write_def)

lemma emits_setCondition [emits_rules]: "emits P (setCondition h ct st reason msg j)"
  unfolding setCondition_def by (intro emits_rules)

lemma emits_updateStatusWithRetry [emits_rules]:
  assumes "\<And>j b. P (EvApi VUpdateStatus (OJail j) b)" and "\<And>fresh. emits P (mutate fresh)"
  shows "emits P (updateStatusWithRetry env key mutate)"
  unfolding updateStatusWithRetry_def using assms by (intro emits_rules)

lemma emits_degraded [emits_rules]:
  assumes "\<And>j b. P (EvApi VUpdateStatus (OJail j) b)"
  shows "emits P (degraded env key reason msg)" "emits P (degraded_stopped env key reason msg msg2)"
  unfolding degraded_def degraded_stopped_def using assms by (intro emits_rules; simp)+

text \<open>A rewrite of the status that succeeds has written what the mutation returned.\<close>

lemma does_write_status:
  "does (\<lambda>r es. list_all is_status_write es \<and> (r = None \<longrightarrow> (\<exists>fresh. EvApi VUpdateStatus (OJail (f fresh)) True \<in> set es)))
     (updateStatusWithRetry env key (\<lambda>fresh. ret (f fresh)))" (is "does ?Q _")
  unfolding updateStatusWithRetry_def
proof (rule does_retry, rule does_or_fail)
  show "does (\<lambda>r es. es = []) (api_get env as_jail KJail key)" by (rule does_silent[OF emits_api_read(1)])
  show "does (\<lambda>r fs. ?Q r (es @ fs)) (ret (f x) \<bind> (\<lambda>j. api_updateStatus env (OJail j)))" if "es = []" for x es
    by (rule doesI) (use that in \<open>auto dest!: api_updateStatus_trace\<close>)
qed auto

section \<open>Deletion\<close>

lemma emits_exec_DeleteJail: "emits is_exec (DeleteJail h m j)"
  unfolding DeleteJail_def Let_def destroy_jail_datasets_def destroy_release_snapshot_def unmount_jail_def
  by (intro emits_rules; simp)

text \<open>A run on a jail that is being deleted writes the object back only at its very end, without the
  finalizer and after the teardown.\<close>

definition released :: "jail_manager \<Rightarrow> jail \<Rightarrow> event list \<Rightarrow> bool" where
  "released m j es \<longleftrightarrow> (\<forall>pre x b post. es = pre @ EvApi VUpdate x b # post \<longrightarrow> post = [] \<and> torn_down m j pre \<and>
     x = OJail (j\<lparr>j_meta := (j_meta j)\<lparr>om_finalizers := filter (\<lambda>f. f \<noteq> jailFinalizer) (om_finalizers (j_meta j))\<rparr>\<rparr>))"

lemma released_none: "(\<forall>e \<in> set es. \<forall>x b. e \<noteq> EvApi VUpdate x b) \<Longrightarrow> released m j es"
  by (auto simp: released_def)

lemma released_snoc:
  assumes "list_all is_exec es" "torn_down m j es"
  shows "released m j (es @ [EvApi VUpdate (OJail (j\<lparr>j_meta := (j_meta j)\<lparr>om_finalizers :=
    filter (\<lambda>f. f \<noteq> jailFinalizer) (om_finalizers (j_meta j))\<rparr>\<rparr>)) b])"
  unfolding released_def
proof (intro allI impI)
  fix pre x c post
  assume eq: "es @ [EvApi VUpdate (OJail (j\<lparr>j_meta := (j_meta j)\<lparr>om_finalizers :=
    filter (\<lambda>f. f \<noteq> jailFinalizer) (om_finalizers (j_meta j))\<rparr>\<rparr>)) b] = pre @ EvApi VUpdate x c # post"
  have "post = []"
  proof (rule ccontr)
    assume "post \<noteq> []"
    then obtain qs q where "post = qs @ [q]" by (cases post rule: rev_cases) auto
    with eq have "es = pre @ EvApi VUpdate x c # qs" by simp
    with assms(1) show False by simp
  qed
  with eq assms(2) show "post = [] \<and> torn_down m j pre \<and> x = OJail (j\<lparr>j_meta := (j_meta j)\<lparr>om_finalizers :=
      filter (\<lambda>f. f \<noteq> jailFinalizer) (om_finalizers (j_meta j))\<rparr>\<rparr>)" by simp
qed

lemma does_update_jail: "does (\<lambda>r es. \<exists>b. es = [EvApi VUpdate (OJail j) b]) (update_jail env j)"
  unfolding update_jail_def api_write_def by (rule doesI) (auto split: prod.splits)

lemma does_conj: "does Q m \<Longrightarrow> does R m \<Longrightarrow> does (\<lambda>r es. Q r es \<and> R r es) m"
  by (fastforce simp: does_def split: prod.splits)

lemma does_reconcile_deleted:
  "does (\<lambda>r es. released (je_manager je) j es \<and>
     (js_deletionProtection (j_spec j) \<longrightarrow> list_all is_status_write es)) (reconcile_deleted je key j)"
proof -
  have status: "does (\<lambda>r es. list_all is_status_write es) (degraded (je_env je) key reason msg)" for reason msg
    by (rule does_emits) (intro emits_rules, simp)
  have quiet: "released (je_manager je) j es" if "list_all (\<lambda>e. is_exec e \<or> is_status_write e) es" for es
    using that by (intro released_none) (fastforce simp: list_all_iff)
  have delete: "does (\<lambda>r es. teardown (je_manager je) j r es \<and> list_all is_exec es) (DeleteJail (je_host je) (je_manager je) j)"
    by (rule does_conj[OF does_DeleteJail does_emits[OF emits_exec_DeleteJail]])
  let ?rest = "\<lambda>e. case e of
      None \<Rightarrow> update_jail (je_env je) (j\<lparr>j_meta := (j_meta j)\<lparr>om_finalizers :=
        filter (\<lambda>f. f \<noteq> jailFinalizer) (om_finalizers (j_meta j))\<rparr>\<rparr>) \<bind> (\<lambda>r. ret (0, err_of r))
    | Some x \<Rightarrow> degraded (je_env je) key ''DeleteFailed'' (err_text x) \<bind> (\<lambda>_. ret (0, Some x))"
  have rest: "does (\<lambda>r fs. released (je_manager je) j (es @ fs)) (?rest e)"
    if "teardown (je_manager je) j e es \<and> list_all is_exec es" for e es
  proof (cases e)
    case None
    with that have "torn_down (je_manager je) j es" by (simp add: teardown_def)
    with None that show ?thesis
      by (auto intro!: does_bind[OF does_update_jail] does_ret released_snoc)
  next
    case (Some x)
    with that show ?thesis
      by (auto intro!: does_bind[OF status] does_ret quiet simp: list_all_iff)
  qed
  have "does (\<lambda>r es. released (je_manager je) j es) (DeleteJail (je_host je) (je_manager je) j \<bind> ?rest)"
    by (rule does_bind[OF delete rest])
  moreover have "does (\<lambda>r es. released (je_manager je) j es \<and> list_all is_status_write es)
      (degraded (je_env je) key reason msg \<bind> (\<lambda>_. ret (0, None)))" for reason msg
    by (rule does_bind[OF status]) (auto intro!: does_ret quiet simp: list_all_iff)
  ultimately show ?thesis
    unfolding reconcile_deleted_def by (auto intro!: does_ret quiet)
qed

text \<open>C8: The finalizer of a jail goes last. Reconciling a jail of another host does nothing. For a jail
  of this host that is being deleted, the run writes the object back at most once, as its last event,
  with the finalizer and nothing else removed, and only after the commands on record show the dataset
  and the release snapshot of the jail to be absent or destroyed; with deletion protection on it runs
  no command at all and only writes status.\<close>

theorem finalizer_after_teardown:
  assumes "run_state (Jail_Reconcile je req) w = (r, w')"
    and "run_state (api_get (je_env je) as_jail KJail req) w = (Inr j, w1)"
    and "om_deletionTimestamp (j_meta j) \<noteq> None"
  shows "\<exists>es. w_trace w' = w_trace w @ es \<and>
    (js_nodeName (j_spec j) \<noteq> je_hostname je \<longrightarrow> es = []) \<and>
    (js_deletionProtection (j_spec j) \<longrightarrow> list_all is_status_write es) \<and>
    (\<forall>pre x b post. es = pre @ EvApi VUpdate x b # post \<longrightarrow> post = [] \<and> torn_down (je_manager je) j pre \<and>
       x = OJail (j\<lparr>j_meta := (j_meta j)\<lparr>om_finalizers := filter (\<lambda>f. f \<noteq> jailFinalizer) (om_finalizers (j_meta j))\<rparr>\<rparr>))"
proof -
  have w1: "w_trace w1 = w_trace w" using api_get_fs[OF assms(2)] by simp
  show ?thesis
  proof (cases "js_nodeName (j_spec j) = je_hostname je")
    case True
    with assms have "run_state (reconcile_deleted je req j) w1 = (r, w')" by (simp add: Jail_Reconcile_def)
    from doesD[OF does_reconcile_deleted this] w1 True show ?thesis unfolding released_def by auto
  next
    case False
    with assms have "w' = w1" by (simp add: Jail_Reconcile_def)
    with w1 show ?thesis by simp
  qed
qed

definition demo_je :: "api jail_env" where
  "demo_je = \<lparr>je_env = demo_env, je_net = demo_net, je_cron = (\<lambda>s. Inr midnight), je_cfg = default_jail_config,
     je_hostname = ''n1'', je_manager = demo_manager\<rparr>"

lemma demo_je_simps [simp]:
  "je_env demo_je = demo_env" "je_manager demo_je = demo_manager" "je_hostname demo_je = ''n1''"
  "je_cron demo_je s = Inr midnight"
  by (simp_all add: demo_je_def)

definition jail_world :: "jail \<Rightarrow> api world" where
  "jail_world j = demo_world [((KJail, nsn ''ns'' ''web''), OJail j)] []"

lemma jail_world_get:
  "run_state (api_get demo_env as_jail KJail (nsn ''ns'' ''web'')) (jail_world j) = (Inr j, jail_world j)"
  "w_trace (jail_world j) = []"
  by (simp_all add: api_get_def decode_def store_get_def jail_world_def demo_world_def)

definition deleted_jail :: jail where
  "deleted_jail = demo_jail\<lparr>j_meta := (j_meta demo_jail)\<lparr>om_finalizers := [jailFinalizer], om_deletionTimestamp := Some 1\<rparr>\<rparr>"

theorem finalizer_after_teardown_witness:
  "\<exists>r w'. run_state (Jail_Reconcile demo_je (nsn ''ns'' ''web'')) (jail_world deleted_jail) = (r, w') \<and>
     (\<forall>pre x b post. w_trace w' = pre @ EvApi VUpdate x b # post \<longrightarrow> torn_down demo_manager deleted_jail pre)"
proof -
  obtain r w' where run: "run_state (Jail_Reconcile demo_je (nsn ''ns'' ''web'')) (jail_world deleted_jail) = (r, w')"
    by (metis surj_pair)
  have "om_deletionTimestamp (j_meta deleted_jail) \<noteq> None" by (simp add: deleted_jail_def)
  from finalizer_after_teardown[OF run _ this, unfolded demo_je_simps, OF jail_world_get(1)] run
  show ?thesis by (simp add: jail_world_get(2)) blast
qed

section \<open>Updates\<close>

definition stop_event :: "jail \<Rightarrow> int \<Rightarrow> event" where
  "stop_event j n = EvExec ''jail'' [''-r'', om_name (j_meta j)] [] n"

definition start_event :: "jail_manager \<Rightarrow> jail \<Rightarrow> int \<Rightarrow> event" where
  "start_event m j n = EvExec ''jail'' [''-c'', ''-f'', conf_path (mg_confDir m) (om_name (j_meta j)), om_name (j_meta j)] [] n"

definition update_event :: "string \<Rightarrow> int \<Rightarrow> event" where
  "update_event root n = EvExec ''env'' [''PAGER=cat'', ''/usr/sbin/freebsd-update'', ''-b'', root,
     ''--not-running-from-cron'', ''fetch'', ''install''] [] n"

definition update_lock_held :: "jail \<Rightarrow> event list \<Rightarrow> bool" where
  "update_lock_held j es \<longleftrightarrow> (case update_group j of
     None \<Rightarrow> True | Some req \<Rightarrow> \<exists>d. EvCall (LockForCall req d) True \<in> set es)"

text \<open>The shape of every run: no command at all, or a stop that failed, or stop, update and start in
  this order, and the time on record exactly when the update succeeded.\<close>

definition update_body :: "jail_manager \<Rightarrow> jail \<Rightarrow> string \<Rightarrow> update_result \<Rightarrow> event list \<Rightarrow> bool" where
  "update_body m j root r es \<longleftrightarrow>
     (\<exists>n. n \<noteq> 0 \<and> es = [stop_event j n] \<and> snd r \<noteq> None) \<or>
     (\<exists>u s rest. es = [stop_event j 0, update_event root u, start_event m j s] @ rest \<and> list_all is_status_write rest \<and>
        (u \<noteq> 0 \<longrightarrow> rest = [] \<and> snd r \<noteq> None) \<and>
        (snd r = None \<longrightarrow> u = 0 \<and> (\<exists>j' t. EvApi VUpdateStatus (OJail j') True \<in> set rest \<and> jst_lastUpdate (j_status j') = Some t)))"

definition update_run :: "jail_manager \<Rightarrow> jail \<Rightarrow> string \<Rightarrow> update_result \<Rightarrow> event list \<Rightarrow> bool" where
  "update_run m j root r es \<longleftrightarrow> list_all (\<lambda>e. \<not> is_exec e) es \<or>
     (\<exists>pre es'. es = pre @ es' \<and> list_all (\<lambda>e. \<not> is_exec e) pre \<and> update_lock_held j pre \<and> update_body m j root r es')"

lemma update_body_done:
  assumes "list_all is_status_write rest"
    and "snd r = None \<longrightarrow> (\<exists>j' t. EvApi VUpdateStatus (OJail j') True \<in> set rest \<and> jst_lastUpdate (j_status j') = Some t)"
  shows "update_body m j root r ([stop_event j 0, update_event root 0, start_event m j s] @ rest)"
  unfolding update_body_def
  by (rule disjI2, rule exI[of _ 0], rule exI[of _ s], rule exI[of _ rest]) (use assms in simp)

lemma update_body_failed:
  assumes "u \<noteq> 0" "snd r \<noteq> None"
  shows "update_body m j root r [stop_event j 0, update_event root u, start_event m j s]"
  unfolding update_body_def
  by (rule disjI2, rule exI[of _ u], rule exI[of _ s], rule exI[of _ "[]"]) (use assms in simp)

lemma does_record_update:
  "does (\<lambda>r es. list_all is_status_write es \<and>
     (snd r = None \<longrightarrow> (\<exists>j' t. EvApi VUpdateStatus (OJail j') True \<in> set es \<and> jst_lastUpdate (j_status j') = Some t)))
   (record_update je j next)"
  unfolding record_update_def
proof (rule does_bind_silent)
  fix t
  show "does (\<lambda>r es. list_all is_status_write es \<and>
      (snd r = None \<longrightarrow> (\<exists>j' t. EvApi VUpdateStatus (OJail j') True \<in> set es \<and> jst_lastUpdate (j_status j') = Some t)))
    (updateStatusWithRetry (je_env je) (jail_key j)
       (\<lambda>fresh. ret (fresh\<lparr>j_status := (j_status fresh)\<lparr>jst_lastUpdate := Some t\<rparr>\<rparr>)) \<bind>
     (\<lambda>e. ret (case e of None \<Rightarrow> (next, None) | Some x \<Rightarrow> (zero_time, Some (Wrap ''recording last update status'' x)))))"
    by (rule does_bind[OF does_write_status]) (force intro!: does_ret split: option.split)
qed (intro emits_rules)

lemma does_run_update: "does (update_body (je_manager je) j root) (run_update je j root next)"
  unfolding run_update_def Let_def StopJail_def
proof (rule does_bind[OF does_SimpleRunCommand], rule does_case_option)
  fix x :: "err option" and es
  assume es: "\<exists>n. es = [EvExec ''jail'' [''-r'', om_name (j_meta j)] [] n] \<and> (x = None \<longleftrightarrow> n = 0)"
  show "does (\<lambda>r fs. update_body (je_manager je) j root r (es @ fs)) (ret (zero_time, Some (Wrap ''stopping jail for update'' e)))"
    if "x = Some e" for e
    by (rule does_ret) (use es that in \<open>auto simp: update_body_def stop_event_def\<close>)
  assume "x = None"
  with es have es: "es = [stop_event j 0]" by (auto simp: stop_event_def)
  show "does (\<lambda>r fs. update_body (je_manager je) j root r (es @ fs))
      (UpdateJail (je_host je) root \<bind> (\<lambda>u. StartJail (je_host je) (je_manager je) (om_name (j_meta j)) \<bind> (\<lambda>_.
        case u of None \<Rightarrow> record_update je j next
        | Some e \<Rightarrow> ret (zero_time, Some (Wrap (''freebsd-update failed for jail '' @ om_name (j_meta j)) e)))))"
    unfolding UpdateJail_def StartJail_def
  proof (rule does_bind[OF does_SimpleRunCommand], rule does_bind[OF does_SimpleRunCommand], elim exE conjE, rule does_case_option)
    fix u :: "err option" and fs gs :: "event list" and n s
    assume fs: "fs = [EvExec ''env'' [''PAGER=cat'', ''/usr/sbin/freebsd-update'', ''-b'', root, ''--not-running-from-cron'', ''fetch'', ''install''] [] n]"
      "(u = None) = (n = 0)"
      and gs: "gs = [EvExec ''jail'' [''-c'', ''-f'', conf_path (mg_confDir (je_manager je)) (om_name (j_meta j)), om_name (j_meta j)] [] s]"
    have all: "es @ fs @ gs = [stop_event j 0, update_event root n, start_event (je_manager je) j s]"
      using es fs gs by (simp add: update_event_def start_event_def)
    show "does (\<lambda>r hs. update_body (je_manager je) j root r (es @ fs @ gs @ hs)) (record_update je j next)" if "u = None"
    proof (rule does_mono[OF does_record_update])
      fix r :: update_result and hs assume "list_all is_status_write hs \<and>
        (snd r = None \<longrightarrow> (\<exists>j' t. EvApi VUpdateStatus (OJail j') True \<in> set hs \<and> jst_lastUpdate (j_status j') = Some t))"
      moreover have "es @ fs @ gs @ hs = [stop_event j 0, update_event root 0, start_event (je_manager je) j s] @ hs"
        using all fs(2) that by simp
      ultimately show "update_body (je_manager je) j root r (es @ fs @ gs @ hs)" by (metis update_body_done)
    qed
    show "does (\<lambda>r hs. update_body (je_manager je) j root r (es @ fs @ gs @ hs)) (ret (zero_time, Some e'))" if "u = Some e" for e e'
    proof (rule does_ret)
      have "n \<noteq> 0" using that fs(2) by simp
      then show "update_body (je_manager je) j root (zero_time, Some e') (es @ fs @ gs @ [])"
        unfolding append_Nil2 all by (rule update_body_failed) simp
    qed
  qed
qed

lemma update_run_quiet: "list_all (\<lambda>e. \<not> is_exec e) es \<Longrightarrow> update_run m j root r es"
  by (simp add: update_run_def)

lemma update_run_prefix:
  assumes "list_all (\<lambda>e. \<not> is_exec e) ps" "update_run m j root r es"
  shows "update_run m j root r (ps @ es)"
proof -
  have "update_lock_held j (ps @ pre)" if "update_lock_held j pre" for pre
    using that by (auto simp: update_lock_held_def split: option.splits)
  with assms show ?thesis unfolding update_run_def by (metis append.assoc list_all_append)
qed

lemma does_update_prefix:
  assumes "emits (\<lambda>e. \<not> is_exec e) a" and "\<And>x. does (update_run m j root) (k x)"
  shows "does (update_run m j root) (State_Monad.bind a k)"
  by (rule does_bind[OF does_emits[OF assms(1)]]) (auto intro: does_mono[OF assms(2)] update_run_prefix)

lemma does_update_locked: "does (update_run (je_manager je) j root) (update_locked je j root sched next)"
proof (cases "update_group j")
  case None
  then have "update_lock_held j []" by (simp add: update_lock_held_def)
  then have "update_run (je_manager je) j root r es" if "update_body (je_manager je) j root r es" for r es
    using that unfolding update_run_def by (intro disjI2 exI[of _ "[]"] exI[of _ es]) simp
  with None show ?thesis by (auto simp: update_locked_def intro: does_mono[OF does_run_update])
next
  case (Some req)
  have lock: "does (\<lambda>r es. es = [EvCall (LockForCall req d) (r = None)]) (called (LockForCall req d) (ext x))" for d and x
    unfolding called_def by (rule doesI) (auto split: prod.splits)
  have main: "does (update_run (je_manager je) j root) (called (LockForCall req d) (ext x) \<bind> (\<lambda>e. case e of
      None \<Rightarrow> run_update je j root next
    | Some x \<Rightarrow> if is_conflict x then ret (next, None) else ret (zero_time, Some (w x))))" for d x w
  proof (rule does_bind[OF lock], rule does_case_option)
    fix e :: "err option" and es assume es: "es = [EvCall (LockForCall req d) (e = None)]"
    show "does (\<lambda>r fs. update_run (je_manager je) j root r (es @ fs)) (run_update je j root next)" if "e = None"
    proof (rule does_mono[OF does_run_update])
      fix r fs assume "update_body (je_manager je) j root r fs"
      with es that Some show "update_run (je_manager je) j root r (es @ fs)"
        unfolding update_run_def by (intro disjI2 exI[of _ es] exI[of _ fs]) (auto simp: update_lock_held_def)
    qed
  qed (auto intro!: does_ret update_run_quiet)
  show ?thesis
    unfolding update_locked_def Some option.case
    by (rule does_bind_silent[OF emits_now], rule does_bind_silent[OF emits_now], rule main)
qed

lemma does_handleUpdate: "does (update_run (je_manager je) j root) (handleUpdate je j root)"
  unfolding handleUpdate_def update_scheduled_def update_when_due_def Let_def
  by (intro does_split does_update_prefix does_update_locked)
    (auto intro!: emits_rules does_ret update_run_quiet split: option.split)

text \<open>C30: A scheduled update leaves the jail running and is recorded only when it succeeded. Every run
  of \<open>handleUpdate\<close> runs no command at all, or first holds the lock of the jail's update group, if it
  has one, and then stops the jail; if the stop fails it reports that, otherwise it runs
  \<^verbatim>\<open>freebsd-update\<close> and starts the jail again whatever the update returned; a failed update is reported
  and not recorded, and a run without an error has written the time of the update.\<close>

theorem update_restarts_jail:
  assumes "run_state (handleUpdate je j root) w = (r, w')"
  shows "\<exists>es. w_trace w' = w_trace w @ es \<and> update_run (je_manager je) j root r es"
  using doesD[OF does_handleUpdate assms] .

lemma demo_update_calls:
  "(let (r, w') = run_state (handleUpdate demo_je demo_jail ''/r'') (jail_world demo_jail) in (snd r, commands (w_trace w'))) =
   (None, [(''jail'', [''-r'', ''web'']),
     (''env'', [''PAGER=cat'', ''/usr/sbin/freebsd-update'', ''-b'', ''/r'', ''--not-running-from-cron'', ''fetch'', ''install'']),
     (''jail'', [''-c'', ''-f'', conf_path (mg_confDir demo_manager) ''web'', ''web''])])"
proof -
  have due: "time_sub 0 0 < 60000000000" by (simp add: time_sub_def)
  show ?thesis
    using due
    by (simp add: handleUpdate_def demo_jail_def demo_jail_spec_def demo_delay update_scheduled_def update_when_due_def
        update_group_def update_locked_def run_update_def record_update_def updateStatusWithRetry_def StopJail_def StartJail_def
        UpdateJail_def SimpleRunCommand_def RunCommand_def run_proc_def proc_result_def RetryOnConflict_def
        default_backoff_steps_def numeral_eq_Suc api_get_def decode_def store_get_def api_updateStatus_def api_write_def
        store_update_def store_put_def key_of_def stamped_def jail_key_def nsn_def now_def midnight_def jail_forgiveness_def
        second_def jail_world_def demo_world_def ref_host_def empty_meta_def Let_def)
qed

theorem update_restarts_jail_witness:
  "\<exists>r w'. run_state (handleUpdate demo_je demo_jail ''/r'') (jail_world demo_jail) = (r, w') \<and>
     update_run demo_manager demo_jail ''/r'' r (w_trace w') \<and> snd r = None \<and> length (commands (w_trace w')) = 3"
proof -
  obtain r w' where run: "run_state (handleUpdate demo_je demo_jail ''/r'') (jail_world demo_jail) = (r, w')"
    by (metis surj_pair)
  from update_restarts_jail[OF run] run demo_update_calls show ?thesis by (auto simp: jail_world_get(2))
qed

section \<open>Hooks\<close>

definition hook_event :: "string \<Rightarrow> post_create_command \<Rightarrow> int \<Rightarrow> event" where
  "hook_event name c n = EvExec ''jexec'' (name # pc_command c # pc_args c) [] n"

text \<open>The hooks that ran, with their exit codes: all but the last succeeded, and the last one decides.\<close>

definition hooks_ran :: "string \<Rightarrow> post_create_command list \<Rightarrow> err option \<Rightarrow> event list \<Rightarrow> bool" where
  "hooks_ran name cmds r es \<longleftrightarrow>
     (r = None \<and> es = map (\<lambda>c. hook_event name c 0) cmds) \<or>
     (\<exists>done c rest n ws. r \<noteq> None \<and> cmds = done @ c # rest \<and> n \<noteq> 0 \<and> list_all is_status_write ws \<and>
        es = map (\<lambda>c. hook_event name c 0) done @ hook_event name c n # ws)"

lemma hooks_ran_Cons:
  "hooks_ran name cmds r es \<Longrightarrow> hooks_ran name (c # cmds) r (hook_event name c 0 # es)"
  unfolding hooks_ran_def by (metis (no_types, lifting) append_Cons list.simps(9))

lemma does_run_hooks: "does (hooks_ran name cmds) (run_hooks je key name cmds)"
proof (induction cmds)
  case (Cons c cmds)
  show ?case
    unfolding run_hooks.simps ExecInJail_def
  proof (rule does_bind[OF does_SimpleRunCommand], elim exE conjE, rule does_case_option)
    fix e :: "err option" and es n
    assume es: "es = [EvExec ''jexec'' (name # pc_command c # pc_args c) [] n]" "(e = None) = (n = 0)"
    show "does (\<lambda>r fs. hooks_ran name (c # cmds) r (es @ fs)) (run_hooks je key name cmds)" if "e = None"
      using es that by (intro does_mono[OF Cons.IH]) (auto simp: hooks_ran_Cons simp flip: hook_event_def)
    show "does (\<lambda>r fs. hooks_ran name (c # cmds) r (es @ fs)) (degraded (je_env je) key reason msg \<bind> (\<lambda>_. ret (Some x)))"
      if "e = Some x" for x reason msg
    proof (rule does_bind[OF does_emits])
      show "emits is_status_write (degraded (je_env je) key reason msg)" by (intro emits_rules) simp
      fix y ws assume "list_all is_status_write ws"
      with es that have "hooks_ran name (c # cmds) (Some x) (es @ ws)"
        unfolding hooks_ran_def by (intro disjI2 exI[of _ "[]"] exI[of _ c] exI[of _ cmds] exI[of _ n] exI[of _ ws])
          (simp add: hook_event_def)
      then show "does (\<lambda>r fs. hooks_ran name (c # cmds) r (es @ ws @ fs)) (ret (Some x))" by (simp add: does_ret)
    qed
  qed
qed (simp add: does_ret hooks_ran_def)

definition hooks_done :: "jail \<Rightarrow> post_create_command list \<Rightarrow> err option \<Rightarrow> event list \<Rightarrow> bool" where
  "hooks_done j cmds r es \<longleftrightarrow> (\<exists>ws. es = map (\<lambda>c. hook_event (om_name (j_meta j)) c 0) cmds @ ws \<and> list_all is_status_write ws \<and>
     (r = None \<longrightarrow> (\<exists>j' t. EvApi VUpdateStatus (OJail j') True \<in> set ws \<and> jst_postCreateDone (j_status j') = Some t)))"

lemma does_post_create:
  assumes "cmds \<noteq> []" "running" "jst_postCreateDone (j_status j) = None"
  shows "does (\<lambda>r es. hooks_done j cmds r es \<or> r \<noteq> None \<and> hooks_ran (om_name (j_meta j)) cmds r es) (post_create je key j cmds running)"
proof -
  have "does (\<lambda>r es. hooks_done j cmds r es \<or> r \<noteq> None \<and> hooks_ran (om_name (j_meta j)) cmds r es)
    (check_fail (run_hooks je key (om_name (j_meta j)) cmds) id (now (je_host je) \<bind> (\<lambda>t.
      updateStatusWithRetry (je_env je) key (\<lambda>fresh. ret (fresh\<lparr>j_status := (j_status fresh)\<lparr>jst_postCreateDone := Some t\<rparr>\<rparr>)))))"
  proof (rule does_check_fail[OF does_run_hooks], simp, rule does_bind_silent[OF emits_now])
    fix es t assume "hooks_ran (om_name (j_meta j)) cmds None es"
    then have es: "es = map (\<lambda>c. hook_event (om_name (j_meta j)) c 0) cmds" by (simp add: hooks_ran_def)
    show "does (\<lambda>r fs. hooks_done j cmds r (es @ fs) \<or> r \<noteq> None \<and> hooks_ran (om_name (j_meta j)) cmds r (es @ fs))
        (updateStatusWithRetry (je_env je) key (\<lambda>fresh. ret (fresh\<lparr>j_status := (j_status fresh)\<lparr>jst_postCreateDone := Some t\<rparr>\<rparr>)))"
      by (rule does_mono[OF does_write_status]) (force simp: es hooks_done_def)
  qed
  with assms show ?thesis by (simp add: post_create_def)
qed

text \<open>The hooks of a template run once, in order, until one fails. On a running jail without a
  recorded completion, the run of the hooks either executes all of them successfully and then writes
  the status, with the time of completion on record when it returns without an error; or it stops at
  the first hook that exits with another code than 0, runs none of the later ones and returns an
  error. In every other case no hook runs.\<close>

theorem hooks_run_once_in_order:
  assumes "run_state (post_create je key j cmds running) w = (r, w')"
  shows "\<exists>es. w_trace w' = w_trace w @ es \<and>
    (if cmds \<noteq> [] \<and> running \<and> jst_postCreateDone (j_status j) = None
     then hooks_done j cmds r es \<or> r \<noteq> None \<and> hooks_ran (om_name (j_meta j)) cmds r es
     else es = [] \<and> r = None)"
proof (cases "cmds \<noteq> [] \<and> running \<and> jst_postCreateDone (j_status j) = None")
  case True
  then have "cmds \<noteq> []" "running" "jst_postCreateDone (j_status j) = None" by auto
  from doesD[OF does_post_create[OF this] assms] True show ?thesis by simp
next
  case False
  with assms show ?thesis by (auto simp: post_create_def split: if_splits)
qed

definition demo_hooks :: "post_create_command list" where
  "demo_hooks = [\<lparr>pc_name = ''init'', pc_command = ''/bin/init'', pc_args = []\<rparr>,
     \<lparr>pc_name = ''seed'', pc_command = ''/bin/seed'', pc_args = [''-v'']\<rparr>]"

theorem hooks_run_once_in_order_witness:
  "\<exists>r w'. run_state (post_create demo_je (nsn ''ns'' ''web'') demo_jail demo_hooks True) (jail_world demo_jail) = (r, w') \<and>
     (hooks_done demo_jail demo_hooks r (w_trace w') \<or> r \<noteq> None \<and> hooks_ran ''web'' demo_hooks r (w_trace w'))"
proof -
  obtain r w' where run: "run_state (post_create demo_je (nsn ''ns'' ''web'') demo_jail demo_hooks True) (jail_world demo_jail) = (r, w')"
    by (metis surj_pair)
  have "demo_hooks \<noteq> [] \<and> jst_postCreateDone (j_status demo_jail) = None" "om_name (j_meta demo_jail) = ''web''"
    by (simp_all add: demo_hooks_def demo_jail_def)
  with hooks_run_once_in_order[OF run] run show ?thesis by (auto simp: jail_world_get(2))
qed

section \<open>Update settings of a template\<close>

definition runs_update :: "event \<Rightarrow> bool" where
  "runs_update e \<longleftrightarrow> (\<exists>root n. e = update_event root n)"

lemma runs_update_simps [simp]:
  "runs_update (EvExec c a i n) \<longleftrightarrow> c = ''env'' \<and> i = [] \<and>
     (\<exists>root. a = [''PAGER=cat'', ''/usr/sbin/freebsd-update'', ''-b'', root, ''--not-running-from-cron'', ''fetch'', ''install''])"
  "\<not> runs_update (EvCall k b)" "\<not> runs_update (EvApi v x b)"
  by (auto simp: runs_update_def update_event_def)

lemma not_env [simp]: "zfsCmd \<noteq> ''env''" "jlsCmd \<noteq> ''env''"
  by (simp_all add: zfsCmd_def jlsCmd_def)

lemma emits_run_hooks [emits_rules]:
  assumes "\<And>a n. P (EvExec ''jexec'' a [] n)" "\<And>j b. P (EvApi VUpdateStatus (OJail j) b)"
  shows "emits P (run_hooks je key name cmds)"
  by (induction cmds) (auto intro!: emits_rules assms)

lemma emits_bring_up: "emits (\<lambda>e. \<not> runs_update e) (bring_up je key j)"
  unfolding bring_up_def resolve_template_def provision_def start_if_stopped_def or_degraded_def BootstrapPkg_def
    post_create_def report_state_def EnsureJail_def ensure_root_def drop_stale_root_def clone_root_def Let_def
  by (intro emits_rules) auto

text \<open>The update settings of a template have no effect. Whatever template a jail refers to, and
  although the merged specification takes schedule, delay and group from it, reconciling a jail whose
  own specification has no schedule or no delay never runs \<^verbatim>\<open>freebsd-update\<close>: \<open>handleUpdate\<close> is given the
  unmerged jail.\<close>

theorem template_update_settings_ignored:
  assumes "ju_schedule (js_update (j_spec j)) = [] \<or> ju_delay (js_update (j_spec j)) = []"
    and "run_state (reconcile_live je key j) w = (r, w')"
  shows "\<exists>es. w_trace w' = w_trace w @ es \<and> (\<forall>e \<in> set es. \<not> runs_update e)"
proof -
  have "handleUpdate je j root = ret (zero_time, None)" for root
    using assms(1) by (auto simp: handleUpdate_def)
  then have "emits (\<lambda>e. \<not> runs_update e) (reconcile_live je key j)"
    unfolding reconcile_live_def requeue_jail_def by (auto intro!: emits_rules emits_bring_up)
  from emitsD[OF this assms(2)] show ?thesis by (auto simp: list_all_iff)
qed

definition template_jail :: jail where
  "template_jail = demo_jail\<lparr>j_spec := demo_jail_spec\<lparr>js_update := \<lparr>ju_schedule = [], ju_delay = [], ju_group = []\<rparr>\<rparr>\<rparr>"

definition daily_template :: jail_template where
  "daily_template = \<lparr>jt_meta = empty_meta\<lparr>om_name := ''base'', om_namespace := ''ns''\<rparr>,
     jt_spec = demo_template_spec\<lparr>jt_update := \<lparr>ju_schedule = ''@daily'', ju_delay = ''12h'', ju_group = []\<rparr>\<rparr>\<rparr>"

definition template_world :: "api world" where
  "template_world = demo_world [((KJail, nsn ''ns'' ''web''), OJail template_jail),
     ((KJailTemplate, nsn ''ns'' ''base''), OJailTemplate daily_template)] []"

theorem template_update_settings_ignored_witness:
  "ju_schedule (js_update (MergeTemplateDefaults (j_spec template_jail) (jt_spec daily_template))) = ''@daily'' \<and>
   (\<exists>r w'. run_state (reconcile_live demo_je (nsn ''ns'' ''web'') template_jail) template_world = (r, w') \<and>
     (\<forall>e \<in> set (w_trace w'). \<not> runs_update e))"
proof -
  obtain r w' where run: "run_state (reconcile_live demo_je (nsn ''ns'' ''web'') template_jail) template_world = (r, w')"
    by (metis surj_pair)
  have "ju_schedule (js_update (j_spec template_jail)) = [] \<or> ju_delay (js_update (j_spec template_jail)) = []"
    by (simp add: template_jail_def)
  from template_update_settings_ignored[OF this run] run show ?thesis
    by (auto simp: template_world_def demo_world_def MergeTemplateDefaults_def mergeUpdate_def or_else_def
        template_jail_def daily_template_def)
qed

text \<open>The steps of a reconcile, opened down to those that have an \<open>emits\<close> rule or are treated on their own.\<close>

lemmas jail_live_defs = reconcile_live_def requeue_jail_def handleUpdate_def update_scheduled_def update_when_due_def
  update_locked_def run_update_def record_update_def bring_up_def resolve_template_def provision_def
  start_if_stopped_def or_degraded_def BootstrapPkg_def post_create_def EnsureJail_def ensure_root_def
  drop_stale_root_def clone_root_def Let_def

lemmas jail_deleted_defs = with_finalizer_def reconcile_deleted_def update_jail_def DeleteJail_def unmount_jail_def
  destroy_jail_datasets_def destroy_release_snapshot_def Let_def

end
