(* ===== verification/DrainCorrect.thy ===== *)
theory DrainCorrect
  imports UpgradeCorrect
begin

text \<open>
  Draining and cordoning: a drain evicts exactly the drainable pods, it ends, a clean end means that a
  listing showed no drainable pod, a cordon is on record before the upgrade goes on, and only a
  recorded cordon is lifted. Also: no upgrade within the delay after the last one.
\<close>

section \<open>Draining\<close>

definition pod_key :: "pod \<Rightarrow> nsname" where
  "pod_key p = nsn (om_namespace (pod_meta p)) (om_name (pod_meta p))"

lemma makes_evict_pods:
  "makes (\<lambda>r es. calls_of es = map (\<lambda>p. EvictPod (pod_key p)) (filter isDrainablePod ps)) (evict_pods env ps)"
proof (induction ps)
  case (Cons p ps)
  show ?case
  proof (cases "isDrainablePod p")
    case True
    have "makes (\<lambda>r es. calls_of es = map (\<lambda>p. EvictPod (pod_key p)) (filter isDrainablePod (p # ps)))
        (called (EvictPod (pod_key p)) (ext (cl_evict (e_client env) (pod_key p))) \<bind> (\<lambda>_. evict_pods env ps))"
      by (rule makes_bind[OF makes_called[OF emits_ext]], rule makes_mono[OF Cons.IH]) (simp add: True)
    with True show ?thesis by (simp add: pod_key_def Let_def)
  next
    case False
    with Cons.IH show ?thesis by simp
  qed
qed (simp add: makes_ret)

text \<open>When the waiting ends cleanly, the last thing that happened was a listing without drainable pods.\<close>

definition drained :: "'h mn_env \<Rightarrow> string \<Rightarrow> 'h \<Rightarrow> bool" where
  "drained me hostname s' \<longleftrightarrow>
     (\<exists>s ps. run_state (me_podsOn me hostname) s = (Inr ps, s') \<and> filter isDrainablePod ps = [])"

lemma drain_wait_clean:
  "run_state (drain_wait n me hostname d) w = (Some None, w') \<Longrightarrow> drained me hostname (w_ext w')"
proof (induction n arbitrary: w)
  case (Suc n)
  obtain r s1 where l: "run_state (me_podsOn me hostname) (w_ext w) = (r, s1)" by fastforce
  obtain ps where ps: "r = Inr ps"
    using Suc.prems l by (cases r) (auto simp: pods_on_def)
  show ?case
  proof (cases "filter isDrainablePod ps = []")
    case True
    then have "w_ext w' = s1" using Suc.prems l ps by (auto simp: pods_on_def)
    with True l ps show ?thesis unfolding drained_def by blast
  next
    case False
    then show ?thesis
      using Suc.prems l ps by (auto simp: pods_on_def split: prod.splits if_splits dest!: Suc.IH)
  qed
qed simp

text \<open>C26: A drain evicts exactly the drainable pods. Given the pods listed on the host, the calls are one
  eviction per pod that is not being deleted, has not ended, does not belong to a DaemonSet and is no
  mirror pod, in the listed order, and no failed eviction stops the rest; if the drain reports success, its
  last listing showed no drainable pod.\<close>

theorem drain_evicts_drainable:
  assumes pods: "run_state (me_podsOn me hostname) (w_ext w) = (Inr pods, s1)"
    and run: "run_state (drainNode me hostname) w = (e, w')"
  shows "\<exists>es. w_trace w' = w_trace w @ es \<and>
    calls_of es = map (\<lambda>p. EvictPod (pod_key p)) (filter isDrainablePod pods) \<and>
    (e = None \<longrightarrow> drained me hostname (w_ext w'))"
proof -
  let ?wait = "now (me_host me) \<bind> (\<lambda>t. drain_wait (drain_fuel (mc_drainTimeout (me_cfg me))) me hostname
      (t + mc_drainTimeout (me_cfg me)) \<bind>
      (\<lambda>r. ret (case r of Some e \<Rightarrow> e | None \<Rightarrow> Some (Plain ''drain did not return''))))"
  define w1 where "w1 = w\<lparr>w_ext := s1\<rparr>"
  obtain u w2 where ev: "run_state (evict_pods (me_env me) pods) w1 = (u, w2)" by (metis surj_pair)
  have wait: "run_state ?wait w2 = (e, w')"
    using run pods ev by (simp add: drainNode_def pods_on_def w1_def)
  from makesD[OF makes_evict_pods ev] obtain es where es: "w_trace w2 = w_trace w @ es"
    "calls_of es = map (\<lambda>p. EvictPod (pod_key p)) (filter isDrainablePod pods)"
    unfolding visible_calls by (auto simp: w1_def)
  have "emits (\<lambda>e. False) ?wait" by (intro emits_rules)
  from emitsD[OF this wait] have "w_trace w' = w_trace w2" by (auto simp: list_all_iff)
  moreover have "drained me hostname (w_ext w')" if "e = None"
    using wait that by (auto split: prod.splits option.splits intro: drain_wait_clean)
  ultimately show ?thesis using es by auto
qed

definition demo_pod :: "string \<Rightarrow> string list \<Rightarrow> pod" where
  "demo_pod name owners = \<lparr>pod_meta = empty_meta\<lparr>om_name := name, om_namespace := ''web''\<rparr>,
     pod_phase = PodRunning, pod_ownerKinds = owners\<rparr>"

definition demo_drain_me :: "api mn_env" where
  "demo_drain_me = demo_me\<lparr>me_podsOn := (\<lambda>n. ret (Inr [demo_pod ''a'' [''ReplicaSet''], demo_pod ''b'' [''DaemonSet'']]))\<rparr>"

theorem drain_evicts_drainable_witness:
  "\<exists>e w'. run_state (drainNode demo_drain_me ''n1'') (demo_world [] []) = (e, w') \<and>
     calls_of (w_trace w') = [EvictPod (nsn ''web'' ''a'')]"
proof -
  obtain e w' where r: "run_state (drainNode demo_drain_me ''n1'') (demo_world [] []) = (e, w')" by fastforce
  have "run_state (me_podsOn demo_drain_me ''n1'') (w_ext (demo_world [] [])) =
      (Inr [demo_pod ''a'' [''ReplicaSet''], demo_pod ''b'' [''DaemonSet'']], w_ext (demo_world [] []))"
    by (simp add: demo_drain_me_def)
  from drain_evicts_drainable[OF this r] r show ?thesis
    by (auto simp: demo_pod_def isDrainablePod_def pod_key_def empty_meta_def demo_world_def)
qed

section \<open>The drain ends\<close>

text \<open>
  The clock the loop relies on: readings are the current time, listing pods does not turn it back, and
  sleeping advances it by at least the time slept.
\<close>

locale drain_clock =
  fixes me :: "'h mn_env" and clk :: "'h \<Rightarrow> instant"
  assumes reading: "run_state (h_now (me_host me)) s = (t, s') \<Longrightarrow> t = clk s \<and> clk s \<le> clk s'"
    and listing: "run_state (me_podsOn me hostname) s = (r, s') \<Longrightarrow> clk s \<le> clk s'"
    and sleeping: "run_state (me_sleep me d) s = (u, s') \<Longrightarrow> clk s + d \<le> clk s'"
begin

lemma drain_wait_enough:
  assumes "deadline < clk (w_ext w) + 5 * second * int n"
  shows "fst (run_state (drain_wait (Suc n) me hostname deadline) w) \<noteq> None"
  using assms
proof (induction n arbitrary: w)
  case 0
  obtain r s1 where l: "run_state (me_podsOn me hostname) (w_ext w) = (r, s1)" by fastforce
  obtain t s2 where t: "run_state (h_now (me_host me)) s1 = (t, s2)" by fastforce
  have "deadline < t" using reading[OF t] listing[OF l] 0 by simp
  then show ?case using l t by (auto simp: pods_on_def now_def split: sum.split)
next
  case (Suc n)
  obtain r s1 where l: "run_state (me_podsOn me hostname) (w_ext w) = (r, s1)" by fastforce
  obtain t s2 where t: "run_state (h_now (me_host me)) s1 = (t, s2)" by fastforce
  obtain u s3 where z: "run_state (me_sleep me (5 * second)) s2 = (u, s3)" by (metis surj_pair)
  have "deadline < clk s3 + 5 * second * int n"
    using reading[OF t] listing[OF l] sleeping[OF z] Suc.prems by (simp add: algebra_simps)
  then have "fst (run_state (drain_wait (Suc n) me hostname deadline) (w\<lparr>w_ext := s3\<rparr>)) \<noteq> None"
    by (intro Suc.IH) simp
  then show ?case
    using l t z by (subst drain_wait.simps) (auto simp: pods_on_def now_def split: sum.split)
qed

lemma drain_fuel_enough:
  assumes "t \<le> clk (w_ext w)"
  shows "fst (run_state (drain_wait (drain_fuel T) me hostname (t + T)) w) \<noteq> None"
proof -
  have "T < 5 * second * int (nat (T div (5 * second)) + 1)"
  proof (cases "0 \<le> T")
    case True
    have "T = 5 * second * (T div (5 * second)) + T mod (5 * second)" by simp
    moreover have "T mod (5 * second) < 5 * second" by (simp add: second_def)
    moreover have "int (nat (T div (5 * second))) = T div (5 * second)"
      using True by (simp add: second_def pos_imp_zdiv_nonneg_iff)
    ultimately show ?thesis by (simp add: algebra_simps)
  qed (simp add: second_def)
  with assms have "t + T < clk (w_ext w) + 5 * second * int (nat (T div (5 * second)) + 1)" by simp
  from drain_wait_enough[OF this] show ?thesis by (simp add: drain_fuel_def)
qed

end

interpretation ref_clock: drain_clock demo_drain_me as_now
  by unfold_locales (auto simp: demo_drain_me_def demo_me_def demo_env_def ref_host_def)

text \<open>C27: The drain ends. On a clock that moves with the sleeping, the waiting loop of \<open>drainNode\<close> comes
  to a result within \<open>DrainTimeout\<close> divided by five seconds, plus two, rounds, whatever the API server
  answers.\<close>

theorem drain_returns:
  assumes "drain_clock me clk" and "t \<le> clk (w_ext w)"
  shows "\<exists>e w'. run_state (drain_wait (drain_fuel T) me hostname (t + T)) w = (Some e, w')"
  using drain_clock.drain_fuel_enough[OF assms] by (metis not_Some_eq prod.collapse)

theorem drain_returns_witness:
  "\<exists>e w'. run_state (drain_wait (drain_fuel (300 * second)) demo_drain_me ''n1'' (0 + 300 * second)) (demo_world [] []) =
     (Some e, w')"
  by (rule drain_returns[OF ref_clock.drain_clock_axioms]) (simp add: demo_world_def)

section \<open>Cordons\<close>

lemma makes_rewrite_status_only:
  "makes (\<lambda>r es. calls_of es = [] \<and> (r = None \<longrightarrow> wrote_status f es)) (rewrite_status env key f)"
proof -
  have "emits (\<lambda>e. \<forall>c b. e \<noteq> EvCall c b) (rewrite_status env key f)" by (intro emits_rules) simp
  from makes_conj[OF makes_emits[OF this] makes_rewrite_status] show ?thesis
    by (rule makes_mono) (auto intro: calls_of_none)
qed

text \<open>A successful \<open>check_fail\<close> had a successful first part.\<close>

lemma makes_check_fail:
  assumes "makes R m" and "\<And>es. R None es \<Longrightarrow> makes (\<lambda>r fs. r = None \<longrightarrow> Q (es @ fs)) k"
  shows "makes (\<lambda>r es. r = None \<longrightarrow> Q es) (check_fail m wrap k)"
  unfolding check_fail_def
  by (rule makes_bind[OF assms(1)]) (auto intro!: makes_ret assms(2) split: option.split)

definition cordoned_at :: "instant \<Rightarrow> managednode_status \<Rightarrow> managednode_status" where
  "cordoned_at t s = s\<lparr>st_kubernetesNodeCordoned := Some t\<rparr>"

definition cordon_lifted :: "managednode_status \<Rightarrow> managednode_status" where
  "cordon_lifted s = s\<lparr>st_kubernetesNodeCordoned := None\<rparr>"

lemma makes_cordon_call: "makes (\<lambda>r es. es = [EvCall (Cordon n b) (r = None)]) (cordon_call env n b)"
  unfolding cordon_call_def by (rule makes_called) (rule emits_ext)

lemma makes_status_written:
  "makes (\<lambda>r es. r = None \<longrightarrow> calls_of es = [] \<and> wrote_status f es)
     (check_fail (rewrite_status env key f) wrap (ret None))"
  by (rule makes_check_fail[OF makes_rewrite_status_only]) (auto intro!: makes_ret)

lemma makes_cordonNode:
  "makes (\<lambda>r es. r = None \<longrightarrow> (\<exists>ws t. es = EvCall (Cordon (om_name (kn_meta k)) True) True # ws \<and>
     calls_of ws = [] \<and> wrote_status (cordoned_at t) ws)) (cordonNode env node k)"
  unfolding cordonNode_def cordoned_at_def[symmetric, abs_def]
proof (rule makes_check_fail[OF makes_cordon_call], rule makes_bind_quiet)
  fix es t assume "es = [EvCall (Cordon (om_name (kn_meta k)) True) (None = (None :: err option))]"
  then show "makes (\<lambda>r fs. r = None \<longrightarrow> (\<exists>ws t. es @ fs = EvCall (Cordon (om_name (kn_meta k)) True) True # ws \<and>
      calls_of ws = [] \<and> wrote_status (cordoned_at t) ws))
     (check_fail (rewrite_status env (node_key node) (cordoned_at t))
       (Wrap ''failed to set cordon status on ManagedNode'') (ret None))"
    by (intro makes_mono[OF makes_status_written[where f = "cordoned_at t"]]) auto
qed (intro emits_rules)

text \<open>A cordon is on record before the upgrade goes on: when \<open>cordonNode\<close> succeeds, the Kubernetes
  node was made unschedulable and, after that, a status with the time of the cordon was written to the
  ManagedNode; nothing else was called.\<close>

theorem cordon_is_recorded:
  assumes "run_state (cordonNode env node k) w = (None, w')"
  shows "\<exists>es ws t. w_trace w' = w_trace w @ es \<and>
    visible es = EvCall (Cordon (om_name (kn_meta k)) True) True # ws \<and> calls_of ws = [] \<and>
    wrote_status (cordoned_at t) ws"
  using makesD[OF makes_cordonNode assms] by blast

lemma demo_cordon: "fst (run_state (cordonNode demo_env demo_upgrade_node \<lparr>kn_meta = empty_meta\<lparr>om_name := ''n1''\<rparr>,
    kn_unschedulable = False\<rparr>) demo_upgrade_world) = None"
  by (simp add: cordonNode_def cordon_call_def called_def store_client_def now_def rewrite_status_def
      RetryOnConflict_def default_backoff_steps_def numeral_eq_Suc api_get_def decode_def api_updateStatus_def
      api_write_def node_key_def nsn_def store_get_def store_update_def store_put_def Let_def key_of_def stamped_def
      demo_upgrade_world_def demo_world_def demo_node_defs)

theorem cordon_is_recorded_witness:
  "\<exists>w' ws t. run_state (cordonNode demo_env demo_upgrade_node \<lparr>kn_meta = empty_meta\<lparr>om_name := ''n1''\<rparr>,
     kn_unschedulable = False\<rparr>) demo_upgrade_world = (None, w') \<and>
     visible (w_trace w') = EvCall (Cordon ''n1'' True) True # ws \<and> wrote_status (cordoned_at t) ws"
proof -
  obtain w' where r: "run_state (cordonNode demo_env demo_upgrade_node \<lparr>kn_meta = empty_meta\<lparr>om_name := ''n1''\<rparr>,
      kn_unschedulable = False\<rparr>) demo_upgrade_world = (None, w')"
    using demo_cordon by (metis prod.collapse)
  from cordon_is_recorded[OF r] r show ?thesis by (auto simp: demo_upgrade_world_def demo_world_def)
qed

text \<open>Lifting a cordon.\<close>

definition lifts :: "event \<Rightarrow> bool" where
  "lifts e = (case e of EvCall (Cordon n b) _ \<Rightarrow> \<not> b | _ \<Rightarrow> False)"

lemma not_lifts [simp]:
  "is_exec e \<Longrightarrow> \<not> lifts e" "\<not> lifts (EvApi v x b)" "\<not> lifts (EvCall (Cordon n True) b)"
  "(\<forall>n b. c \<noteq> Cordon n b) \<Longrightarrow> \<not> lifts (EvCall c b)"
  by (auto simp: lifts_def is_exec_def split: event.splits call.splits)

context system_service
begin

lemma emits_handleUpgrade:
  assumes "sys = e_system (me_env me)"
    and P: "\<And>e. is_exec e \<Longrightarrow> P e" "\<And>n b. P (EvApi VUpdateStatus (OManagedNode n) b)" "\<And>n b. P (EvCall (Cordon n True) b)"
      "\<And>c b. \<forall>n d. c \<noteq> Cordon n d \<Longrightarrow> P (EvCall c b)"
  shows "emits P (handleUpgrade me node)"
proof -
  have sys: "emits P (ph_UpgradeAll (sy_package (e_system (me_env me))))"
    "emits P (nh_Upgrade (sy_node (e_system (me_env me))))" "emits P (nh_Reboot (sy_node (e_system (me_env me))))"
    using package_emits(4) node_emits(1,2) assms(1) by (auto intro: emits_mono P(1))
  show ?thesis
    unfolding handleUpgrade_def upgrade_scheduled_def upgrade_when_due_def upgrade_approved_def upgrade_locked_def
      lockfor_call_def run_upgrade_def record_and_reboot_def Let_def
    by (intro emits_rules sys) (simp_all add: P)
qed

lemma emits_updateNode:
  assumes "sys = e_system (me_env me)" and P: "\<And>e. is_exec e \<Longrightarrow> P e"
      "\<And>n b. P (EvApi VUpdateStatus (OManagedNode n) b)" "\<And>n b. P (EvApi VUpdate (OManagedNode n) b)"
      "\<And>s b. P (EvApi VCreate (OSecret s) b)"
  shows "emits P (updateNodeLabels me node)" "emits P (updateNodeStatus me node)"
    "emits P (pruneStaleConfigSetStatus (me_env me) node)" "emits P (migrateUpgradeAnnotation (me_env me) node)"
proof -
  have info: "emits P (nh_Info (sy_node (e_system (me_env me))))"
    using node_emits(4) assms(1) by (auto intro: emits_mono P(1))
  show "emits P (updateNodeLabels me node)"
    unfolding updateNodeLabels_def DefaultLabels_def Let_def by (intro emits_rules info) (simp add: P)
  show "emits P (updateNodeStatus me node)"
    unfolding updateNodeStatus_def collectNetworkInterfaces_def collectSSHHostKeys_def live_wireguard_def
      collectWireGuardInterfaces_def ensureWireGuardKeySecret_def generateWireGuardKeyPair_def isJailed_def Let_def
    by (intro emits_rules info) (simp_all add: P)
  show "emits P (pruneStaleConfigSetStatus (me_env me) node)"
    unfolding pruneStaleConfigSetStatus_def Let_def by (intro emits_rules) (simp add: P)
  show "emits P (migrateUpgradeAnnotation (me_env me) node)"
    unfolding migrateUpgradeAnnotation_def migrate_one_def by (intro emits_rules) (simp_all add: P)
qed

end

text \<open>C28: Only a cordon of its own is lifted: a reconcile makes a Kubernetes node schedulable only if the
  status of the ManagedNode records that this controller cordoned it. A node an administrator cordoned
  stays cordoned.\<close>

theorem only_own_cordon_is_lifted:
  assumes "system_service (e_system (me_env me))" and "run_state (reconcile_node me node) w = (r, w')"
    and "st_kubernetesNodeCordoned (mn_status node) = None"
  shows "\<exists>es. w_trace w' = w_trace w @ es \<and> (\<forall>n b. EvCall (Cordon n False) b \<notin> set es)"
proof -
  have P: "emits (\<lambda>e. \<not> lifts e) (handleUpgrade me n)" "emits (\<lambda>e. \<not> lifts e) (updateNodeLabels me n)"
    "emits (\<lambda>e. \<not> lifts e) (updateNodeStatus me n)" "emits (\<lambda>e. \<not> lifts e) (pruneStaleConfigSetStatus (me_env me) n)"
    "emits (\<lambda>e. \<not> lifts e) (migrateUpgradeAnnotation (me_env me) n)" for n
    by (intro system_service.emits_handleUpgrade[OF assms(1) refl] system_service.emits_updateNode[OF assms(1) refl], simp_all)+
  have "emits (\<lambda>e. \<not> lifts e) (reconcile_node me node)"
    unfolding reconcile_node_def maybeUncordon_def requeue_at_def assms(3)
    by (simp only: simp_thms if_True) (intro emits_rules P)
  from emitsD[OF this assms(2)] show ?thesis
    by (auto simp: list_all_iff lifts_def split: event.splits call.splits)
qed

theorem only_own_cordon_is_lifted_witness:
  "\<exists>r w'. run_state (reconcile_node demo_me demo_upgrade_node) demo_upgrade_world = (r, w') \<and>
     (\<forall>n b. EvCall (Cordon n False) b \<notin> set (w_trace w'))"
proof -
  obtain r w' where r: "run_state (reconcile_node demo_me demo_upgrade_node) demo_upgrade_world = (r, w')" by fastforce
  have "st_kubernetesNodeCordoned (mn_status demo_upgrade_node) = None" by (simp add: demo_node_defs)
  from only_own_cordon_is_lifted[OF demo_me_system r this] r show ?thesis
    by (auto simp: demo_upgrade_world_def demo_world_def)
qed

section \<open>The delay\<close>

lemma makes_now_before:
  assumes "\<And>s. fst (run_state (h_now h) s) < b"
  shows "makes (\<lambda>t es. t < b \<and> es = []) (now h)"
proof (rule makesI)
  fix w t w' assume "run_state (now h) w = (t, w')"
  then obtain s' where "run_state (h_now h) (w_ext w) = (t, s')" "w_trace w' = w_trace w"
    by (auto simp: now_def split: prod.splits)
  with assms[of "w_ext w"] show "\<exists>es. w_trace w' = w_trace w @ es \<and> t < b \<and> visible es = []" by simp
qed

text \<open>C29: An upgrade keeps its distance: as long as the clock has not reached the last upgrade plus the
  delay, \<open>handleUpgrade\<close> disturbs nothing and reports no error.\<close>

theorem no_upgrade_within_delay:
  assumes "ParseDuration (up_delay (mns_upgrade (mn_spec node))) = Inr delay" and "0 < delay"
    and "lastUpgradeTime node = Inr lastT" and "lastT \<noteq> zero_time"
    and clock: "\<And>s. fst (run_state (h_now (me_host me)) s) < lastT + delay"
    and run: "run_state (handleUpgrade me node) w = (r, w')"
  shows "\<exists>es. w_trace w' = w_trace w @ es \<and> calm (visible es)"
proof -
  have "delay < 2 ^ 63" using ParseDuration_range[OF assms(1)] by simp
  then have early: "t < lastT + delay \<Longrightarrow> time_sub t lastT < delay" for t
    using time_sub_less[OF assms(2)] by (simp add: algebra_simps)
  have due: "makes (\<lambda>r es. calm es) (upgrade_when_due me node sched nx lastT delay)" for sched nx
    unfolding upgrade_when_due_def
    by (simp add: assms(4), rule makes_bind[OF makes_now_before[OF clock]])
      (auto dest: early intro: makes_ret)
  have unlocked: "makes (\<lambda>r es. calm es)
      (called (UnlockCall req) (ext (lk_Unlock (e_locker (me_env me)) req)) \<bind> (\<lambda>_. ret (nx, None)))" for req nx
    by (rule makes_bind[OF makes_called[OF emits_ext]]) (auto intro: makes_ret)
  have "makes (\<lambda>r es. calm es) (upgrade_scheduled me node sched delay)" for sched
    unfolding upgrade_scheduled_def assms(3) Let_def sum.case
    by (rule makes_bind_quiet[OF emits_now])
      (auto split: option.split intro!: due makes_bind_quiet[OF emits_ext] unlocked)
  then have "makes (\<lambda>r es. calm es) (handleUpgrade me node)"
    unfolding handleUpgrade_def Let_def assms(1) sum.case by (auto intro!: makes_ret split: sum.split)
  from makesD[OF this run] show ?thesis .
qed

theorem no_upgrade_within_delay_witness:
  "\<exists>r w'. run_state (handleUpgrade noon_me (demo_upgrade_node\<lparr>mn_status := empty_status\<lparr>st_lastUpgrade := Some 50000000000000\<rparr>\<rparr>))
      demo_upgrade_world = (r, w') \<and> calm (visible (w_trace w'))"
proof -
  let ?n = "demo_upgrade_node\<lparr>mn_status := empty_status\<lparr>st_lastUpgrade := Some 50000000000000\<rparr>\<rparr>"
  obtain r w' where r: "run_state (handleUpgrade noon_me ?n) demo_upgrade_world = (r, w')" by fastforce
  have "\<exists>es. w_trace w' = w_trace demo_upgrade_world @ es \<and> calm (visible es)"
    by (rule no_upgrade_within_delay[OF _ _ _ _ _ r, of 43200000000000 50000000000000])
      (simp_all add: demo_delay lastUpgradeTime_def zero_time_def)
  with r show ?thesis by (auto simp: demo_upgrade_world_def demo_world_def)
qed

end
