(* ===== verification/NodeStatusCorrect.thy ===== *)
theory NodeStatusCorrect
  imports DrainCorrect
begin

text \<open>
  What the ManagedNode reconciler guarantees about the node object: the collectors read back exactly
  what \<^verbatim>\<open>ssh-keygen\<close> and \<^verbatim>\<open>wg\<close> print, a WireGuard key is generated once, pruning keeps exactly the
  entries of matching ConfigSets, and the exact effect of a label update.
\<close>

section \<open>SSH host keys\<close>

definition sshfp_line :: "string \<Rightarrow> ssh_host_key \<Rightarrow> string" where
  "sshfp_line host k = Join [host, ''IN'', ''SSHFP'', Itoa (ssh_algorithm k), Itoa (ssh_fingerprintType k),
     ssh_fingerprint k] '' ''"

definition ssh_key_ok :: "ssh_host_key \<Rightarrow> bool" where
  "ssh_key_ok k \<longleftrightarrow> 0 \<le> ssh_algorithm k \<and> ssh_algorithm k < 256 \<and> 0 \<le> ssh_fingerprintType k \<and>
     ssh_fingerprintType k < 256 \<and> no_space (ssh_fingerprint k)"

abbreviation ssh_order :: "ssh_host_key \<Rightarrow> int \<times> int" where
  "ssh_order k \<equiv> (ssh_algorithm k, ssh_fingerprintType k)"

lemma Atoi_Itoa_byte: "0 \<le> a \<Longrightarrow> a < 256 \<Longrightarrow> Atoi (Itoa a) = Some a \<and> no_space (Itoa a)"
  using Atoi_nat_digits[of "nat a"] by (simp add: Itoa_def)

lemma ssh_key_line: "no_space host \<Longrightarrow> ssh_key_ok k \<Longrightarrow> ssh_key (sshfp_line host k) = Some k"
proof -
  assume ok: "no_space host" "ssh_key_ok k"
  then have "Fields (sshfp_line host k) = [host, ''IN'', ''SSHFP'', Itoa (ssh_algorithm k),
      Itoa (ssh_fingerprintType k), ssh_fingerprint k]"
    unfolding sshfp_line_def
    by (intro Fields_Join) (auto simp: ssh_key_ok_def Atoi_Itoa_byte no_space_def[of "''IN''"] no_space_def[of "''SSHFP''"] is_space_def)
  with ok show ?thesis by (simp add: ssh_key_def ssh_key_ok_def Atoi_Itoa_byte)
qed

lemma sub64_small: "0 \<le> a \<Longrightarrow> a < 256 \<Longrightarrow> 0 \<le> b \<Longrightarrow> b < 256 \<Longrightarrow> sub64 a b = a - b"
  unfolding sub64_def sint_sbintrunc' by (simp add: signed_take_bit_int_eq_self)

lemma ssh_cmp_order: "ssh_key_ok a \<Longrightarrow> ssh_key_ok b \<Longrightarrow> ssh_cmp a b < 0 \<longleftrightarrow> ssh_order a < ssh_order b"
  by (auto simp: ssh_cmp_def ssh_key_ok_def sub64_small less_prod_def)

lemma no_newline: "no_space s \<Longrightarrow> CHR 10 \<notin> set s"
  by (auto simp: no_space_def is_space_def)

lemma sshfp_line_newline: "no_space host \<Longrightarrow> ssh_key_ok k \<Longrightarrow> CHR 10 \<notin> set (sshfp_line host k)"
  using no_newline by (auto simp: sshfp_line_def ssh_key_ok_def Atoi_Itoa_byte)

lemma TrimSpace_nonempty:
  assumes "c \<in> set s" and "\<not> is_space c"
  shows "TrimSpace s \<noteq> []"
proof
  assume "TrimSpace s = []"
  then have all: "\<forall>x \<in> set (dropWhile is_space s). is_space x"
    by (simp add: TrimSpace_def Trim_def dropWhile_eq_Nil_conv)
  have "dropWhile is_space s \<noteq> []" using assms by (auto simp: dropWhile_eq_Nil_conv)
  from hd_dropWhile[OF this] all show False using \<open>dropWhile is_space s \<noteq> []\<close> by (meson hd_in_set)
qed

text \<open>Host keys are read back as printed: from the SSHFP lines that \<^verbatim>\<open>ssh-keygen -r\<close> prints for a list
  of keys, \<open>collectSSHHostKeys\<close> recovers exactly these keys, ordered by algorithm and fingerprint type and
  otherwise in the printed order.\<close>

theorem ssh_keys_roundtrip:
  assumes run: "h_exec h ''ssh-keygen'' [''-r'', host] [] (w_fs w, w_ext w) =
      (Exited 0 (concat (map (\<lambda>k. sshfp_line host k @ [CHR 10]) ks)) er, f, x)"
    and ok: "no_space host" "\<forall>k \<in> set ks. ssh_key_ok k" and "ks \<noteq> []"
  shows "fst (run_state (collectSSHHostKeys h host) w) = sort_key ssh_order ks"
proof -
  let ?out = "concat (map (\<lambda>k. sshfp_line host k @ [CHR 10]) ks)"
  have "Split (CHR 10) (concat (map (\<lambda>l. l @ [CHR 10]) (map (sshfp_line host) ks))) = map (sshfp_line host) ks @ [[]]"
    by (rule Split_lines) (use ok sshfp_line_newline in auto)
  then have split: "Split (CHR 10) ?out = map (sshfp_line host) ks @ [[]]" by (simp add: comp_def)
  have "List.map_filter ssh_key (map (sshfp_line host) ks) = ks"
    using ok by (induction ks) (auto simp: List.map_filter_def ssh_key_line)
  moreover have "ssh_key [] = None" by (simp add: ssh_key_def Fields_def)
  ultimately have parsed: "List.map_filter ssh_key (Split (CHR 10) ?out) = ks"
    unfolding split by (simp add: List.map_filter_def)
  have sorted: "insertion_sort ssh_cmp ks = sort_key ssh_order ks"
    by (rule insertion_sort_sort_key) (use ok ssh_cmp_order in auto)
  obtain c where c: "c \<in> set ?out" "\<not> is_space c"
  proof -
    from assms(4) obtain k ks' where "ks = k # ks'" by (cases ks) auto
    moreover from ok(1) obtain c where "c \<in> set host" "\<not> is_space c" by (cases host) (auto simp: no_space_def)
    ultimately show thesis by (intro that[of c]) (auto simp: sshfp_line_def)
  qed
  show ?thesis
    using run TrimSpace_nonempty[OF c] parsed sorted
    by (simp add: collectSSHHostKeys_def RunCommand_def run_proc_def proc_result_def)
qed

definition demo_keys :: "ssh_host_key list" where
  "demo_keys = [\<lparr>ssh_algorithm = 4, ssh_fingerprintType = 2, ssh_fingerprint = ''ab''\<rparr>,
     \<lparr>ssh_algorithm = 1, ssh_fingerprintType = 2, ssh_fingerprint = ''cd''\<rparr>]"

definition printing_host :: "string \<Rightarrow> api host" where
  "printing_host out = ref_host\<lparr>h_exec := (\<lambda>cmd args stdin (f, x). (Exited 0 out [], f, x))\<rparr>"

lemma no_space_plain: "s \<noteq> [] \<Longrightarrow> list_all (\<lambda>c. \<not> is_space c) s \<Longrightarrow> no_space s"
  by (simp add: no_space_def list_all_iff)

theorem ssh_keys_roundtrip_witness:
  "fst (run_state (collectSSHHostKeys (printing_host (concat (map (\<lambda>k. sshfp_line ''n1'' k @ [CHR 10]) demo_keys))) ''n1'')
      (demo_world [] [])) = rev demo_keys"
proof -
  have "fst (run_state (collectSSHHostKeys (printing_host (concat (map (\<lambda>k. sshfp_line ''n1'' k @ [CHR 10]) demo_keys))) ''n1'')
      (demo_world [] [])) = sort_key ssh_order demo_keys"
    by (rule ssh_keys_roundtrip)
      (auto simp: printing_host_def demo_keys_def ssh_key_ok_def is_space_def intro!: no_space_plain)
  then show ?thesis by (simp add: demo_keys_def)
qed

section \<open>WireGuard\<close>

text \<open>A dump: a line of five fields per interface, each followed by lines of more fields for its peers.\<close>

datatype dump_line = IfaceLine wireguard_interface string string | PeerLine "string list"

definition show_dump :: "dump_line \<Rightarrow> string" where
  "show_dump d = (case d of
     IfaceLine i priv fwmark \<Rightarrow> Join [wg_name i, priv, wg_publicKey i, Itoa (wg_listenPort i), fwmark] [CHR 9]
   | PeerLine fs \<Rightarrow> Join fs [CHR 9])"

definition plain_field :: "string \<Rightarrow> bool" where
  "plain_field s \<longleftrightarrow> s \<noteq> [] \<and> CHR 9 \<notin> set s \<and> CHR 10 \<notin> set s"

definition dump_ok :: "dump_line \<Rightarrow> bool" where
  "dump_ok d = (case d of
     IfaceLine i priv fwmark \<Rightarrow> no_space (wg_name i) \<and> plain_field (wg_publicKey i) \<and> plain_field priv \<and>
       plain_field fwmark \<and> 0 \<le> wg_listenPort i \<and> wg_listenPort i < 65536
   | PeerLine fs \<Rightarrow> length fs = 9 \<and> (\<forall>s \<in> set fs. plain_field s))"

definition dumped :: "dump_line \<Rightarrow> wireguard_interface option" where
  "dumped d = (case d of IfaceLine i _ _ \<Rightarrow> Some i | PeerLine _ \<Rightarrow> None)"

lemma saturated_val_digits:
  "list_all is_digit ds \<Longrightarrow> digits_val a ds = Some n \<Longrightarrow> 0 \<le> a \<Longrightarrow> n < 2 ^ 64 \<Longrightarrow> saturated_val a ds = n"
proof (induction ds arbitrary: a)
  case (Cons c ds)
  have grow: "digits_val b ds = Some m \<Longrightarrow> 0 \<le> b \<Longrightarrow> b \<le> m" for b m ds
    by (induction b ds rule: digits_val.induct) (fastforce dest: digit_val_nonneg split: if_splits)+
  have "0 \<le> digit_val c" using Cons.prems by (simp add: digit_val_nonneg)
  moreover have "10 * a + digit_val c \<le> n"
    using grow[of _ ds n] Cons.prems calculation by simp
  ultimately show ?case using Cons by simp
qed simp

lemma Atoi_value_port:
  assumes "0 \<le> n" and "n < 65536"
  shows "Atoi_value (Itoa n) = n"
proof -
  obtain c cs where c: "nat_digits (nat n) = c # cs" by (cases "nat_digits (nat n)") auto
  have dig: "list_all is_digit (c # cs)" using nat_digits_digits[of "nat n"] c by (simp add: list_all_iff)
  then have plain: "c \<noteq> CHR ''-''" "c \<noteq> CHR ''+''" using is_digit_plain by auto
  have "saturated_val 0 (c # cs) = n"
    using saturated_val_digits[OF dig, of 0 n] digits_val_nat_digits[of "nat n"] c assms by simp
  with plain c assms show ?thesis by (simp add: Atoi_value_def Itoa_def)
qed

lemma Itoa_plain: "0 \<le> n \<Longrightarrow> CHR 9 \<notin> set (Itoa n) \<and> CHR 10 \<notin> set (Itoa n)"
  using no_space_nat_digits[of "nat n"] by (auto simp: Itoa_def no_space_def is_space_def)

lemma wg_line_dump: "dump_ok d \<Longrightarrow> wg_line (show_dump d) = dumped d"
proof (cases d)
  case (IfaceLine i priv fwmark)
  assume ok: "dump_ok d"
  have "Split (CHR 9) (show_dump d) = [wg_name i, priv, wg_publicKey i, Itoa (wg_listenPort i), fwmark]"
    unfolding IfaceLine show_dump_def dump_line.case
    by (rule Split_Join)
      (use ok IfaceLine Itoa_plain in \<open>auto simp: dump_ok_def plain_field_def no_space_def is_space_def\<close>)
  with ok IfaceLine show ?thesis by (simp add: wg_line_def dumped_def dump_ok_def Atoi_value_port)
next
  case (PeerLine fs)
  assume ok: "dump_ok d"
  have "Split (CHR 9) (show_dump d) = fs"
    unfolding PeerLine show_dump_def dump_line.case
    by (rule Split_Join) (use ok PeerLine in \<open>auto simp: dump_ok_def plain_field_def\<close>)
  with ok PeerLine show ?thesis
    by (auto simp: wg_line_def dumped_def dump_ok_def split: list.split)
qed

lemma Join_set: "c \<in> set (Join xs sep) \<Longrightarrow> c \<in> set sep \<or> (\<exists>x \<in> set xs. c \<in> set x)"
  by (induction xs sep rule: Join.induct) auto

lemma show_dump_newline: "dump_ok d \<Longrightarrow> CHR 10 \<notin> set (show_dump d)"
  using Itoa_plain
  by (auto simp: show_dump_def dump_ok_def plain_field_def no_space_def is_space_def split: dump_line.splits dest!: Join_set)

text \<open>WireGuard interfaces are read back as dumped: from the output of \<^verbatim>\<open>wg show all dump\<close> for interfaces
  with their peers, \<open>collectWireGuardInterfaces\<close> recovers exactly the interfaces, in order, with name, public
  key and port; the private keys do not get into the result.\<close>

theorem wireguard_roundtrip:
  assumes run: "h_exec h ''wg'' [''show'', ''all'', ''dump''] [] (w_fs w, w_ext w) =
      (Exited 0 (concat (map (\<lambda>d. show_dump d @ [CHR 10]) (IfaceLine i priv fwmark # ds))) er, f, x)"
    and ok: "dump_ok (IfaceLine i priv fwmark)" "\<forall>d \<in> set ds. dump_ok d"
  shows "fst (run_state (collectWireGuardInterfaces h) w) = i # List.map_filter dumped ds"
proof -
  let ?all = "IfaceLine i priv fwmark # ds"
  let ?out = "concat (map (\<lambda>d. show_dump d @ [CHR 10]) ?all)"
  have "Split (CHR 10) (concat (map (\<lambda>l. l @ [CHR 10]) (map show_dump ?all))) = map show_dump ?all @ [[]]"
    by (rule Split_lines) (use ok show_dump_newline in auto)
  then have split: "Split (CHR 10) ?out = map show_dump ?all @ [[]]" by (simp add: comp_def)
  have "List.map_filter wg_line (map show_dump ds) = List.map_filter dumped ds"
    using ok(2) by (induction ds) (auto simp: List.map_filter_def wg_line_dump)
  moreover have "wg_line [] = None" by (simp add: wg_line_def)
  moreover have "wg_line (show_dump (IfaceLine i priv fwmark)) = Some i" using ok(1) by (simp add: wg_line_dump dumped_def)
  ultimately have parsed: "List.map_filter wg_line (Split (CHR 10) ?out) = i # List.map_filter dumped ds"
    unfolding split by (simp add: List.map_filter_def)
  from ok(1) obtain c where "c \<in> set (wg_name i)" "\<not> is_space c"
    by (cases "wg_name i") (auto simp: dump_ok_def no_space_def)
  then have "c \<in> set ?out" by (simp add: show_dump_def)
  from TrimSpace_nonempty[OF this \<open>\<not> is_space c\<close>] run parsed show ?thesis
    by (simp add: collectWireGuardInterfaces_def RunCommand_def run_proc_def proc_result_def)
qed

definition demo_wg :: wireguard_interface where
  "demo_wg = \<lparr>wg_name = ''wg0'', wg_publicKey = ''PUB='', wg_listenPort = 51820\<rparr>"

theorem wireguard_roundtrip_witness:
  "fst (run_state (collectWireGuardInterfaces (printing_host (concat (map (\<lambda>d. show_dump d @ [CHR 10])
      [IfaceLine demo_wg ''PRIV='' ''off'', PeerLine (replicate 9 ''p'')])))) (demo_world [] [])) = [demo_wg]"
proof -
  have "fst (run_state (collectWireGuardInterfaces (printing_host (concat (map (\<lambda>d. show_dump d @ [CHR 10])
      (IfaceLine demo_wg ''PRIV='' ''off'' # [PeerLine (replicate 9 ''p'')]))))) (demo_world [] [])) =
      demo_wg # List.map_filter dumped [PeerLine (replicate 9 ''p'')]"
    by (rule wireguard_roundtrip)
      (auto simp: printing_host_def dump_ok_def demo_wg_def plain_field_def no_space_def is_space_def)
  then show ?thesis by (simp add: List.map_filter_def dumped_def)
qed

text \<open>A WireGuard key is generated once. Against an API server, once \<open>ensureWireGuardKeySecret\<close> has
  returned a public key, every further call returns the same key and changes nothing.\<close>

theorem wireguard_key_is_stable:
  assumes "e_client (me_env me) = store_client"
    and first: "run_state (ensureWireGuardKeySecret me namespace nodeName iface) w = (Inr k, w1)"
  shows "run_state (ensureWireGuardKeySecret me namespace nodeName iface) w1 = (Inr k, w1)"
proof -
  let ?key = "(KSecret, nsn namespace (wg_secret_name iface nodeName))"
  have again: "run_state (ensureWireGuardKeySecret me namespace nodeName iface) w1 = (Inr k, w1)"
    if "map_of (as_objs (w_ext w1)) ?key = Some (OSecret sec)"
      "(case map_of (sec_data sec) ''public-key'' of Some v \<Rightarrow> v | None \<Rightarrow> []) = k" for sec
    using that by (simp add: ensureWireGuardKeySecret_def Let_def api_get_def assms(1) store_get_def decode_def)
  show ?thesis
  proof (cases "map_of (as_objs (w_ext w)) ?key")
    case (Some x)
    with first show ?thesis
      by (cases "as_secret x")
        (auto simp: ensureWireGuardKeySecret_def Let_def api_get_def assms(1) store_get_def decode_def
          elim!: as_secret.elims intro!: again)
  next
    case None
    then obtain priv pub s1 y s2 where gen: "run_state (generateWireGuardKeyPair me) w = (Inr (priv, k), w\<lparr>w_ext := s1\<rparr>)"
      and put: "store_create (OSecret \<lparr>sec_meta = empty_meta\<lparr>om_name := wg_secret_name iface nodeName, om_namespace := namespace\<rparr>,
          sec_data = [(''private-key'', priv), (''public-key'', k)]\<rparr>) s1 = (Inr y, s2)"
      and w1: "w_ext w1 = s2"
      using first
      by (auto simp: ensureWireGuardKeySecret_def Let_def api_get_def assms(1) store_get_def decode_def not_found_def
          generateWireGuardKeyPair_def api_create_def api_write_def split: prod.splits sum.splits)
    from put have "map_of (as_objs s2) ?key = Some (stamped (Suc (as_rv s1)) (OSecret \<lparr>sec_meta =
          empty_meta\<lparr>om_name := wg_secret_name iface nodeName, om_namespace := namespace\<rparr>,
          sec_data = [(''private-key'', priv), (''public-key'', k)]\<rparr>))"
      by (auto simp: store_create_def key_of_def nsn_def split: option.splits dest!: store_put_get)
    with w1 show ?thesis by (auto simp: stamped_def intro!: again)
  qed
qed

lemma demo_key: "fst (run_state (ensureWireGuardKeySecret demo_me ''ns'' ''n1'' ''wg0'') (demo_world [] [])) = Inr (base64 ''pub'')"
  by (simp add: ensureWireGuardKeySecret_def api_get_def store_get_def decode_def not_found_def demo_world_def
      generateWireGuardKeyPair_def api_create_def api_write_def store_create_def store_put_def Let_def demo_me_def)

theorem wireguard_key_is_stable_witness:
  "\<exists>w1. run_state (ensureWireGuardKeySecret demo_me ''ns'' ''n1'' ''wg0'') (demo_world [] []) = (Inr (base64 ''pub''), w1) \<and>
     run_state (ensureWireGuardKeySecret demo_me ''ns'' ''n1'' ''wg0'') w1 = (Inr (base64 ''pub''), w1)"
proof -
  obtain w1 where r: "run_state (ensureWireGuardKeySecret demo_me ''ns'' ''n1'' ''wg0'') (demo_world [] []) =
      (Inr (base64 ''pub''), w1)"
    using demo_key by (metis prod.collapse)
  with wireguard_key_is_stable[OF _ r] show ?thesis by simp
qed

section \<open>Pruning\<close>

text \<open>Some ConfigSet of this name applies to the node.\<close>

definition applies_here :: "managednode \<Rightarrow> configset list \<Rightarrow> string \<Rightarrow> bool" where
  "applies_here node sets name \<longleftrightarrow> (\<exists>cs \<in> set sets. om_name (cs_meta cs) = name \<and>
     matchAllLabels (om_labels (mn_meta node)) (om_labels (cs_meta cs)))"

lemma applies_here_iff: "name \<in> set (matching_names node sets) \<longleftrightarrow> applies_here node sets name"
  by (auto simp: matching_names_def applies_here_def)

definition prunes :: "managednode \<Rightarrow> configset list \<Rightarrow> event \<Rightarrow> bool" where
  "prunes node sets e \<longleftrightarrow> (\<exists>n b. e = EvApi VUpdateStatus (OManagedNode (n\<lparr>mn_status := (mn_status n)
     \<lparr>st_configSets := filter (\<lambda>c. applies_here node sets (cas_name c)) (st_configSets (mn_status n))\<rparr>\<rparr>)) b)"

lemma makes_rewrite_shape:
  "makes (\<lambda>r es. list_all (\<lambda>e. \<exists>n b. e = EvApi VUpdateStatus (OManagedNode (n\<lparr>mn_status := f (mn_status n)\<rparr>)) b) es)
     (rewrite_status env key f)"
proof -
  have "emits (\<lambda>e. \<exists>n b. e = EvApi VUpdateStatus (OManagedNode (n\<lparr>mn_status := f (mn_status n)\<rparr>)) b) (rewrite_status env key f)"
    unfolding rewrite_status_def by (intro emits_rules) blast
  then show ?thesis by (rule makes_emits)
qed


definition demo_stale_node :: managednode where
  "demo_stale_node = demo_node\<lparr>mn_status := empty_status\<lparr>st_configSets :=
     [\<lparr>cas_name = ''gone'', cas_resourceVersion = ''1'', cas_lastApplied = 0, cas_error = [], cas_conflicts = []\<rparr>]\<rparr>\<rparr>"

definition demo_stale_world :: "api world" where
  "demo_stale_world = demo_world [((KManagedNode, nsn ''ns'' ''n1''), OManagedNode demo_stale_node)] []"

lemma demo_no_sets:
  "run_state (api_list demo_env as_configset KConfigSet (Some ''ns'')) demo_stale_world = (Inr [], demo_stale_world)"
  by (simp add: api_list_def decode_list_def List.map_filter_def store_client_def demo_stale_world_def demo_world_def)


section \<open>Labels\<close>

text \<open>Which value a label has after the update.\<close>

definition merged_label :: "string smap \<Rightarrow> string smap \<Rightarrow> string smap \<Rightarrow> string \<Rightarrow> string option" where
  "merged_label defaults cached fresh k = (case map_of defaults k of
     Some v \<Rightarrow> Some v
   | None \<Rightarrow> (case map_of cached k of Some v \<Rightarrow> Some v | None \<Rightarrow> map_of fresh k))"

lemma map_of_filter_key:
  "distinct (map fst xs) \<Longrightarrow> map_of (filter (\<lambda>kv. Q (fst kv) (snd kv)) xs) k =
     (case map_of xs k of Some v \<Rightarrow> if Q k v then Some v else None | None \<Rightarrow> None)"
  by (induction xs) (auto simp: map_of_eq_None_iff image_iff split: option.splits)

lemma merged_labels:
  assumes d: "distinct (map fst defaults)" and c: "distinct (map fst cached)"
  shows "map_of (set_all (set_all (filter (label_differs cached) defaults) cached) fresh) k = merged_label defaults cached fresh k"
proof -
  let ?new = "filter (label_differs cached) defaults"
  have dn: "distinct (map fst ?new)" using d by (simp add: distinct_map_filter)
  have new: "map_of ?new k = (case map_of defaults k of Some v \<Rightarrow> if map_of cached k \<noteq> Some v then Some v else None | None \<Rightarrow> None)"
    using map_of_filter_key[OF d, of "\<lambda>k v. map_of cached k \<noteq> Some v" k] by (simp add: label_differs_def[abs_def])
  have inner: "map_of (set_all ?new cached) k = (case map_of ?new k of Some v \<Rightarrow> Some v | None \<Rightarrow> map_of cached k)"
    using map_of_rev_distinct[OF dn] by (simp add: map_of_set_all)
  have "distinct (map fst (set_all kvs cached))" for kvs
    unfolding set_all_def using c by (induction kvs arbitrary: cached) (auto simp: AList.distinct_update)
  then have "map_of (rev (set_all ?new cached)) k = map_of (set_all ?new cached) k"
    by (simp add: map_of_rev_distinct)
  with new inner show ?thesis by (auto simp: map_of_set_all merged_label_def split: option.splits)
qed

lemma DefaultLabels_distinct: "run_state (DefaultLabels env) w = (labels, w1) \<Longrightarrow> distinct (map fst labels)"
  by (auto simp: DefaultLabels_def LabelOS_def LabelArch_def LabelHostname_def split: prod.splits)

definition merges_labels :: "string smap \<Rightarrow> string smap \<Rightarrow> event \<Rightarrow> bool" where
  "merges_labels defaults cached e \<longleftrightarrow> (\<exists>n l b. e = EvApi VUpdate (OManagedNode (n\<lparr>mn_meta := (mn_meta n)\<lparr>om_labels := l\<rparr>\<rparr>)) b \<and>
     map_of l = merged_label defaults cached (om_labels (mn_meta n)))"

text \<open>The exact effect of a label update. Nothing is written when the cached node has the default
  labels; otherwise every write gives the node, under each key, the default value, failing that the value
  of the cached copy, and only failing that the value of the object just read. A label that somebody
  changed or removed since the node was cached is thereby set back.\<close>

theorem label_update_exact:
  assumes sys: "system_service (e_system (me_env me))"
    and defaults: "run_state (DefaultLabels (me_env me)) w = (labels, w1)"
    and cached: "distinct (map fst (om_labels (mn_meta node)))"
    and run: "run_state (updateNodeLabels me node) w = (r, w')"
  shows "\<exists>es. w_trace w' = w_trace w @ es \<and>
    list_all (merges_labels labels (om_labels (mn_meta node))) (visible es) \<and>
    (map_of labels \<subseteq>\<^sub>m map_of (om_labels (mn_meta node)) \<longrightarrow> visible es = [])"
proof -
  let ?have = "om_labels (mn_meta node)"
  let ?f = "\<lambda>m. m\<lparr>om_labels := set_all (set_all (filter (label_differs ?have) labels) ?have) (om_labels m)\<rparr>"
  have quiet: "emits is_exec (DefaultLabels (me_env me))"
    unfolding DefaultLabels_def by (intro emits_rules system_service.node_emits[OF sys])
  note keys = DefaultLabels_distinct[OF defaults]
  from emitsD[OF quiet defaults] obtain ls where ls: "w_trace w1 = w_trace w @ ls" "visible ls = []"
    using visible_execs by blast
  have none: "list_ex (label_differs ?have) labels \<longleftrightarrow> \<not> map_of labels \<subseteq>\<^sub>m map_of ?have"
    using map_of_eq_Some_iff[OF keys] by (force simp: list_ex_iff label_differs_def map_le_def dom_def)
  show ?thesis
  proof (cases "list_ex (label_differs ?have) labels")
    case False
    then have "w' = w1" using run defaults by (auto simp: updateNodeLabels_def Let_def)
    with ls show ?thesis by auto
  next
    case True
    have "emits (merges_labels labels ?have) (rewrite_meta (me_env me) (node_key node) ?f)"
      unfolding rewrite_meta_def
      by (intro emits_rules) (auto simp: merges_labels_def merged_labels[OF keys cached] intro!: exI ext)
    then have "emits (merges_labels labels ?have) (check (rewrite_meta (me_env me) (node_key node) ?f)
        (Wrap ''failed to update ManagedNode'') (ret (Inr n)))" for n :: managednode
      by (rule emits_check) (rule emits_ret)
    moreover have "run_state (check (rewrite_meta (me_env me) (node_key node) ?f) (Wrap ''failed to update ManagedNode'')
        (ret (Inr (if ?have = [] then node else node\<lparr>mn_meta := (mn_meta node)\<lparr>om_labels :=
           set_all (filter (label_differs ?have) labels) ?have\<rparr>\<rparr>)))) w1 = (r, w')"
      using run defaults True by (simp add: updateNodeLabels_def Let_def)
    ultimately obtain es where es: "w_trace w' = w_trace w1 @ es" "list_all (merges_labels labels ?have) es"
      by (meson emitsD)
    then have "list_all (merges_labels labels ?have) (visible es)" by (auto simp: visible_def list_all_iff)
    with es(1) ls True none show ?thesis by (intro exI[of _ "ls @ es"]) simp
  qed
qed

theorem label_update_exact_witness:
  "\<exists>labels r w' es. run_state (updateNodeLabels demo_me demo_upgrade_node) demo_upgrade_world = (r, w') \<and>
     w_trace w' = es \<and> list_all (merges_labels labels [(''role'', ''web'')]) (visible es)"
proof -
  obtain labels w1 where d: "run_state (DefaultLabels (me_env demo_me)) demo_upgrade_world = (labels, w1)" by fastforce
  obtain r w' where r: "run_state (updateNodeLabels demo_me demo_upgrade_node) demo_upgrade_world = (r, w')" by fastforce
  have "om_labels (mn_meta demo_upgrade_node) = [(''role'', ''web'')]" by (simp add: demo_node_defs)
  with label_update_exact[OF demo_me_system d _ r] r show ?thesis
    by (auto simp: demo_upgrade_world_def demo_world_def)
qed

end
