(* ===== verification/Access.thy ===== *)
theory Access
  imports Bootstrap WebhookCorrect JailCorrect NodeStatusCorrect
begin

text \<open>
  The permissions a node is given against what its controllers do with them: the rules printed by
  \<^verbatim>\<open>nodemanager rbac\<close>, the writes the reconcilers make, and the service account names the admission
  webhook recognises.
\<close>

section \<open>What a rule grants\<close>

text \<open>The API group and resource of an object; the target of a notification is whatever its reference
  names, and no rule is written for it.\<close>

definition resource_of :: "kobj \<Rightarrow> (string \<times> string) option" where
  "resource_of x = (case x of
     OManagedNode _ \<Rightarrow> Some (''common.nodemanager'', ''managednodes'')
   | OConfigSet _ \<Rightarrow> Some (''common.nodemanager'', ''configsets'')
   | OJail _ \<Rightarrow> Some (''freebsd.nodemanager'', ''jails'')
   | OJailTemplate _ \<Rightarrow> Some (''freebsd.nodemanager'', ''jailtemplates'')
   | OPoudriereBulk _ \<Rightarrow> Some (''freebsd.nodemanager'', ''poudrierebulks'')
   | OPoudriereJail _ \<Rightarrow> Some (''freebsd.nodemanager'', ''poudrierejails'')
   | OPoudrierePorts _ \<Rightarrow> Some (''freebsd.nodemanager'', ''poudriereports'')
   | OLease _ \<Rightarrow> Some (''coordination.k8s.io'', ''leases'')
   | OSecret _ \<Rightarrow> Some ([], ''secrets'')
   | OConfigMap _ \<Rightarrow> Some ([], ''configmaps'')
   | ONode _ \<Rightarrow> Some ([], ''nodes'')
   | OPod _ \<Rightarrow> Some ([], ''pods'')
   | OUnstructured _ \<Rightarrow> None)"

definition permits :: "policy_rule list \<Rightarrow> string \<Rightarrow> string \<Rightarrow> string \<Rightarrow> bool" where
  "permits rules v grp res \<longleftrightarrow> (\<exists>r \<in> set rules. v \<in> set (pr_verbs r) \<and> grp \<in> set (pr_apiGroups r) \<and>
     res \<in> set (pr_resources r) \<and> pr_resourceNames r = [])"

text \<open>Cordoning patches the Kubernetes node, an eviction is a create on the pod's subresource, the locker
  creates and updates leases; every other call stays on the machine.\<close>

definition granted :: "policy_rule list \<Rightarrow> event \<Rightarrow> bool" where
  "granted rules e = (case e of
     EvApi v x _ \<Rightarrow> (case resource_of x of
       None \<Rightarrow> False
     | Some (grp, res) \<Rightarrow> (case v of
         VCreate \<Rightarrow> permits rules ''create'' grp res
       | VUpdate \<Rightarrow> permits rules ''update'' grp res
       | VUpdateStatus \<Rightarrow> permits rules ''update'' grp (res @ ''/status'')))
   | EvCall (Cordon _ _) _ \<Rightarrow> permits rules ''patch'' [] ''nodes''
   | EvCall (EvictPod _) _ \<Rightarrow> permits rules ''create'' [] ''pods/eviction''
   | EvCall c _ \<Rightarrow> c \<in> range LockCall \<union> range (case_prod LockForCall) \<union> range UnlockCall \<longrightarrow>
       permits rules ''create'' ''coordination.k8s.io'' ''leases'' \<and> permits rules ''update'' ''coordination.k8s.io'' ''leases''
   | _ \<Rightarrow> True)"

definition drains :: "event \<Rightarrow> bool" where
  "drains e = (case e of EvCall (Cordon _ _) _ \<Rightarrow> True | EvCall (EvictPod _) _ \<Rightarrow> True | _ \<Rightarrow> False)"

lemmas rights_defs = granted_def permits_def resource_of_def nodeClusterRoleRules_def rule_def drains_def

lemma granted_writes [simp]:
  "granted nodeClusterRoleRules (EvApi VUpdate (OJail j) b)" "granted nodeClusterRoleRules (EvApi VUpdateStatus (OJail j) b)"
  "granted nodeClusterRoleRules (EvApi VUpdateStatus (OManagedNode n) b)" "granted nodeClusterRoleRules (EvApi VUpdate (OManagedNode n) b)"
  "granted nodeClusterRoleRules (EvApi VCreate (OSecret s) b)" "\<not> granted nodeClusterRoleRules (EvApi VCreate (OManagedNode n) b)"
  by (simp_all add: rights_defs)

lemma lease_rights:
  "permits nodeClusterRoleRules ''create'' ''coordination.k8s.io'' ''leases''"
  "permits nodeClusterRoleRules ''update'' ''coordination.k8s.io'' ''leases''"
  "\<not> permits nodeClusterRoleRules ''patch'' [] ''nodes''" "\<not> permits nodeClusterRoleRules ''create'' [] ''pods/eviction''"
  by (simp_all add: permits_def nodeClusterRoleRules_def rule_def)

lemma granted_calls [simp]:
  "\<not> drains (EvCall c b) \<Longrightarrow> granted nodeClusterRoleRules (EvCall c b)"
  "drains e \<Longrightarrow> \<not> granted nodeClusterRoleRules e"
  by (auto simp: granted_def drains_def lease_rights split: event.splits call.splits)

lemma granted_exec [simp]: "is_exec e \<Longrightarrow> granted rules e"
  by (cases e) (auto simp: is_exec_def granted_def)

section \<open>The reconcilers stay within it\<close>

lemma emits_jail_granted: "emits (granted nodeClusterRoleRules) (Jail_Reconcile je req)"
  unfolding Jail_Reconcile_def jail_live_defs jail_deleted_defs report_state_def
  by (intro emits_rules) (auto simp: drains_def)

definition node_rights :: "event \<Rightarrow> bool" where
  "node_rights e \<longleftrightarrow> granted nodeClusterRoleRules e \<or> drains e"

lemma node_rights [simp]:
  "granted nodeClusterRoleRules e \<Longrightarrow> node_rights e" "node_rights (EvCall c b)"
  by (auto simp: node_rights_def)

lemma emits_node_granted:
  assumes sys: "system_service (e_system (me_env me))"
  shows "emits node_rights (ManagedNode_Reconcile me req)"
proof -
  have host: "emits node_rights (nh_Hostname (sy_node (e_system (me_env me))))"
    using system_service.node_emits(3)[OF sys] by (rule emits_mono) simp
  have parts: "emits node_rights (handleUpgrade me n)" "emits node_rights (updateNodeLabels me n)"
    "emits node_rights (updateNodeStatus me n)" "emits node_rights (pruneStaleConfigSetStatus (me_env me) n)"
    "emits node_rights (migrateUpgradeAnnotation (me_env me) n)" for n
    by (intro system_service.emits_handleUpgrade[OF sys refl] system_service.emits_updateNode[OF sys refl], simp_all)+
  show ?thesis
    unfolding ManagedNode_Reconcile_def GetNode_def reconcile_node_def maybeUncordon_def uncordonNode_def requeue_at_def
    by (intro emits_rules parts host) simp_all
qed

text \<open>C10: The node role covers the jail controller and the node controller: every write that a reconcile of
  a jail makes is granted by the rules of \<^verbatim>\<open>nodemanager rbac\<close>, and so is every write of a reconcile of a
  ManagedNode but for cordoning the Kubernetes node and evicting its pods, which they never grant.\<close>

theorem reconcile_writes_granted:
  assumes "system_service (e_system (me_env me))"
    and "run_state (Jail_Reconcile je req) w = (r, w')" and "run_state (ManagedNode_Reconcile me req') v = (q, v')"
  shows "(\<exists>es. w_trace w' = w_trace w @ es \<and> list_all (granted nodeClusterRoleRules) es) \<and>
    (\<exists>es. w_trace v' = w_trace v @ es \<and> list_all (\<lambda>e. granted nodeClusterRoleRules e \<longleftrightarrow> \<not> drains e) es)"
  using emitsD[OF emits_jail_granted assms(2)] emitsD[OF emits_node_granted[OF assms(1)] assms(3)]
  by (auto simp: node_rights_def list_all_iff)

theorem reconcile_writes_granted_witness:
  "\<exists>r w' q v'. run_state (Jail_Reconcile demo_je (nsn ''ns'' ''web'')) (jail_world deleted_jail) = (r, w') \<and>
     run_state (ManagedNode_Reconcile demo_me (nsn ''ns'' ''n1'')) demo_upgrade_world = (q, v') \<and>
     list_all (granted nodeClusterRoleRules) (w_trace w') \<and>
     list_all (\<lambda>e. granted nodeClusterRoleRules e \<longleftrightarrow> \<not> drains e) (w_trace v')"
proof -
  obtain r w' where r: "run_state (Jail_Reconcile demo_je (nsn ''ns'' ''web'')) (jail_world deleted_jail) = (r, w')"
    by (metis surj_pair)
  obtain q v' where q: "run_state (ManagedNode_Reconcile demo_me (nsn ''ns'' ''n1'')) demo_upgrade_world = (q, v')"
    by (metis surj_pair)
  from reconcile_writes_granted[OF demo_me_system r q] r q show ?thesis
    by (auto simp: jail_world_def demo_upgrade_world_def demo_world_def)
qed

section \<open>Nodes that do not exist yet\<close>

text \<open>A node cannot register itself: when its ManagedNode is missing, \<open>createOrGetNode\<close>, the first step of
  every ConfigSet reconcile, asks the server to create one, and the node role does not grant that.\<close>

theorem registration_is_not_granted:
  assumes "run_state (ext (h_hostname (e_host env))) w = (Inr hostname, w1)"
    and "run_state (api_get env as_node KManagedNode (nsn (ns_namespace req) hostname)) w1 = (Inl e, w2)"
    and "run_state (createOrGetNode env req) w = (r, w')"
  shows "\<exists>n b. w_trace w' = w_trace w @ [EvApi VCreate (OManagedNode n) b] \<and> om_name (mn_meta n) = hostname \<and>
    \<not> granted nodeClusterRoleRules (EvApi VCreate (OManagedNode n) b)"
proof -
  have "w_trace w2 = w_trace w"
    using assms(1,2) by (auto simp: api_get_def ext_def split: prod.splits)
  moreover obtain r3 s3 where "run_state (cl_create (e_client env) (OManagedNode (empty_node\<lparr>mn_meta :=
      empty_meta\<lparr>om_name := hostname, om_namespace := ns_namespace req\<rparr>\<rparr>))) (w_ext w2) = (r3, s3)"
    by (metis surj_pair)
  ultimately show ?thesis using assms
    by (auto simp: createOrGetNode_def createInitialNode_def or_return_def api_create_def api_write_def ext_def
        split: prod.splits sum.splits)
qed

theorem registration_is_not_granted_witness:
  "\<exists>r w' n b. run_state (createOrGetNode demo_env (nsn ''ns'' ''cs'')) (demo_world [] []) = (r, w') \<and>
     w_trace w' = [EvApi VCreate (OManagedNode n) b] \<and> \<not> granted nodeClusterRoleRules (EvApi VCreate (OManagedNode n) b)"
proof -
  let ?w = "demo_world [] []"
  obtain r w' where r: "run_state (createOrGetNode demo_env (nsn ''ns'' ''cs'')) ?w = (r, w')" by (metis surj_pair)
  have host: "run_state (ext (h_hostname (e_host demo_env))) ?w = (Inr (as_hostname (w_ext ?w)), ?w)"
    by (simp add: demo_env_def)
  have "run_state (api_get demo_env as_node KManagedNode
      (nsn (ns_namespace (nsn ''ns'' ''cs'')) (as_hostname (w_ext ?w)))) ?w = (Inl not_found, ?w)"
    by (simp add: api_get_def decode_def store_get_def demo_env_def demo_world_def)
  from registration_is_not_granted[OF host this r] r show ?thesis by (auto simp: demo_world_def)
qed

section \<open>The jail controller before the webhook\<close>

definition keeps_spec :: "jail \<Rightarrow> event \<Rightarrow> bool" where
  "keeps_spec j e = (\<forall>x b. e = EvApi VUpdate (OJail x) b \<longrightarrow> j_spec x = j_spec j)"

lemma keeps_spec [simp]:
  "keeps_spec j (EvApi VUpdateStatus y b)" "keeps_spec j (EvCall c b)"
  "keeps_spec j (EvApi VUpdate (OJail x) b) \<longleftrightarrow> j_spec x = j_spec j" "is_exec e \<Longrightarrow> keeps_spec j e"
  by (auto simp: keeps_spec_def is_exec_def)

lemma emits_live_keeps_spec: "emits (keeps_spec j) (reconcile_live je key j2)"
  unfolding jail_live_defs report_state_def
  by (intro emits_rules) auto

lemma emits_keeps_spec:
  "emits (keeps_spec j) (reconcile_deleted je key j)" "emits (keeps_spec j) (with_finalizer je j)"
  unfolding jail_deleted_defs
  by (intro emits_rules; auto)+

text \<open>The API server's encoding of a jail, as far as the webhook looks at it.\<close>

definition encodes :: "(jail \<Rightarrow> json) \<Rightarrow> bool" where
  "encodes enc \<longleftrightarrow> (\<forall>x. is_object (enc x) \<and> dec_jail_object (enc x) [] = Some (js_nodeName (j_spec x))) \<and>
     (\<forall>x y. j_spec x = j_spec y \<longrightarrow> jsonEqual (spec_of (enc x)) (spec_of (enc y)))"

lemma Handle_jail:
  assumes "encodes enc" and "json_parse old = Some (enc j)" and "json_parse new = Some (enc x)"
    and "j_spec x = j_spec j" and "js_nodeName (j_spec j) = host"
  shows "Handle \<lparr>rq_operation = OpUpdate, rq_username = nodeServiceAccountPrefix @ host, rq_resource = ''jails'',
    rq_name = name, rq_object = new, rq_oldObject = old\<rparr> = Allowed" (is "Handle ?r = _")
proof -
  have "is_object (enc x) \<and> is_object (enc j)" "jsonEqual (spec_of (enc j)) (spec_of (enc x))"
    using assms(1,4) by (auto simp: encodes_def)
  moreover from this(1) have "extractSpecs ?r = Inr (spec_of (enc j), spec_of (enc x))"
    using extractSpecs_parsed(1)[of ?r "enc x" "enc j"] assms(2,3) by simp
  moreover have "extractJailNodeName ?r = Inr host"
    using assms by (simp add: extractJailNodeName_def json_Unmarshal_def encodes_def)
  ultimately show ?thesis
    by (simp add: Handle_def check_jail_owner_def check_node_owner_def)
qed


definition demo_enc :: "jail \<Rightarrow> json" where
  "demo_enc j = JObj [(''spec'', JObj [(''nodeName'', JStr (js_nodeName (j_spec j)))])]"

lemma demo_enc_encodes: "encodes demo_enc"
  by (simp add: encodes_def demo_enc_def is_object_def dec_jail_object_def dec_node_name_def dec_struct_def find_field_def
      dec_string_def spec_of_def jsonEqual_def byte_in_def HasPrefix_def as_map_def)


section \<open>The accounts that are issued\<close>

definition sa_username :: "subject \<Rightarrow> string" where
  "sa_username s = ''system:serviceaccount:'' @ sj_namespace s @ '':'' @ sj_name s"

lemma nodeHostname_sa:
  assumes "CHR '':'' \<notin> set ns"
  shows "nodeHostname (''system:serviceaccount:'' @ ns @ '':'' @ sa_name host) = (if ns = ''nodemanager'' then host else [])"
proof (cases "ns = ''nodemanager''")
  case True
  then show ?thesis using nodeHostname_prefix[of host] by (simp add: nodeServiceAccountPrefix_def sa_name_def)
next
  case False
  have "ns = ''nodemanager''" if "ns @ '':'' @ sa_name host = ''nodemanager:nodemanager-'' @ ys" for ys
  proof -
    have "takeWhile (\<lambda>c. c \<noteq> CHR '':'') (ns @ '':'' @ sa_name host) = ns" using assms by (simp add: takeWhile_append)
    with that show ?thesis by simp
  qed
  with False show ?thesis by (auto simp: nodeHostname_def HasPrefix_iff nodeServiceAccountPrefix_def)
qed

text \<open>C40: The webhook knows the accounts of one namespace only: the subject of every binding that
  \<^verbatim>\<open>nodemanager rbac\<close> prints is recognised as its host when the namespace is nodemanager, and otherwise as no
  node at all, so that the webhook lets its account change any specification.\<close>

theorem webhook_recognises_one_namespace:
  assumes "runRBAC host ns = Inr objs" and "CHR '':'' \<notin> set ns" and "RClusterRoleBinding b rr ss \<in> set objs" and "s \<in> set ss"
  shows "nodeHostname (sa_username s) = (if ns = ''nodemanager'' then host else []) \<and>
    (ns \<noteq> ''nodemanager'' \<longrightarrow> (\<forall>rq. rq_username rq = sa_username s \<longrightarrow> Handle rq = Allowed))"
proof -
  have "sa_username s = ''system:serviceaccount:'' @ ns @ '':'' @ sa_name host"
    using assms(1,3,4) by (auto simp: runRBAC_def Let_def sa_username_def split: if_splits)
  with nodeHostname_sa[OF assms(2), of host] show ?thesis by (auto simp: Handle_def)
qed

theorem webhook_recognises_one_namespace_witness:
  "let s = \<lparr>sj_kind = ''ServiceAccount'', sj_name = sa_name ''h1'', sj_namespace = ''infra''\<rparr> in
   nodeHostname (sa_username s) = [] \<and>
   Handle \<lparr>rq_operation = OpUpdate, rq_username = sa_username s, rq_resource = ''jails'', rq_name = ''web'',
     rq_object = ''{}'', rq_oldObject = ''{}''\<rparr> = Allowed"
proof -
  let ?s = "\<lparr>sj_kind = ''ServiceAccount'', sj_name = sa_name ''h1'', sj_namespace = ''infra''\<rparr>"
  obtain objs where "runRBAC ''h1'' ''infra'' = Inr objs"
    "RClusterRoleBinding (sa_name ''h1'') \<lparr>rr_kind = ''ClusterRole'', rr_name = bootstrapClusterRoleName\<rparr> [?s] \<in> set objs"
    by (simp add: runRBAC_def Let_def)
  from webhook_recognises_one_namespace[OF this(1) _ this(2), of ?s] show ?thesis by (simp add: Let_def)
qed

section \<open>From token to bootstrap\<close>

text \<open>A kubeconfig issued by \<^verbatim>\<open>token\<close> or \<^verbatim>\<open>bootstrap\<close> is for the node's own account and leads to the cluster it
  was issued from: reading server and certificate back gives those of the configuration used.\<close>

lemma run_mustLoad:
  "run_state (mustLoadKubeconfig kb path) w = (Inr raw, w') \<Longrightarrow> \<exists>s'. run_state (kb_load kb path) (w_ext w) = (Inr raw, s')"
  by (auto simp: mustLoadKubeconfig_def or_return_def split: prod.splits sum.splits)

lemma run_mustIssue:
  "run_state (mustIssueToken kb path ns host ttl) w = (Inr token, w') \<Longrightarrow>
     \<exists>s'. run_state (kb_createToken kb path ns (sa_name host) ttl) (w_ext w) = (Inr token, s')"
  by (auto simp: mustIssueToken_def or_return_def split: prod.splits sum.splits)

lemma issued_kubeconfig:
  assumes "run_state (issue_kubeconfig kb path ns host ttl) w = (Inr cfg, w')"
  shows "\<exists>raw server ca token s1 s1' s2 s2'. run_state (kb_load kb path) s1 = (Inr raw, s1') \<and>
    serverAndCA raw = Inr (server, ca) \<and> run_state (kb_createToken kb path ns (sa_name host) ttl) s2 = (Inr token, s2') \<and>
    cfg = buildKubeconfig host ns server ca token \<and> serverAndCA cfg = Inr (server, ca)"
proof -
  obtain raw token w1 w2 w3 where l: "run_state (mustLoadKubeconfig kb path) w1 = (Inr raw, w2)"
    and t: "run_state (mustIssueToken kb path ns host ttl) w2 = (Inr token, w3)"
    and s: "(case mustServerAndCA raw of Inl e \<Rightarrow> Inl e
       | Inr (server, caData) \<Rightarrow> Inr (buildKubeconfig host ns server caData token)) = Inr cfg"
    using assms by (auto simp: issue_kubeconfig_def check_def or_return_def split: prod.splits option.splits sum.splits)
  from s obtain server ca where "serverAndCA raw = Inr (server, ca)" "cfg = buildKubeconfig host ns server ca token"
    by (auto simp: mustServerAndCA_def split: sum.splits)
  moreover from this(2) have "serverAndCA cfg = Inr (server, ca)" by (simp add: serverAndCA_def buildKubeconfig_def)
  ultimately show ?thesis using run_mustLoad[OF l] run_mustIssue[OF t] by blast
qed

end
