(* ===== verification/JailTypes.thy ===== *)
theory JailTypes
  imports JailCorrect
begin

text \<open>
  What the jail controller writes has the type the API declares: the conditions of a jail's status are a map by
  type, of the three standard types, with reasons of the declared pattern (\<^verbatim>\<open>api/freebsd/v1/jail_types.go\<close>
  and the schema of \<^verbatim>\<open>metav1.Condition\<close>). The API server refuses anything else.
\<close>

section \<open>The declared type\<close>

definition is_alnum :: "char \<Rightarrow> bool" where
  "is_alnum c \<longleftrightarrow> byte_in 65 90 c \<or> byte_in 97 122 c \<or> byte_in 48 57 c"

definition reason_ok :: "string \<Rightarrow> bool" where
  "reason_ok r \<longleftrightarrow> r \<noteq> [] \<and> length r \<le> 1024 \<and> (byte_in 65 90 (hd r) \<or> byte_in 97 122 (hd r)) \<and>
     (is_alnum (last r) \<or> last r = CHR ''_'') \<and> list_all (\<lambda>c. is_alnum c \<or> c \<in> {CHR ''_'', CHR '','', CHR '':''}) r"

definition cond_ok :: "condition \<Rightarrow> bool" where
  "cond_ok c \<longleftrightarrow> c_type c \<in> {condAvailable, condDegraded, condProgressing} \<and> reason_ok (c_reason c) \<and>
     0 \<le> c_observedGeneration c"

definition typed_status :: "jail_status \<Rightarrow> bool" where
  "typed_status s \<longleftrightarrow> distinct (map c_type (jst_conditions s)) \<and> list_all cond_ok (jst_conditions s)"

definition typed_jail :: "jail \<Rightarrow> bool" where
  "typed_jail j \<longleftrightarrow> 0 \<le> om_generation (j_meta j) \<and> typed_status (j_status j)"

text \<open>A server that validates: the jails it hands out have the declared type.\<close>

definition typed_client :: "'h client \<Rightarrow> bool" where
  "typed_client cl \<longleftrightarrow> (\<forall>k nn s x s'. run_state (cl_get cl k nn) s = (Inr (OJail x), s') \<longrightarrow> typed_jail x)"

definition writes_typed :: "event \<Rightarrow> bool" where
  "writes_typed e = (\<forall>x b. e = EvApi VUpdateStatus (OJail x) b \<longrightarrow> typed_status (j_status x))"

lemma writes_typed [simp]:
  "writes_typed (EvApi VUpdate y b)" "writes_typed (EvCall c b)" "is_exec e \<Longrightarrow> writes_typed e"
  "writes_typed (EvApi VUpdateStatus (OJail x) b) \<longleftrightarrow> typed_status (j_status x)"
  by (auto simp: writes_typed_def is_exec_def)

section \<open>Results\<close>

definition yields :: "('a \<Rightarrow> bool) \<Rightarrow> ('s, 'a) state \<Rightarrow> bool" where
  "yields Q m \<longleftrightarrow> (\<forall>w. Q (fst (run_state m w)))"

lemma yields_ret [simp]: "yields Q (ret x) \<longleftrightarrow> Q x"
  by (simp add: yields_def)

lemma yields_bind:
  assumes "yields Q m" and "\<And>x. Q x \<Longrightarrow> yields R (f x)"
  shows "yields R (State_Monad.bind m f)"
  using assms by (auto simp: yields_def split_beta)

lemma emits_bind_yields:
  assumes "emits P m" and "yields Q m" and "\<And>x. Q x \<Longrightarrow> emits P (f x)"
  shows "emits P (State_Monad.bind m f)"
  unfolding emits_def
proof
  fix w
  obtain r w' where m: "run_state m w = (r, w')" by fastforce
  then have "Q r" using assms(2) by (metis fst_conv yields_def)
  then obtain fs where "w_trace (snd (run_state (f r) w')) = w_trace w' @ fs" "list_all P fs"
    using assms(3) by (auto simp: emits_def)
  with emitsD[OF assms(1) m] m show "\<exists>es. w_trace (snd (run_state (State_Monad.bind m f) w)) = w_trace w @ es \<and> list_all P es"
    by auto
qed

lemma SetStatusCondition_ok:
  assumes "list_all cond_ok cs" and "cond_ok new"
  shows "list_all cond_ok (SetStatusCondition t cs new)"
  using assms by (induction cs) (auto simp: cond_ok_def merge_condition_def)

lemma setCondition_typed:
  assumes "typed_jail j" and "ct \<in> {condAvailable, condDegraded, condProgressing}" and "reason_ok reason"
  shows "yields typed_jail (setCondition h ct st reason msg j)"
  using assms SetStatusCondition_ok SetStatusCondition_types
  by (auto simp: yields_def setCondition_def typed_jail_def typed_status_def cond_ok_def split_beta Let_def)

section \<open>Every write\<close>

lemma get_typed:
  assumes "typed_client (e_client env)"
  shows "yields (\<lambda>r. case r of Inl e \<Rightarrow> True | Inr j \<Rightarrow> typed_jail j) (api_get env as_jail KJail key)"
proof -
  have "typed_jail j" if "fst (run_state (cl_get (e_client env) KJail key) s) = Inr x" "as_jail x = Some j" for s x j
    using assms that by (cases x) (auto simp: typed_client_def prod_eq_iff)
  then show ?thesis
    unfolding yields_def api_get_def by (auto simp: decode_def ext_def split_beta split: sum.splits option.splits)
qed

lemma emits_status_typed:
  assumes "typed_client (e_client env)" and "\<And>j. typed_jail j \<Longrightarrow> yields typed_jail (mutate j)"
    and "\<And>j. emits writes_typed (mutate j)"
  shows "emits writes_typed (updateStatusWithRetry env key mutate)"
  unfolding updateStatusWithRetry_def or_fail_def
proof (intro emits_retry emits_bind_yields[OF _ get_typed[OF assms(1)]] emits_case_sum emits_ret)
  fix r j assume "case r of Inl e \<Rightarrow> True | Inr j \<Rightarrow> typed_jail j" "r = Inr j"
  then have j: "typed_jail j" by simp
  show "emits writes_typed (mutate j \<bind> (\<lambda>j. api_updateStatus env (OJail j)))"
    by (rule emits_bind_yields[OF assms(3) assms(2)[OF j]]) (auto intro!: emits_rules simp: typed_jail_def)
qed (intro emits_rules)

declare emits_updateStatusWithRetry [emits_rules del] emits_degraded [emits_rules del]

lemma setCondition_typed2:
  assumes "typed_jail j" and "{ct, ct2} \<subseteq> {condAvailable, condDegraded, condProgressing}" and "reason_ok r" and "reason_ok r2"
  shows "yields typed_jail (setCondition h ct st r msg j \<bind> setCondition h ct2 st2 r2 msg2)"
  using assms by (intro yields_bind[OF setCondition_typed[OF assms(1)]] setCondition_typed) auto

lemma emits_degraded_typed:
  assumes "typed_client (e_client env)" and "reason_ok reason"
  shows "emits writes_typed (degraded env key reason msg)" "emits writes_typed (degraded_stopped env key reason msg msg2)"
  unfolding degraded_def degraded_stopped_def using assms
  by (auto intro!: emits_status_typed emits_rules setCondition_typed setCondition_typed2)

lemma run_hooks_typed:
  assumes "typed_client (e_client (je_env je))"
  shows "emits writes_typed (run_hooks je key name cmds)"
proof (induction cmds)
  case (Cons cmd cmds)
  then show ?case
    by (auto intro!: emits_rules emits_degraded_typed assms simp: reason_ok_def is_alnum_def byte_in_def)
qed (simp add: emits_ret)

lemma report_state_typed:
  assumes "typed_client (e_client (je_env je))"
  shows "emits writes_typed (report_state je key running release)"
proof -
  have r: "reason_ok ''Provisioned''" "reason_ok ''Running''" "reason_ok ''NotRunning''"
    by (simp_all add: reason_ok_def is_alnum_def byte_in_def)
  have rel: "typed_jail j2 \<Longrightarrow> typed_jail (j2\<lparr>j_status := (j_status j2)\<lparr>jst_release := release\<rparr>\<rparr>)" for j2
    by (simp add: typed_jail_def typed_status_def)
  show ?thesis
    unfolding report_state_def Let_def
    by (intro emits_status_typed assms emits_rules yields_bind[where Q = typed_jail] setCondition_typed)
      (auto intro!: setCondition_typed2 simp: r rel)
qed


section \<open>A validating server\<close>

definition validating :: "'h client \<Rightarrow> 'h client" where
  "validating cl = cl\<lparr>cl_get := (\<lambda>k nn. do {
     r \<leftarrow> cl_get cl k nn;
     ret (case r of Inr (OJail x) \<Rightarrow> if typed_jail x then r else Inl (Plain ''invalid'') | _ \<Rightarrow> r)
   })\<rparr>"

lemma validating_typed: "typed_client (validating cl)"
  by (auto simp: typed_client_def validating_def split_beta split: sum.splits kobj.splits if_splits)

definition checked_je :: "api jail_env" where
  "checked_je = demo_je\<lparr>je_env := demo_env\<lparr>e_client := validating store_client\<rparr>\<rparr>"


end
