(* ===== verification/BucketGC.thy ===== *)
theory BucketGC
  imports ConfigSet
begin

text \<open>
  The loop around the filebucket's garbage collection (\<^verbatim>\<open>runFileBucketGC\<close>) and the set-up of the ConfigSet
  reconciler that registers it. The ticker is what happens to the outside between two ticks; the list of ticks
  ends when the context does.
\<close>

fun gc_ticks :: "'h env \<Rightarrow> configset_config \<Rightarrow> ('h, unit) state list \<Rightarrow> ('h world, unit) state" where
  "gc_ticks env cfg [] = ret ()"
| "gc_ticks env cfg (t # ts) = do { ext t; maybeRunGC env cfg; gc_ticks env cfg ts }"

definition runFileBucketGC :: "'h env \<Rightarrow> configset_config \<Rightarrow> ('h, unit) state list \<Rightarrow> ('h world, unit) state" where
  "runFileBucketGC env cfg ticks = do { maybeRunGC env cfg; gc_ticks env cfg ticks }"

text \<open>\<open>addGC\<close> is the manager's \<^verbatim>\<open>Add\<close> of the loop, \<open>build\<close> the controller builder with the watches.\<close>

definition ConfigSet_SetupWithManager :: "configset_config \<Rightarrow> ('h, err option) state \<Rightarrow> ('h, string res) state \<Rightarrow>
    (string \<Rightarrow> ('h, err option) state) \<Rightarrow> ('h, err option) state" where
  "ConfigSet_SetupWithManager cfg addGC hostname build =
     check_fail (if cc_bucketEnabled cfg \<and> 0 < cc_bucketMaxAge cfg then addGC else ret None)
       (Wrap ''failed to register filebucket GC runnable'')
       (or_fail hostname (Wrap ''failed to get hostname for ManagedNode watch'') build)"

text \<open>A collection that is recorded and younger than the interval, or a node that cannot be read.\<close>

definition gc_rests :: "'h env \<Rightarrow> configset_config \<Rightarrow> 'h world \<Rightarrow> bool" where
  "gc_rests env cfg w = (case run_state (getLocalManagedNode env cfg) w of
     (Inl _, _) \<Rightarrow> True
   | (Inr node, w1) \<Rightarrow> (case st_lastFileBucketGC (mn_status node) of
       None \<Rightarrow> False
     | Some l \<Rightarrow> time_sub (fst (run_state (now (e_host env)) w1)) l < cc_bucketMaxAge cfg))"

lemma leaves_ext_part: "(\<And>w h. g (w\<lparr>w_ext := h\<rparr>) = g w) \<Longrightarrow> leaves g (ext m)"
  by (rule leavesI) (auto simp: ext_def split: prod.splits)

lemma maybeRunGC_rests:
  assumes "gc_rests env cfg w"
  shows "w_fs (snd (run_state (maybeRunGC env cfg) w)) = w_fs w" "w_trace (snd (run_state (maybeRunGC env cfg) w)) = w_trace w"
proof -
  have node: "leaves w_fs (getLocalManagedNode env cfg)" "leaves w_trace (getLocalManagedNode env cfg)"
    and clock: "leaves w_fs (now (e_host env))" "leaves w_trace (now (e_host env))"
    unfolding getLocalManagedNode_def api_get_def now_def by (intro leaves_rules leaves_ext_part; simp)+
  show "w_fs (snd (run_state (maybeRunGC env cfg) w)) = w_fs w" "w_trace (snd (run_state (maybeRunGC env cfg) w)) = w_trace w"
    using assms node clock
    by (auto simp: maybeRunGC_def gc_rests_def dest: leavesD split: prod.splits sum.splits option.splits) (metis leavesD)+
qed

text \<open>As long as the recorded collection is young, the loop removes nothing, however often the ticker fires.\<close>

theorem gc_keeps_its_schedule:
  assumes "\<And>w. I w \<Longrightarrow> gc_rests env cfg w" and "\<And>w. I w \<Longrightarrow> I (snd (run_state (maybeRunGC env cfg) w))"
    and "\<And>t w. t \<in> set ticks \<Longrightarrow> I w \<Longrightarrow> I (snd (run_state (ext t) w))" and "I w"
  shows "w_fs (snd (run_state (runFileBucketGC env cfg ticks) w)) = w_fs w"
proof -
  have "w_fs (snd (run_state (gc_ticks env cfg ts) v)) = w_fs v" if "I v" "set ts \<subseteq> set ticks" for ts v
    using that
  proof (induction ts arbitrary: v)
    case (Cons t ts)
    obtain v1 where v1: "run_state (ext t) v = ((), v1)" by (metis surj_pair old.unit.exhaust)
    obtain v2 where v2: "run_state (maybeRunGC env cfg) v1 = ((), v2)" by (metis surj_pair old.unit.exhaust)
    have "I v1" using assms(3)[of t v] Cons.prems v1 by simp
    then have "I v2" "w_fs v2 = w_fs v1" using assms(1,2)[of v1] maybeRunGC_rests(1)[of env cfg v1] v2 by simp_all
    moreover have "w_fs v1 = w_fs v" using v1 by (auto simp: ext_def split: prod.splits)
    ultimately show ?case using Cons.IH[of v2] Cons.prems v1 v2 by simp
  qed simp
  then show ?thesis
    using assms(1,2,4) maybeRunGC_rests(1)[of env cfg w] by (simp add: runFileBucketGC_def split: prod.splits) force
qed

text \<open>Without a positive age nothing is ever collected: the loop is not registered.\<close>

lemma gc_needs_an_age:
  "\<not> (cc_bucketEnabled cfg \<and> 0 < cc_bucketMaxAge cfg) \<Longrightarrow>
   ConfigSet_SetupWithManager cfg addGC hostname build = ConfigSet_SetupWithManager cfg (ret None) hostname build"
  unfolding ConfigSet_SetupWithManager_def by (simp only: if_False if_cancel)

end
