(* ===== verification/Process.thy ===== *)
theory Process
  imports ConfigSet Upgrade Poudriere Bootstrap Notification
begin

text \<open>
  The process around the controllers: which subcommand \<^verbatim>\<open>cmd/main.go\<close> runs and which controllers it starts,
  the watches through which a change of the ManagedNode reaches them, the SIGHUP trigger of
  \<^verbatim>\<open>cmd/sighup.go\<close>, and the set-up of the notification socket. The controller manager is third-party: a
  watch is what it enqueues for an update event.
\<close>

section \<open>main\<close>

datatype command = CmdBootstrap "string list" | CmdToken "string list" | CmdRBAC "string list" | CmdVersion | CmdDaemon

definition main_command :: "string list \<Rightarrow> command" where
  "main_command args = (case args of
     _ # c # rest \<Rightarrow>
       if c = ''bootstrap'' then CmdBootstrap rest
       else if c = ''token'' then CmdToken rest
       else if c = ''rbac'' then CmdRBAC rest
       else if c \<in> {''version'', ''-version'', ''--version''} then CmdVersion
       else CmdDaemon
   | _ \<Rightarrow> CmdDaemon)"

datatype runnable = NotificationServer | ManagedNodeController | ConfigSetController | PoudriereController | JailController | SighupTrigger

text \<open>The runnables in the order they are added. Each set-up may fail, which ends the process.\<close>

fun add_each :: "(runnable \<Rightarrow> ('h, err option) state) \<Rightarrow> runnable list \<Rightarrow> ('h world, err option) state" where
  "add_each setup [] = ret None"
| "add_each setup (c # cs) = check_fail (ext (setup c)) id (add_each setup cs)"

definition host_controllers :: "'h host \<Rightarrow> OSID \<Rightarrow> bool \<Rightarrow> ('h world, runnable list) state" where
  "host_controllers h ident allowInJail = (case ident of
     FreeBSD \<Rightarrow> do {
       jailed \<leftarrow> IsJailed h;
       ret (if jailed \<and> \<not> allowInJail then [] else [PoudriereController, JailController])
     }
   | _ \<Rightarrow> ret [])"

definition start_runnables :: "'h host \<Rightarrow> (runnable \<Rightarrow> ('h, err option) state) \<Rightarrow> bool \<Rightarrow> OSID \<Rightarrow> bool \<Rightarrow>
    ('h world, err option) state" where
  "start_runnables h setup notifications ident allowInJail =
     check_fail (add_each setup ((if notifications then [NotificationServer] else []) @ [ManagedNodeController, ConfigSetController])) id (do {
       cs \<leftarrow> host_controllers h ident allowInJail;
       add_each setup (cs @ [SighupTrigger])
     })"

section \<open>The watches on the ManagedNode\<close>

text \<open>An update event carries the object before and after. The ConfigSet controller filters by
  \<^verbatim>\<open>predicate.LabelChangedPredicate\<close>, a parameter.\<close>

definition node_name_key :: "managednode \<Rightarrow> nsname" where
  "node_name_key n = nsn (om_namespace (mn_meta n)) (om_name (mn_meta n))"

definition configset_node_watch :: "(object_meta \<Rightarrow> object_meta \<Rightarrow> bool) \<Rightarrow> 'h env \<Rightarrow> configset_config \<Rightarrow> string \<Rightarrow>
    managednode \<Rightarrow> managednode \<Rightarrow> ('h world, nsname list) state" where
  "configset_node_watch labelChanged env cfg hostname old new =
     (if labelChanged (mn_meta old) (mn_meta new) then configSetsOnNodeChange env cfg hostname (node_name_key new) else ret [])"

definition managednode_watch :: "string \<Rightarrow> managednode \<Rightarrow> managednode \<Rightarrow> nsname list" where
  "managednode_watch hostname old new =
     (if newNameFilterPredicate hostname (mn_meta new) then [node_name_key new] else [])"

section \<open>SIGHUP\<close>

text \<open>\<^verbatim>\<open>t.UTC().Format(time.RFC3339)\<close>: the civil date of a day since the epoch and the time of day.\<close>

definition civil_from_days :: "int \<Rightarrow> int \<times> int \<times> int" where
  "civil_from_days z =
     (let era = (z + 719468) div 146097; doe = (z + 719468) mod 146097;
          yoe = (doe - doe div 1460 + doe div 36524 - doe div 146096) div 365;
          doy = doe - (365 * yoe + yoe div 4 - yoe div 100); mp = (5 * doy + 2) div 153;
          m = (if mp < 10 then mp + 3 else mp - 9)
      in (yoe + era * 400 + (if m \<le> 2 then 1 else 0), m, doy - (153 * mp + 2) div 5 + 1))"

definition pad :: "nat \<Rightarrow> int \<Rightarrow> string" where
  "pad w i = (let ds = nat_digits (nat \<bar>i\<bar>) in (if i < 0 then ''-'' else []) @ replicate (w - length ds) CHR ''0'' @ ds)"

definition Format_RFC3339 :: "instant \<Rightarrow> string" where
  "Format_RFC3339 t =
     (let s = t div second; (y, m, d) = civil_from_days (s div 86400); r = s mod 86400 in
      pad 4 y @ ''-'' @ pad 2 m @ ''-'' @ pad 2 d @ ''T'' @ pad 2 (r div 3600) @ '':'' @ pad 2 (r div 60 mod 60) @
      '':'' @ pad 2 (r mod 60) @ ''Z'')"

definition reconcileTriggerAnnotation :: string where
  "reconcileTriggerAnnotation = ''nodemanager.io/reconcile-trigger''"

definition with_trigger :: "instant \<Rightarrow> managednode \<Rightarrow> managednode" where
  "with_trigger t n = n\<lparr>mn_meta := (mn_meta n)\<lparr>om_annotations :=
     AList.update reconcileTriggerAnnotation (Format_RFC3339 t) (om_annotations (mn_meta n))\<rparr>\<rparr>"

text \<open>\<open>patch base new\<close> is the client's \<^verbatim>\<open>Patch\<close> of \<open>new\<close> with \<^verbatim>\<open>MergeFrom(base)\<close>.\<close>

definition trigger :: "'h env \<Rightarrow> (managednode \<Rightarrow> managednode \<Rightarrow> ('h, err option) state) \<Rightarrow> string \<Rightarrow> string \<Rightarrow>
    ('h world, err option) state" where
  "trigger env patch hostname namespace =
     or_fail (api_get env as_node KManagedNode (nsn namespace hostname)) id (\<lambda>node. do {
       t \<leftarrow> now (e_host env);
       ext (patch node (with_trigger t node))
     })"

text \<open>\<open>Start\<close>: the channel of the signals holds one, the runtime drops what does not fit, and the loop takes the
  next one only when the trigger has returned. A history is the list of what has happened.\<close>

datatype sighup_event = SignalArrives | LoopTakes | TriggerReturns | ContextDone

record sighup_loop =
  sl_pending :: bool
  sl_busy :: bool
  sl_stopped :: bool

inductive sighup_run :: "sighup_event list \<Rightarrow> sighup_loop \<Rightarrow> bool" where
  start: "sighup_run [] \<lparr>sl_pending = False, sl_busy = False, sl_stopped = False\<rparr>"
| arrive: "sighup_run es s \<Longrightarrow> \<not> sl_stopped s \<Longrightarrow> sighup_run (es @ [SignalArrives]) (s\<lparr>sl_pending := True\<rparr>)"
| loop_take: "sighup_run es s \<Longrightarrow> sl_pending s \<Longrightarrow> \<not> sl_busy s \<Longrightarrow> \<not> sl_stopped s \<Longrightarrow>
    sighup_run (es @ [LoopTakes]) (s\<lparr>sl_pending := False, sl_busy := True\<rparr>)"
| return: "sighup_run es s \<Longrightarrow> sl_busy s \<Longrightarrow> sighup_run (es @ [TriggerReturns]) (s\<lparr>sl_busy := False\<rparr>)"
| stop: "sighup_run es s \<Longrightarrow> \<not> sl_busy s \<Longrightarrow> \<not> sl_stopped s \<Longrightarrow> sighup_run (es @ [ContextDone]) (s\<lparr>sl_stopped := True\<rparr>)"

section \<open>The notification socket\<close>

text \<open>\<open>Start\<close> up to serving: a stale socket is removed, the listener made, its file opened to the group.\<close>

definition listen_and_chmod :: "'h host \<Rightarrow> (string \<Rightarrow> ('h world, err option) state) \<Rightarrow> string \<Rightarrow> ('h world, err option) state" where
  "listen_and_chmod h listen socketPath =
     check_fail (listen socketPath) (Wrap (''listen on '' @ socketPath))
       (check_fail (os_Chmod h socketPath 0x1B0) (Wrap ''chmod socket'') (ret None))"

definition Server_listen :: "'h host \<Rightarrow> (string \<Rightarrow> ('h world, err option) state) \<Rightarrow> string \<Rightarrow> ('h world, err option) state" where
  "Server_listen h listen socketPath = do {
     e \<leftarrow> os_Remove h socketPath;
     (case e of
        Some x \<Rightarrow> if os_is_not_exist x then listen_and_chmod h listen socketPath else ret (Some (Wrap ''removing stale socket'' x))
      | None \<Rightarrow> listen_and_chmod h listen socketPath)
   }"

text \<open>The whole of \<open>Start\<close>: \<open>serve\<close> is gRPC's \<^verbatim>\<open>Serve\<close>, which returns when the server was stopped. On the way out a
  graceful stop is given five seconds and then forced.\<close>

definition Server_Start :: "'h host \<Rightarrow> (string \<Rightarrow> ('h world, err option) state) \<Rightarrow> ('h world, err option) state \<Rightarrow> string \<Rightarrow>
    ('h world, err option) state" where
  "Server_Start h listen serve socketPath =
     check_fail (Server_listen h listen socketPath) id (check_fail serve (Wrap ''grpc serve'') (ret None))"

datatype stop_call = GracefulStop | ForceStop

definition shutdown_calls :: "duration \<Rightarrow> stop_call list" where
  "shutdown_calls graceful = (if graceful \<le> 5 * second then [GracefulStop] else [GracefulStop, ForceStop])"

section \<open>Lemmas\<close>

text \<open>However many signals arrive while a trigger is under way, there is no more than one trigger for each, and
  a signal is never lost: after it a trigger is started, or it is pending still.\<close>

lemma sighup_pending:
  "sighup_run es s \<Longrightarrow> sl_pending s \<longleftrightarrow> SignalArrives \<in> set (takeWhile (\<lambda>e. e \<noteq> LoopTakes) (rev es))"
  by (induction rule: sighup_run.induct) auto

lemma sighup_counts:
  "sighup_run es s \<Longrightarrow> count_list es LoopTakes + of_bool (sl_pending s) \<le> count_list es SignalArrives"
  by (induction rule: sighup_run.induct) auto

theorem sighup_not_lost:
  assumes "sighup_run (before @ SignalArrives # after) s" and "LoopTakes \<notin> set after"
  shows "sl_pending s"
proof -
  have "takeWhile (\<lambda>e. e \<noteq> LoopTakes) (rev (before @ SignalArrives # after)) =
      rev after @ takeWhile (\<lambda>e. e \<noteq> LoopTakes) (SignalArrives # rev before)"
    using assms(2) by (subst takeWhile_append2[symmetric]) auto
  then show ?thesis using sighup_pending[OF assms(1)] by simp
qed

lemma Format_RFC3339_examples:
  "Format_RFC3339 0 = ''1970-01-01T00:00:00Z''"
  "Format_RFC3339 1709211845000000000 = ''2024-02-29T13:04:05Z''"
  by code_simp+

lemma with_trigger_simps [simp]:
  "om_labels (mn_meta (with_trigger t n)) = om_labels (mn_meta n)" "om_name (mn_meta (with_trigger t n)) = om_name (mn_meta n)"
  "om_namespace (mn_meta (with_trigger t n)) = om_namespace (mn_meta n)"
  by (simp_all add: with_trigger_def)

text \<open>A SIGHUP is one patch of the node that changes a single annotation. The ManagedNode controller is
  given the node again; the ConfigSet controller, whose watch passes only changes of the labels, is
  given nothing, so no ConfigSet is applied again.\<close>

lemma sighup_skips_configsets:
  assumes "\<And>old new. labelChanged old new \<longleftrightarrow> om_labels old \<noteq> om_labels new"
    and "run_state (api_get env as_node KManagedNode (nsn ns hostname)) w = (Inr node, w1)" and "om_name (mn_meta node) = hostname"
    and "run_state (now (e_host env)) w1 = (t, w2)"
  shows "run_state (trigger env patch hostname ns) w = run_state (ext (patch node (with_trigger t node))) w2"
    and "managednode_watch hostname node (with_trigger t node) = [node_name_key node]"
    and "configset_node_watch labelChanged env cfg hostname node (with_trigger t node) = ret []"
  using assms
  by (simp_all add: trigger_def or_fail_def managednode_watch_def newNameFilterPredicate_def node_name_key_def
      configset_node_watch_def)

text \<open>Inside a jail, without the opt-in, a FreeBSD host runs neither the jail nor the Poudriere controller.\<close>

lemma jailed_host_controllers:
  assumes "run_state (IsJailed h) w = (True, w')"
  shows "run_state (host_controllers h FreeBSD False) w = ([], w')"
  using assms by (simp add: host_controllers_def)

end
