(* ===== verification/Config.thy ===== *)
theory Config
  imports Process JailController
begin

text \<open>
  The configuration of the daemon: Go's package \<^verbatim>\<open>flag\<close> as far as the sources use it, the flags that the
  \<^verbatim>\<open>RegisterFlagsAndApplyDefaults\<close> methods register with their defaults (\<^verbatim>\<open>internal/controller/common/config.go\<close>,
  \<^verbatim>\<open>internal/controller/freebsd/config.go\<close>, \<^verbatim>\<open>pkg/locker/config.go\<close>, \<^verbatim>\<open>internal/notification/config.go\<close>),
  and \<^verbatim>\<open>loadConfig\<close> of \<^verbatim>\<open>cmd/config.go\<close>. The YAML decoder, the expansion of environment variables and the
  flags other packages register on the command line are parameters.
\<close>

section \<open>package flag\<close>

text \<open>A flag is what its value's \<^verbatim>\<open>Set\<close> does to the program's variables. A flag of another package is none of
  them: it says whether it is boolean and which values it accepts.\<close>

datatype 'c flag =
    BoolVar "bool \<Rightarrow> 'c \<Rightarrow> 'c"
  | StringVar "string \<Rightarrow> 'c \<Rightarrow> 'c"
  | IntVar "int \<Rightarrow> 'c \<Rightarrow> 'c"
  | DurationVar "duration \<Rightarrow> 'c \<Rightarrow> 'c"
  | ForeignVar bool "string \<Rightarrow> err option"

fun is_bool_flag :: "'c flag \<Rightarrow> bool" where
  "is_bool_flag (BoolVar _) = True"
| "is_bool_flag (ForeignVar b _) = b"
| "is_bool_flag _ = False"

definition ParseBool :: "string \<Rightarrow> bool res" where
  "ParseBool s =
     (if s \<in> {''1'', ''t'', ''T'', ''true'', ''TRUE'', ''True''} then Inr True
      else if s \<in> {''0'', ''f'', ''F'', ''false'', ''FALSE'', ''False''} then Inr False
      else Inl (Plain ''parse error''))"

text \<open>\<^verbatim>\<open>strconv.ParseInt(s, 0, 64)\<close>: a sign, then digits whose prefix chooses the base.\<close>

definition ParseInt0_64 :: "string \<Rightarrow> int res" where
  "ParseInt0_64 s =
     (let neg = (s \<noteq> [] \<and> hd s = CHR ''-''); u = (if s \<noteq> [] \<and> hd s \<in> {CHR ''+'', CHR ''-''} then tl s else s) in
      if u = [] then Inl (Plain ''parse error'')
      else (case base_prefix u of (base, ds) \<Rightarrow>
        (case parse_digits base 0 ds of
           None \<Rightarrow> Inl (Plain ''parse error'')
         | Some n \<Rightarrow>
             if n < 2 ^ 64 \<and> CHR ''_'' \<in> set ds \<and> \<not> underscoreOK u then Inl (Plain ''parse error'')
             else if \<not> neg \<and> 2 ^ 63 \<le> n \<or> neg \<and> 2 ^ 63 < n then Inl (Plain ''value out of range'')
             else Inr (if neg then - n else n))))"

fun flag_Set :: "'c flag \<Rightarrow> string \<Rightarrow> 'c \<Rightarrow> 'c res" where
  "flag_Set (BoolVar f) v c = (case ParseBool v of Inl e \<Rightarrow> Inl e | Inr b \<Rightarrow> Inr (f b c))"
| "flag_Set (StringVar f) v c = Inr (f v c)"
| "flag_Set (IntVar f) v c = (case ParseInt0_64 v of Inl e \<Rightarrow> Inl e | Inr i \<Rightarrow> Inr (f i c))"
| "flag_Set (DurationVar f) v c = (case ParseDuration v of Inl e \<Rightarrow> Inl (Plain ''parse error'') | Inr d \<Rightarrow> Inr (f d c))"
| "flag_Set (ForeignVar _ accepts) v c = (case accepts v of Some e \<Rightarrow> Inl e | None \<Rightarrow> Inr c)"

text \<open>An argument as \<^verbatim>\<open>parseOne\<close> reads it: no flag, the terminator, a malformed flag, or a name with an optional value.\<close>

datatype flag_arg = NoFlag | Terminator | BadSyntax | Named string "string option"

definition flag_name :: "string \<Rightarrow> flag_arg" where
  "flag_name name =
     (case name of
        [] \<Rightarrow> BadSyntax
      | c # cs \<Rightarrow>
          if c = CHR ''-'' \<or> c = CHR ''='' then BadSyntax
          else if CHR ''='' \<in> set cs
          then Named (c # takeWhile (\<lambda>x. x \<noteq> CHR ''='') cs) (Some (tl (dropWhile (\<lambda>x. x \<noteq> CHR ''='') cs)))
          else Named name None)"

definition read_flag :: "string \<Rightarrow> flag_arg" where
  "read_flag s = (case s of
     a # b # r \<Rightarrow>
       if a \<noteq> CHR ''-'' then NoFlag
       else if b = CHR ''-'' then (if r = [] then Terminator else flag_name r)
       else flag_name (b # r)
   | _ \<Rightarrow> NoFlag)"

datatype flag_end = Parsed | ErrHelp | FlagError string

text \<open>\<^verbatim>\<open>FlagSet.Parse\<close>: what was set before an error stays set.\<close>

fun flag_Parse :: "'c flag smap \<Rightarrow> string list \<Rightarrow> 'c \<Rightarrow> flag_end \<times> 'c" where
  "flag_Parse fs [] c = (Parsed, c)"
| "flag_Parse fs (s # args) c = (case read_flag s of
     NoFlag \<Rightarrow> (Parsed, c)
   | Terminator \<Rightarrow> (Parsed, c)
   | BadSyntax \<Rightarrow> (FlagError (''bad flag syntax: '' @ s), c)
   | Named name val \<Rightarrow> (case map_of fs name of
       None \<Rightarrow> if name = ''help'' \<or> name = ''h'' then (ErrHelp, c)
               else (FlagError (''flag provided but not defined: -'' @ name), c)
     | Some f \<Rightarrow>
         if is_bool_flag f then
           (case flag_Set f (case val of Some v \<Rightarrow> v | None \<Rightarrow> ''true'') c of
              Inl e \<Rightarrow> (FlagError (''invalid boolean value '' @ Quote (case val of Some v \<Rightarrow> v | None \<Rightarrow> []) @ '' for -'' @ name @ '': '' @ err_text e), c)
            | Inr c' \<Rightarrow> flag_Parse fs args c')
         else (case val of
           Some v \<Rightarrow> (case flag_Set f v c of
               Inl e \<Rightarrow> (FlagError (''invalid value '' @ Quote v @ '' for flag -'' @ name @ '': '' @ err_text e), c)
             | Inr c' \<Rightarrow> flag_Parse fs args c')
         | None \<Rightarrow> (case args of
             [] \<Rightarrow> (FlagError (''flag needs an argument: -'' @ name), c)
           | v # args' \<Rightarrow> (case flag_Set f v c of
               Inl e \<Rightarrow> (FlagError (''invalid value '' @ Quote v @ '' for flag -'' @ name @ '': '' @ err_text e), c)
             | Inr c' \<Rightarrow> flag_Parse fs args' c')))))"

section \<open>The configuration\<close>

record notification_config =
  nt_enabled :: bool
  nt_socketPath :: string

record freebsd_config =
  fb_jail :: jail_config
  fb_allowInJail :: bool

record controller_config =
  ct_metricsAddr :: string
  ct_enableLeaderElection :: bool
  ct_probeAddr :: string
  ct_secureMetrics :: bool
  ct_enableHTTP2 :: bool
  ct_namespace :: string
  ct_gomplatePath :: string
  ct_managedNode :: managednode_config
  ct_configSet :: configset_config
  ct_locker :: locker_config
  ct_freebsd :: freebsd_config
  ct_notification :: notification_config

record config =
  cf_logLevel :: string
  cf_controller :: controller_config

definition minute :: duration where
  "minute = 60 * second"

definition default_configset_config :: configset_config where
  "default_configset_config = \<lparr>cc_namespace = [], cc_gomplatePath = [], cc_reconcilePeriod = 0, cc_bucketEnabled = False,
     cc_bucketPath = ''/var/lib/nodemanager/filebucket'', cc_bucketMaxFileSize = 102400, cc_bucketMaxAge = 7 * 24 * 60 * minute\<rparr>"

definition default_controller_config :: controller_config where
  "default_controller_config = \<lparr>ct_metricsAddr = '':8080'', ct_enableLeaderElection = False, ct_probeAddr = '':8081'',
     ct_secureMetrics = False, ct_enableHTTP2 = False, ct_namespace = ''nodemanager'', ct_gomplatePath = ''gomplate'',
     ct_managedNode = default_managednode_config, ct_configSet = default_configset_config, ct_locker = default_locker_config,
     ct_freebsd = \<lparr>fb_jail = default_jail_config, fb_allowInJail = False\<rparr>,
     ct_notification = \<lparr>nt_enabled = False, nt_socketPath = ''/run/nodemanager/notify.sock''\<rparr>\<rparr>"

definition NewDefaultConfig :: config where
  "NewDefaultConfig = \<lparr>cf_logLevel = ''INFO'', cf_controller = default_controller_config\<rparr>"

text \<open>A struct registers its flags on its own fields; its owner embeds them through the field that holds it.\<close>

fun embed_flag :: "(('a \<Rightarrow> 'a) \<Rightarrow> 'c \<Rightarrow> 'c) \<Rightarrow> 'a flag \<Rightarrow> 'c flag" where
  "embed_flag upd (BoolVar f) = BoolVar (\<lambda>v. upd (f v))"
| "embed_flag upd (StringVar f) = StringVar (\<lambda>v. upd (f v))"
| "embed_flag upd (IntVar f) = IntVar (\<lambda>v. upd (f v))"
| "embed_flag upd (DurationVar f) = DurationVar (\<lambda>v. upd (f v))"
| "embed_flag upd (ForeignVar b accepts) = ForeignVar b accepts"

definition embed :: "(('a \<Rightarrow> 'a) \<Rightarrow> 'c \<Rightarrow> 'c) \<Rightarrow> 'a flag smap \<Rightarrow> 'c flag smap" where
  "embed upd = map (apsnd (embed_flag upd))"

definition managednode_flags :: "string \<Rightarrow> managednode_config flag smap" where
  "managednode_flags pre = [
     (pre @ ''.forgiveness-period'', DurationVar (\<lambda>d. mc_forgiveness_update (\<lambda>_. d))),
     (pre @ ''.drain-timeout'', DurationVar (\<lambda>d. mc_drainTimeout_update (\<lambda>_. d)))]"

definition filebucket_flags :: "string \<Rightarrow> configset_config flag smap" where
  "filebucket_flags pre = [
     (pre @ ''.enabled'', BoolVar (\<lambda>b. cc_bucketEnabled_update (\<lambda>_. b))),
     (pre @ ''.path'', StringVar (\<lambda>v. cc_bucketPath_update (\<lambda>_. v))),
     (pre @ ''.max-file-size-bytes'', IntVar (\<lambda>i. cc_bucketMaxFileSize_update (\<lambda>_. i))),
     (pre @ ''.max-age'', DurationVar (\<lambda>d. cc_bucketMaxAge_update (\<lambda>_. d)))]"

definition configset_flags :: "string \<Rightarrow> configset_config flag smap" where
  "configset_flags pre = filebucket_flags (pre @ ''.file-bucket'') @
     [(pre @ ''.reconcile-period'', DurationVar (\<lambda>d. cc_reconcilePeriod_update (\<lambda>_. d)))]"

definition locker_flags :: "string \<Rightarrow> locker_config flag smap" where
  "locker_flags pre = [
     (pre @ ''.backoff-min-period'', DurationVar (\<lambda>d. lc_minBackoff_update (\<lambda>_. d))),
     (pre @ ''.backoff-max-period'', DurationVar (\<lambda>d. lc_maxBackoff_update (\<lambda>_. d))),
     (pre @ ''.backoff-max-retries'', IntVar (\<lambda>i. lc_maxRetries_update (\<lambda>_. i))),
     (pre @ ''.lease-duration'', DurationVar (\<lambda>d. lc_leaseDuration_update (\<lambda>_. d)))]"

definition jail_flags :: "string \<Rightarrow> jail_config flag smap" where
  "jail_flags pre = [
     (pre @ ''.data-path'', StringVar (\<lambda>v. jcfg_dataPath_update (\<lambda>_. v))),
     (pre @ ''.zfs-dataset'', StringVar (\<lambda>v. jcfg_zfsDataset_update (\<lambda>_. v))),
     (pre @ ''.mirror'', StringVar (\<lambda>v. jcfg_mirror_update (\<lambda>_. v)))]"

definition freebsd_flags :: "string \<Rightarrow> freebsd_config flag smap" where
  "freebsd_flags pre = embed fb_jail_update (jail_flags ''jail'') @
     [(pre @ ''.allow-in-jail'', BoolVar (\<lambda>b. fb_allowInJail_update (\<lambda>_. b)))]"

definition notification_flags :: "string \<Rightarrow> notification_config flag smap" where
  "notification_flags pre = [
     (pre @ ''.enabled'', BoolVar (\<lambda>b. nt_enabled_update (\<lambda>_. b))),
     (pre @ ''.socket-path'', StringVar (\<lambda>v. nt_socketPath_update (\<lambda>_. v)))]"

definition controller_flags :: "controller_config flag smap" where
  "controller_flags = [
     (''metrics-bind-address'', StringVar (\<lambda>v. ct_metricsAddr_update (\<lambda>_. v))),
     (''leader-elect'', BoolVar (\<lambda>b. ct_enableLeaderElection_update (\<lambda>_. b))),
     (''health-probe-bind-address'', StringVar (\<lambda>v. ct_probeAddr_update (\<lambda>_. v))),
     (''metrics-secure'', BoolVar (\<lambda>b. ct_secureMetrics_update (\<lambda>_. b))),
     (''enable-http2'', BoolVar (\<lambda>b. ct_enableHTTP2_update (\<lambda>_. b))),
     (''namespace'', StringVar (\<lambda>v. ct_namespace_update (\<lambda>_. v))),
     (''gomplate-path'', StringVar (\<lambda>v. ct_gomplatePath_update (\<lambda>_. v)))] @
     embed ct_managedNode_update (managednode_flags ''managednode'') @
     embed ct_configSet_update (configset_flags ''configset'') @
     embed ct_locker_update (locker_flags ''locker'') @
     embed ct_freebsd_update (freebsd_flags ''freebsd'') @
     embed ct_notification_update (notification_flags ''notification'')"

definition config_flags :: "config flag smap" where
  "config_flags = (''log-level'', StringVar (\<lambda>v. cf_logLevel_update (\<lambda>_. v))) # embed cf_controller_update controller_flags"

section \<open>loadConfig\<close>

record config_options =
  co_file :: string
  co_expandEnv :: bool
  co_verify :: bool

definition no_options :: config_options where
  "no_options = \<lparr>co_file = [], co_expandEnv = False, co_verify = False\<rparr>"

definition option_flags :: "config_options flag smap" where
  "option_flags = [
     (''config.file'', StringVar (\<lambda>v. co_file_update (\<lambda>_. v))),
     (''config.expand-env'', BoolVar (\<lambda>b. co_expandEnv_update (\<lambda>_. b))),
     (''config.verify'', BoolVar (\<lambda>b. co_verify_update (\<lambda>_. b)))]"

text \<open>The arguments are parsed again from every position, errors ignored.\<close>

fun scan_options :: "string list \<Rightarrow> config_options \<Rightarrow> config_options" where
  "scan_options [] o' = o'"
| "scan_options (a # args) o' = scan_options args (snd (flag_Parse option_flags (a # args) o'))"

text \<open>\<^verbatim>\<open>flagext.IgnoredFlag\<close> of the vendored \<^verbatim>\<open>dskit\<close>: a value whose \<^verbatim>\<open>Set\<close> accepts anything and which has no
  \<^verbatim>\<open>IsBoolFlag\<close> method.\<close>

definition IgnoredFlag :: "'c flag" where
  "IgnoredFlag = ForeignVar False (\<lambda>_. None)"

definition ignored_flags :: "config flag smap" where
  "ignored_flags = [(''config.file'', IgnoredFlag), (''config.expand-env'', IgnoredFlag), (''config.verify'', IgnoredFlag)]"

text \<open>What \<open>loadConfig\<close> comes to: a configuration with the verify option, an error, or the end of the process in
  \<^verbatim>\<open>flag.Parse\<close>, which exits with 2 on an error and with 0 after printing the usage.\<close>

datatype load_result = Loaded config bool | LoadError err | Exit nat

definition read_config_file :: "'h host \<Rightarrow> (string \<Rightarrow> string res) \<Rightarrow> (string \<Rightarrow> config \<Rightarrow> config res) \<Rightarrow> config_options \<Rightarrow>
    ('h world, config res) state" where
  "read_config_file h evalEnv unmarshalStrict opts =
     (if co_file opts = [] then ret (Inr NewDefaultConfig)
      else or_return (os_ReadFile h (co_file opts)) (Wrap (''failed to read configFile '' @ co_file opts)) (\<lambda>buff.
        ret (case (if co_expandEnv opts then evalEnv buff else Inr buff) of
               Inl e \<Rightarrow> Inl (Wrap (''failed to expand env vars from configFile '' @ co_file opts) e)
             | Inr s \<Rightarrow> (case unmarshalStrict s NewDefaultConfig of
                 Inl e \<Rightarrow> Inl (Wrap (''failed to parse configFile '' @ co_file opts) e)
               | Inr c \<Rightarrow> Inr c))))"

text \<open>\<open>others\<close> are the flags that imported packages have registered on the command line.\<close>

definition command_line :: "(bool \<times> (string \<Rightarrow> err option)) smap \<Rightarrow> config flag smap" where
  "command_line others = config_flags @ ignored_flags @ map (apsnd (\<lambda>(b, accepts). ForeignVar b accepts)) others"

definition loadConfig :: "'h host \<Rightarrow> (string \<Rightarrow> string res) \<Rightarrow> (string \<Rightarrow> config \<Rightarrow> config res) \<Rightarrow>
    (bool \<times> (string \<Rightarrow> err option)) smap \<Rightarrow>
    string list \<Rightarrow> ('h world, load_result) state" where
  "loadConfig h evalEnv unmarshalStrict others args =
     (let opts = scan_options args no_options in do {
        r \<leftarrow> read_config_file h evalEnv unmarshalStrict opts;
        ret (case r of
               Inl e \<Rightarrow> LoadError e
             | Inr base \<Rightarrow> (case flag_Parse (command_line others) args base of
                 (Parsed, cfg) \<Rightarrow> Loaded cfg (co_verify opts)
               | (ErrHelp, _) \<Rightarrow> Exit 0
               | (FlagError _, _) \<Rightarrow> Exit 2))
      })"

section \<open>main, up to the manager\<close>

definition configIsValid :: "config \<Rightarrow> bool" where
  "configIsValid cfg = True"

text \<open>\<^verbatim>\<open>slog.Level.UnmarshalText\<close>: a name in any case with an optional offset, added at 64 bits. Beside the
  ASCII letters, \<^verbatim>\<open>strings.ToUpper\<close> makes the dotless i an ASCII letter; every other byte keeps the name unknown.\<close>

fun level_ToUpper :: "string \<Rightarrow> string" where
  "level_ToUpper (CHR 0xC4 # CHR 0xB1 # s) = CHR ''I'' # level_ToUpper s"
| "level_ToUpper (c # s) =
     (let n = of_char c :: nat in (if 97 \<le> n \<and> n \<le> 122 then char_of (n - 32) else c) # level_ToUpper s)"
| "level_ToUpper [] = []"

definition level_base :: "string \<Rightarrow> int option" where
  "level_base name = map_of [(''DEBUG'', - 4), (''INFO'', 0), (''WARN'', 4), (''ERROR'', 8)] (level_ToUpper name)"

definition parseLevel :: "string \<Rightarrow> int res" where
  "parseLevel s =
     (let name = takeWhile (\<lambda>c. c \<noteq> CHR ''+'' \<and> c \<noteq> CHR ''-'') s; rest = drop (length name) s;
          failed = Wrap (''slog: level string '' @ Quote s) in
      case (if rest = [] then Some 0 else Atoi rest) of
        None \<Rightarrow> Inl (failed (Plain (''strconv.Atoi: parsing '' @ Quote rest)))
      | Some offset \<Rightarrow> (case level_base name of
          None \<Rightarrow> Inl (failed (Plain ''unknown name''))
        | Some l \<Rightarrow> Inr (sint (word_of_int (l + offset) :: 64 word))))"

text \<open>The exit code, or the configuration the manager is set up with. The two fields that have no flag of their
  own are copied when the ConfigSet reconciler is made.\<close>

definition startup :: "load_result \<Rightarrow> nat + controller_config" where
  "startup r = (case r of
     LoadError _ \<Rightarrow> Inl 1
   | Exit n \<Rightarrow> Inl n
   | Loaded cfg configVerify \<Rightarrow>
       if configVerify then Inl (if configIsValid cfg then 0 else 1)
       else (case parseLevel (cf_logLevel cfg) of
         Inl _ \<Rightarrow> Inl 1
       | Inr _ \<Rightarrow> Inr (cf_controller cfg)))"

definition harness_configset :: "controller_config \<Rightarrow> configset_config" where
  "harness_configset c = (ct_configSet c)\<lparr>cc_namespace := ct_namespace c, cc_gomplatePath := ct_gomplatePath c\<rparr>"

section \<open>Settings on the command line\<close>

text \<open>The names the arguments may give a value to, in any way they are read.\<close>

definition named_flags :: "string list \<Rightarrow> string set" where
  "named_flags args = {n. \<exists>a \<in> set args. \<exists>v. read_flag a = Named n v}"

lemma named_flags_Cons: "named_flags args \<subseteq> named_flags (a # args)"
  by (auto simp: named_flags_def)

text \<open>A part of the configuration that no named flag sets is what it was: the command line overrides the file only in
  what it names.\<close>

lemma flag_Parse_keeps:
  assumes "\<And>n f v c c'. n \<in> named_flags args \<Longrightarrow> map_of fs n = Some f \<Longrightarrow> flag_Set f v c = Inr c' \<Longrightarrow> g c' = g c"
  shows "g (snd (flag_Parse fs args c)) = g c"
  using assms
proof (induction fs args c rule: flag_Parse.induct)
  case (1 fs c)
  then show ?case by simp
next
  case (2 fs s args c)
  have tl: "named_flags args \<subseteq> named_flags (s # args)" "\<And>v r. args = v # r \<Longrightarrow> named_flags r \<subseteq> named_flags (s # args)"
    by (auto simp: named_flags_def)
  have keep: "read_flag s = Named n v' \<Longrightarrow> map_of fs n = Some f \<Longrightarrow> flag_Set f v x = Inr x' \<Longrightarrow> g x' = g x" for n v' f v x x'
    using "2.prems"[of n f v x x'] by (auto simp: named_flags_def)
  show ?case
  proof (cases "read_flag s")
    case (Named n v)
    note IH = "2.IH"[OF Named]
    show ?thesis
    proof (cases "map_of fs n")
      case (Some f)
      note IH' = IH[OF Some]
      show ?thesis
        using IH' "2.prems" tl keep[OF Named Some] Named Some
        by (fastforce split: sum.split option.split list.split)
    qed (simp add: Named)
  qed simp_all
qed

text \<open>An argument that gives a flag its value in one word.\<close>

definition setting :: "string \<times> string \<Rightarrow> string" where
  "setting p = ''-'' @ fst p @ ''='' @ snd p"

definition plain_name :: "string \<Rightarrow> bool" where
  "plain_name n \<longleftrightarrow> n \<noteq> [] \<and> hd n \<noteq> CHR ''-'' \<and> CHR ''='' \<notin> set n"

lemma takeWhile_eq_append: "CHR ''='' \<notin> set xs \<Longrightarrow> takeWhile (\<lambda>x. x \<noteq> CHR ''='') (xs @ CHR ''='' # ys) = xs"
  "CHR ''='' \<notin> set xs \<Longrightarrow> dropWhile (\<lambda>x. x \<noteq> CHR ''='') (xs @ CHR ''='' # ys) = CHR ''='' # ys"
  by (induction xs) auto

lemma read_flag_setting [simp]: "plain_name n \<Longrightarrow> read_flag (setting (n, v)) = Named n (Some v)"
  by (cases n) (auto simp: read_flag_def flag_name_def setting_def plain_name_def takeWhile_eq_append)

fun set_settings :: "'c flag smap \<Rightarrow> (string \<times> string) list \<Rightarrow> 'c \<Rightarrow> 'c res" where
  "set_settings fs [] c = Inr c"
| "set_settings fs ((n, v) # ps) c = (case map_of fs n of
     None \<Rightarrow> Inl (Plain n)
   | Some f \<Rightarrow> (case flag_Set f v c of Inl e \<Rightarrow> Inl e | Inr c' \<Rightarrow> set_settings fs ps c'))"

text \<open>Arguments of this form are set from left to right, and parsing succeeds exactly when all of them can be set.\<close>

lemma flag_Parse_settings:
  assumes "list_all (plain_name \<circ> fst) ps"
  shows "(\<exists>c'. set_settings fs ps c = Inr c' \<and> flag_Parse fs (map setting ps) c = (Parsed, c')) \<or>
    (\<exists>e r c'. set_settings fs ps c = Inl e \<and> flag_Parse fs (map setting ps) c = (r, c') \<and> r \<noteq> Parsed)"
  using assms
proof (induction ps arbitrary: c)
  case (Cons p ps)
  obtain n v where p: "p = (n, v)" by force
  show ?case
    using Cons p by (cases "map_of fs n") (auto split: sum.split)
qed simp

lemma set_settings_append:
  "set_settings fs (ps @ qs) c = (case set_settings fs ps c of Inl e \<Rightarrow> Inl e | Inr c' \<Rightarrow> set_settings fs qs c')"
  by (induction ps arbitrary: c) (auto split: option.split sum.split)


section \<open>Precedence\<close>

text \<open>No name is registered twice, which would make package \<^verbatim>\<open>flag\<close> panic.\<close>

lemma command_line_distinct: "distinct (map fst (command_line []))"
  by code_simp

lemma config_flags_namespace: "map_of (command_line others) ''namespace'' =
    Some (StringVar (\<lambda>v. cf_controller_update (ct_namespace_update (\<lambda>_. v))))"
  by (simp add: command_line_def config_flags_def controller_flags_def embed_def)

lemma embed_keeps:
  assumes "(n, f) \<in> set (embed upd fs)" and "flag_Set f v c = Inr c'" and "\<And>h x. g (upd h x) = g x"
  shows "g c' = g c"
proof -
  obtain f' where "f = embed_flag upd f'"
    using assms(1) by (auto simp: embed_def)
  then show ?thesis
    using assms(2,3) by (cases f') (auto split: sum.splits option.splits)
qed

lemma flag_Set_embed_controller:
  "flag_Set (embed_flag cf_controller_update f) v c = Inr c' \<Longrightarrow>
   \<exists>x. flag_Set f v (cf_controller c) = Inr x \<and> c' = c\<lparr>cf_controller := x\<rparr>"
  by (cases f) (auto split: sum.splits option.splits)

lemma controller_flags_keep:
  assumes "(n, f) \<in> set controller_flags" and "n \<noteq> ''namespace''" and "flag_Set f v c = Inr c'"
  shows "ct_namespace c' = ct_namespace c"
proof -
  consider "f \<in> {StringVar (\<lambda>v. ct_metricsAddr_update (\<lambda>_. v)), BoolVar (\<lambda>b. ct_enableLeaderElection_update (\<lambda>_. b)),
      StringVar (\<lambda>v. ct_probeAddr_update (\<lambda>_. v)), BoolVar (\<lambda>b. ct_secureMetrics_update (\<lambda>_. b)),
      BoolVar (\<lambda>b. ct_enableHTTP2_update (\<lambda>_. b)), StringVar (\<lambda>v. ct_gomplatePath_update (\<lambda>_. v))}"
    | "(n, f) \<in> set (embed ct_managedNode_update (managednode_flags ''managednode''))"
    | "(n, f) \<in> set (embed ct_configSet_update (configset_flags ''configset''))"
    | "(n, f) \<in> set (embed ct_locker_update (locker_flags ''locker''))"
    | "(n, f) \<in> set (embed ct_freebsd_update (freebsd_flags ''freebsd''))"
    | "(n, f) \<in> set (embed ct_notification_update (notification_flags ''notification''))"
    using assms(1,2) by (simp add: controller_flags_def del: insert_iff) blast
  then show ?thesis
    by cases (use assms(3) in \<open>auto split: sum.splits dest: embed_keeps [where g = ct_namespace]\<close>)
qed

lemma only_namespace_sets_it:
  assumes "n \<noteq> ''namespace''" and "map_of (command_line others) n = Some f" and "flag_Set f v c = Inr c'"
  shows "ct_namespace (cf_controller c') = ct_namespace (cf_controller c)"
proof -
  consider "f = StringVar (\<lambda>v. cf_logLevel_update (\<lambda>_. v))"
    | f' where "(n, f') \<in> set controller_flags" "f = embed_flag cf_controller_update f'"
    | b accepts where "f = ForeignVar b accepts"
    using map_of_SomeD[OF assms(2)]
    by (auto simp: command_line_def config_flags_def embed_def ignored_flags_def IgnoredFlag_def)
  then show ?thesis
    using assms(1,3) by cases (auto split: option.splits dest!: flag_Set_embed_controller dest: controller_flags_keep)
qed

lemma set_settings_namespace:
  "set_settings (command_line others) ps c = Inr c' \<Longrightarrow>
   ct_namespace (cf_controller c') = (case map_of (rev ps) ''namespace'' of Some v \<Rightarrow> v | None \<Rightarrow> ct_namespace (cf_controller c))"
proof (induction ps arbitrary: c' rule: rev_induct)
  case (snoc p ps)
  obtain n v where p: "p = (n, v)" by force
  obtain c1 f where f: "set_settings (command_line others) ps c = Inr c1" "map_of (command_line others) n = Some f"
      "flag_Set f v c1 = Inr c'"
    using snoc.prems by (auto simp: set_settings_append p split: sum.splits option.splits)
  show ?case
  proof (cases "n = ''namespace''")
    case True
    then show ?thesis using f p by (auto simp: config_flags_namespace)
  next
    case False
    then show ?thesis using snoc.IH[OF f(1)] only_namespace_sets_it[OF False f(2,3)] p by simp
  qed
qed simp

text \<open>With settings on the command line, the namespace the controllers work in is the last one given there, else that of
  the configuration file, else the default. Whatever else is set does not change it.\<close>

theorem namespace_precedence:
  assumes "list_all (plain_name \<circ> fst) ps"
    and "run_state (read_config_file h evalEnv unmarshal (scan_options (map setting ps) no_options)) w = (Inr base, w1)"
    and "run_state (loadConfig h evalEnv unmarshal others (map setting ps)) w = (Loaded cfg verify, w')"
  shows "ct_namespace (cf_controller cfg) =
    (case map_of (rev ps) ''namespace'' of Some v \<Rightarrow> v | None \<Rightarrow> ct_namespace (cf_controller base))"
proof -
  have "flag_Parse (command_line others) (map setting ps) base = (Parsed, cfg)"
    using assms(2,3) by (auto simp: loadConfig_def Let_def split: prod.splits flag_end.splits)
  then have "set_settings (command_line others) ps base = Inr cfg"
    using flag_Parse_settings[OF assms(1), of "command_line others" base] by auto
  then show ?thesis by (rule set_settings_namespace)
qed

text \<open>Without a file the defaults of the flags apply, and only the file is read.\<close>

lemma no_file_defaults: "co_file opts = [] \<Longrightarrow> read_config_file h evalEnv unmarshal opts = ret (Inr NewDefaultConfig)"
  by (simp add: read_config_file_def)

section \<open>The options of the configuration file\<close>

text \<open>The usage calls \<^verbatim>\<open>-config.verify\<close> a switch, and the first scan reads it as one. The command line itself knows it as
  a flag with a value: the switch alone ends the process with the code of a usage error, before and about
  nothing of the configuration, and in front of other settings it takes the next one as its value.\<close>

lemmas load_unfolds = loadConfig_def scan_options.simps option_flags_def read_flag_def flag_name_def read_config_file_def
  no_options_def command_line_def config_flags_def embed_def controller_flags_def ignored_flags_def IgnoredFlag_def
  managednode_flags_def filebucket_flags_def configset_flags_def locker_flags_def jail_flags_def freebsd_flags_def
  notification_flags_def ParseBool_def

lemma verify_switch_fails:
  "run_state (loadConfig h evalEnv unmarshal others [''-config.verify'']) w = (Exit 2, w)"
  by (simp add: load_unfolds)

lemma expand_env_takes_the_next_setting:
  "run_state (loadConfig h evalEnv unmarshal others [''-config.expand-env'', ''-namespace=prod'']) w =
   (Loaded NewDefaultConfig False, w)"
  by (simp add: load_unfolds)

lemma parseLevel_examples:
  "parseLevel ''info'' = Inr 0" "parseLevel ''WARN+1'' = Inr 5" "parseLevel ''Error-8'' = Inr 0"
  "parseLevel ''ERROR+9223372036854775807'' = Inr (- 9223372036854775801)"
  by code_simp+

lemma parseLevel_bounds:
  assumes "parseLevel s = Inr l"
  shows "- (2 ^ 63) \<le> l \<and> l < 2 ^ 63"
proof -
  obtain x :: "64 word" where "l = sint x"
    using assms by (auto simp: parseLevel_def Let_def split: option.splits if_splits)
  then show ?thesis using sint_range_size[of x] by (simp add: size_word_def)
qed

lemma digit_in_nonneg:
  assumes "digit_in c = Some d"
  shows "0 \<le> d"
  using assms of_nat_of_char[where 'a = int, of c]
  by (auto simp: digit_in_def is_digit_def digit_val_def Let_def split: if_splits)

lemma parse_digits_nonneg:
  assumes "0 \<le> a" and "parse_digits base a s = Some n" and "0 \<le> base"
  shows "0 \<le> n"
  using assms(1,2)
proof (induction s arbitrary: a)
  case (Cons c cs)
  then show ?case
  proof (cases "c = CHR ''_''")
    case False
    then obtain d where d: "digit_in c = Some d" "parse_digits base (a * base + d) cs = Some n"
      using Cons.prems(2) by (auto split: option.splits if_splits)
    then show ?thesis
      using Cons.IH[OF _ d(2)] Cons.prems(1) assms(3) digit_in_nonneg[OF d(1)] by simp
  qed simp
qed simp

lemma base_prefix_pos: "base_prefix s = (base, ds) \<Longrightarrow> 0 \<le> base"
  by (auto simp: base_prefix_def split: list.splits if_splits)

lemma ParseInt0_64_bounds: "ParseInt0_64 s = Inr i \<Longrightarrow> - (2 ^ 63) \<le> i \<and> i < 2 ^ 63"
  by (auto simp: ParseInt0_64_def Let_def split: prod.splits option.splits if_splits
      dest!: parse_digits_nonneg[OF order_refl] dest: base_prefix_pos)

text \<open>The process ends before the manager is made exactly when the configuration cannot be loaded, is only to be
  verified, or names no log level.\<close>

lemma startup_runs:
  "startup r = Inr c \<longleftrightarrow> (\<exists>cfg l. r = Loaded cfg False \<and> parseLevel (cf_logLevel cfg) = Inr l \<and> c = cf_controller cfg)"
  by (auto simp: startup_def split: load_result.splits sum.splits)

end
