(* ===== verification/Daemon.thy ===== *)
theory Daemon
  imports Config
begin

text \<open>
  The daemon branch of \<^verbatim>\<open>main\<close> in \<^verbatim>\<open>cmd/main.go\<close> from the loaded configuration to the running manager: the options the
  manager is made with, the steps that may end the process, and what they are given of the configuration. The
  controller manager, the client set and the exporter of traces are third-party: a record of functions of the outside.
\<close>

section \<open>The manager's options\<close>

record manager_options =
  mo_syncPeriod :: duration
  mo_namespaces :: "string list"
  mo_metricsAddr :: string
  mo_metricsSecure :: bool
  mo_tls :: "string list \<Rightarrow> string list"
  mo_pprof :: "string list"
  mo_probeAddr :: string
  mo_leaderElection :: bool
  mo_leaderElectionID :: string
  mo_gracePeriod :: duration

text \<open>What the TLS options of the metrics and the webhook server do to the protocols a server offers.\<close>

definition tls_NextProtos :: "bool \<Rightarrow> string list \<Rightarrow> string list" where
  "tls_NextProtos enableHTTP2 protos = (if enableHTTP2 then protos else [''http/1.1''])"

definition options_of :: "controller_config \<Rightarrow> manager_options" where
  "options_of c = \<lparr>mo_syncPeriod = 2 * minute, mo_namespaces = [ct_namespace c],
     mo_metricsAddr = ct_metricsAddr c, mo_metricsSecure = ct_secureMetrics c, mo_tls = tls_NextProtos (ct_enableHTTP2 c),
     mo_pprof = map (\<lambda>s. ''/debug/pprof/'' @ s) [[], ''cmdline'', ''profile'', ''symbol'', ''trace''],
     mo_probeAddr = ct_probeAddr c, mo_leaderElection = ct_enableLeaderElection c,
     mo_leaderElectionID = ''0c551175.nodemanager'', mo_gracePeriod = 30 * second\<rparr>"

section \<open>The steps of main\<close>

text \<open>A reconciler is set up with its part of the configuration and the identity of the machine.\<close>

datatype runnable_config =
    SetupNotification notification_config
  | SetupManagedNode managednode_config
  | SetupConfigSet configset_config
  | SetupPoudriere
  | SetupJail jail_config
  | SetupSighup string string

record 'h manager =
  mg_new :: "manager_options \<Rightarrow> ('h, err option) state"
  mg_clientset :: "('h, err option) state"
  mg_add :: "lease_locker \<Rightarrow> runnable_config \<Rightarrow> ('h, err option) state"
  mg_addCheck :: "string \<Rightarrow> ('h, err option) state"
  mg_getenv :: "string \<Rightarrow> ('h, string) state"
  mg_resource :: "('h, err option) state"
  mg_exporter :: "('h, err option) state"
  mg_start :: "('h, err option) state"

fun runnable_setup :: "controller_config \<Rightarrow> string \<Rightarrow> runnable \<Rightarrow> runnable_config" where
  "runnable_setup c hostname NotificationServer = SetupNotification (ct_notification c)"
| "runnable_setup c hostname ManagedNodeController = SetupManagedNode (ct_managedNode c)"
| "runnable_setup c hostname ConfigSetController = SetupConfigSet (harness_configset c)"
| "runnable_setup c hostname PoudriereController = SetupPoudriere"
| "runnable_setup c hostname JailController = SetupJail (fb_jail (ct_freebsd c))"
| "runnable_setup c hostname SighupTrigger = SetupSighup hostname (ct_namespace c)"

text \<open>Tracing is off without an endpoint; a resource or an exporter that cannot be made is an error.\<close>

definition installTracer :: "'h manager \<Rightarrow> ('h, err option) state" where
  "installTracer mg = do {
     endpoint \<leftarrow> mg_getenv mg ''OTEL_EXPORTER_OTLP_ENDPOINT'';
     if endpoint = [] then ret None
     else check_fail (mg_resource mg) (Wrap ''failed to create trace resource'')
       (check_fail (mg_exporter mg) (Wrap ''failed to create trace exporter'') (ret None))
   }"

text \<open>Every error ends the process with exit code 1. The client set's locker has the host's name for its identity.\<close>

definition run_manager :: "'h host \<Rightarrow> 'h manager \<Rightarrow> ini \<Rightarrow> string \<Rightarrow> string \<Rightarrow> controller_config \<Rightarrow>
    ('h world, err option) state" where
  "run_manager h mg ini goarch goos c =
     check_fail (ext (mg_new mg (options_of c))) id
     (check_fail (ext (mg_clientset mg)) id
     (or_fail (NewSystem h ini goarch goos) id (\<lambda>(sys, ident).
      or_fail (nh_Hostname (sy_node sys)) id (\<lambda>hostname.
        let locker = NewLeaseLocker (ct_locker c) (ct_namespace c) hostname in
        check_fail (start_runnables h (\<lambda>r. mg_add mg locker (runnable_setup c hostname r))
            (nt_enabled (ct_notification c)) ident (fb_allowInJail (ct_freebsd c))) id
        (check_fail (ext (mg_addCheck mg ''healthz'')) id
        (check_fail (ext (mg_addCheck mg ''readyz'')) id
        (check_fail (ext (installTracer mg)) id
        (ext (mg_start mg)))))))))"

definition run_daemon :: "'h host \<Rightarrow> 'h manager \<Rightarrow> ini \<Rightarrow> string \<Rightarrow> string \<Rightarrow> load_result \<Rightarrow> ('h world, nat) state" where
  "run_daemon h mg ini goarch goos r = (case startup r of
     Inl n \<Rightarrow> ret n
   | Inr c \<Rightarrow> do {
       e \<leftarrow> run_manager h mg ini goarch goos c;
       ret (if e = None then 0 else 1)
     })"

section \<open>Lemmas\<close>

text \<open>With the defaults neither server offers HTTP/2, and both controllers that read ConfigSets and nodes look into
  the one namespace the manager's cache holds.\<close>

lemma default_http1: "mo_tls (options_of default_controller_config) protos = [''http/1.1'']"
  by (simp add: options_of_def tls_NextProtos_def default_controller_config_def)

lemma one_namespace:
  "mo_namespaces (options_of c) = [cc_namespace (harness_configset c)]"
  by (simp add: options_of_def harness_configset_def)

text \<open>A configuration that does not load, or is only verified, starts nothing: the process leaves the host as it was.\<close>

lemma verify_starts_nothing:
  "startup r = Inl n \<Longrightarrow> run_daemon h mg ini goarch goos r = ret n"
  by (simp add: run_daemon_def)

text \<open>Starting adds nothing to the trace but the commands that find out about the system.\<close>

lemma emits_add_each: "emits P (add_each setup cs)"
  by (induction cs) (auto intro!: emits_rules)

lemma emits_host_controllers: "emits is_exec (host_controllers h ident allow)"
  by (cases ident) (auto simp: host_controllers_def IsJailed_def is_exec_def intro!: emits_rules)

end
