(* ===== verification/AgentSession.thy ===== *)
theory AgentSession
  imports Agent Config
begin

text \<open>
  The agent's process around its event loop: the subcommands and flags of \<^verbatim>\<open>cmd/agent/main.go\<close>, a session with the
  daemon from the bus and the socket to the end of the stream (\<open>subscribe\<close>), the D-Bus calls of
  \<^verbatim>\<open>desktop.go\<close>, and the tray of \<^verbatim>\<open>tray.go\<close>. The bus, gRPC, the tray library and the PNG codec are parameters.
\<close>

section \<open>Subcommands and flags\<close>

datatype agent_command = AgentNotify "string list" | AgentVersion | AgentSubscribe "string list"

definition agent_main :: "string list \<Rightarrow> agent_command" where
  "agent_main args = (case args of
     _ # c # rest \<Rightarrow>
       if c = ''notify'' then AgentNotify rest else if c = ''version'' then AgentVersion else AgentSubscribe (c # rest)
   | _ \<Rightarrow> AgentSubscribe [])"

definition defaultSocketPath :: string where
  "defaultSocketPath = ''/run/nodemanager/notify.sock''"

record subscribe_options =
  so_socketPath :: string
  so_user :: string
  so_logLevel :: string
  so_showVer :: bool

definition subscribe_flags :: "subscribe_options flag smap" where
  "subscribe_flags = [
     (''socket-path'', StringVar (\<lambda>v. so_socketPath_update (\<lambda>_. v))),
     (''user'', StringVar (\<lambda>v. so_user_update (\<lambda>_. v))),
     (''log-level'', StringVar (\<lambda>v. so_logLevel_update (\<lambda>_. v))),
     (''version'', BoolVar (\<lambda>b. so_showVer_update (\<lambda>_. b)))]"

text \<open>An exit code, or the socket and the user of the session to run.\<close>

definition runSubscribe :: "string \<Rightarrow> string list \<Rightarrow> nat + string \<times> string" where
  "runSubscribe USER args =
     (case flag_Parse subscribe_flags args
         \<lparr>so_socketPath = defaultSocketPath, so_user = USER, so_logLevel = ''INFO'', so_showVer = False\<rparr> of
        (ErrHelp, _) \<Rightarrow> Inl 0
      | (FlagError _, _) \<Rightarrow> Inl 2
      | (Parsed, opts) \<Rightarrow>
          if so_showVer opts then Inl 0
          else (case parseLevel (so_logLevel opts) of
            Inl _ \<Rightarrow> Inl 1
          | Inr _ \<Rightarrow> Inr (so_socketPath opts, so_user opts)))"

record notify_options =
  no_socketPath :: string
  no_title :: string
  no_body :: string
  no_severity :: string

definition notify_flags :: "notify_options flag smap" where
  "notify_flags = [
     (''socket-path'', StringVar (\<lambda>v. no_socketPath_update (\<lambda>_. v))),
     (''title'', StringVar (\<lambda>v. no_title_update (\<lambda>_. v))),
     (''body'', StringVar (\<lambda>v. no_body_update (\<lambda>_. v))),
     (''severity'', StringVar (\<lambda>v. no_severity_update (\<lambda>_. v)))]"

text \<open>The exit code of \<^verbatim>\<open>nodemanager-agent notify\<close>. An error of the connection, made after the checks, ends the
  process as one of the call does.\<close>

definition notify_command :: "(string \<Rightarrow> err option) \<Rightarrow> (string \<Rightarrow> string \<Rightarrow> severity \<Rightarrow> (server, ack res) state) \<Rightarrow>
    string list \<Rightarrow> (server, nat) state" where
  "notify_command dial send args =
     (case flag_Parse notify_flags args
         \<lparr>no_socketPath = defaultSocketPath, no_title = [], no_body = [], no_severity = ''info''\<rparr> of
        (ErrHelp, _) \<Rightarrow> ret 0
      | (FlagError _, _) \<Rightarrow> ret 2
      | (Parsed, opts) \<Rightarrow> do {
          e \<leftarrow> runNotify (\<lambda>title body sev. case dial (no_socketPath opts) of
                 Some x \<Rightarrow> ret (Inl x) | None \<Rightarrow> send title body sev)
               (no_title opts) (no_body opts) (no_severity opts);
          ret (if e = None then 0 else 1)
        })"

section \<open>The bus\<close>

text \<open>The session bus is connected and the two signals asked for; an error of either closes it again.\<close>

definition newDesktop :: "err option \<Rightarrow> (string \<Rightarrow> err option) \<Rightarrow> err option" where
  "newDesktop connect match =
     (case connect of
        Some e \<Rightarrow> Some (Wrap ''connect session bus'' e)
      | None \<Rightarrow> (case match ''ActionInvoked'' of
          Some e \<Rightarrow> Some (Wrap ''add match signal'' e)
        | None \<Rightarrow> map_option (Wrap ''add match signal'') (match ''NotificationClosed'')))"

record notify_args =
  na_app :: string
  na_replaces :: "32 word"
  na_icon :: string
  na_summary :: string
  na_body :: string
  na_actions :: "string list"
  na_urgency :: "8 word option"
  na_timeout :: "32 word"

fun notify_args_of :: "desk_call \<Rightarrow> notify_args" where
  "notify_args_of (Show summary body icon) = \<lparr>na_app = ''nodemanager'', na_replaces = 0, na_icon = icon,
     na_summary = summary, na_body = body, na_actions = [], na_urgency = None, na_timeout = - 1\<rparr>"
| "notify_args_of (ShowActions summary body icon actions timeout _) = \<lparr>na_app = ''nodemanager'', na_replaces = 0,
     na_icon = icon, na_summary = summary, na_body = body, na_actions = actions,
     na_urgency = Some 2, na_timeout = timeout\<rparr>"

section \<open>A session\<close>

text \<open>What happens in a session: an input of the agent, or an error of \<^verbatim>\<open>stream.Recv\<close> with the context's state.\<close>

datatype session_event = Input agent_input | RecvError err bool

record session =
  ss_result :: "err option option"
  ss_status :: "bool list"
  ss_activity :: nat
  ss_answers :: "approval_response list"
  ss_actions :: actions

fun is_stream_event :: "agent_input \<Rightarrow> bool" where
  "is_stream_event (Event _ _ _) = True"
| "is_stream_event (Signal _) = False"

text \<open>The loop, with the callbacks the bus runs beside it. An empty rest is a stream that is still open.\<close>

fun recv_loop :: "string \<Rightarrow> session_event list \<Rightarrow> session \<Rightarrow> session" where
  "recv_loop user [] s = s"
| "recv_loop user (RecvError e ctxDone # _) s = s\<lparr>ss_result := Some (if ctxDone then None else Some (Wrap ''recv'' e))\<rparr>"
| "recv_loop user (Input i # rest) s = (case agent_step user i (ss_actions s) of
     (rs, acts) \<Rightarrow> recv_loop user rest (s\<lparr>ss_activity := ss_activity s + (if is_stream_event i then 1 else 0),
       ss_answers := ss_answers s @ rs, ss_actions := acts\<rparr>))"

definition new_session :: session where
  "new_session = \<lparr>ss_result = None, ss_status = [], ss_activity = 0, ss_answers = [], ss_actions = []\<rparr>"

definition subscribe :: "err option \<Rightarrow> (string \<Rightarrow> err option) \<Rightarrow> (string \<Rightarrow> err option) \<Rightarrow> string \<Rightarrow> string \<Rightarrow>
    session_event list \<Rightarrow> session" where
  "subscribe desk dial open_stream socketPath user events =
     (case desk of
        Some e \<Rightarrow> new_session\<lparr>ss_result := Some (Some (Wrap ''desktop notifications'' e))\<rparr>
      | None \<Rightarrow> (case dial (''unix://'' @ socketPath) of
          Some e \<Rightarrow> new_session\<lparr>ss_result := Some (Some (Wrap (''dial '' @ socketPath) e))\<rparr>
        | None \<Rightarrow> (case open_stream user of
            Some e \<Rightarrow> new_session\<lparr>ss_result := Some (Some (Wrap ''subscribe'' e))\<rparr>
          | None \<Rightarrow> recv_loop user events (new_session\<lparr>ss_status := [True]\<rparr>))))"

section \<open>The tray\<close>

record tray =
  tr_title :: string
  tr_active :: bool
  tr_revert :: "instant option"

text \<open>The timer fires when its time has come, unless it was stopped. The titles begin with a full and an empty circle
  and end with an ellipsis in UTF-8.\<close>

datatype tray_event = OnStatus bool | OnActivity instant | Clock instant

definition new_tray :: tray where
  "new_tray = \<lparr>tr_title = ''Connecting'' @ [CHR 0xE2, CHR 0x80, CHR 0xA6], tr_active = False, tr_revert = None\<rparr>"

fun tray_step :: "tray \<Rightarrow> tray_event \<Rightarrow> tray" where
  "tray_step s (OnStatus connected) = s\<lparr>tr_title := (if connected then [CHR 0xE2, CHR 0x97, CHR 0x8F] @ '' Connected''
     else [CHR 0xE2, CHR 0x97, CHR 0x8B] @ '' Disconnected'')\<rparr>"
| "tray_step s (OnActivity t) = s\<lparr>tr_active := True, tr_revert := Some (t + 2 * second)\<rparr>"
| "tray_step s (Clock t) = (case tr_revert s of
     Some d \<Rightarrow> if d \<le> t then s\<lparr>tr_active := False, tr_revert := None\<rparr> else s
   | None \<Rightarrow> s)"

text \<open>The end of \<open>runTray\<close>: when the session is over, its error is only logged, the tray quits and the process with it.\<close>

definition agent_exit :: "nat + string \<times> string \<Rightarrow> session \<Rightarrow> nat option" where
  "agent_exit r s = (case r of Inl n \<Rightarrow> Some n | Inr _ \<Rightarrow> (case ss_result s of None \<Rightarrow> None | Some _ \<Rightarrow> Some 0))"

definition icon_paths :: "string list" where
  "icon_paths = concat (map (\<lambda>size. let s = Itoa size @ ''x'' @ Itoa size in
     [''/usr/share/icons/hicolor/'' @ s @ ''/apps/preferences-system.png'',
      ''/usr/share/icons/Adwaita/'' @ s @ ''/legacy/preferences-system.png'',
      ''/usr/share/icons/Papirus/'' @ s @ ''/apps/preferences-system.png'',
      ''/usr/share/icons/Papirus/'' @ s @ ''/categories/preferences-system.png'']) [22, 32, 48])"

fun first_readable :: "'h host \<Rightarrow> string list \<Rightarrow> string \<Rightarrow> ('h world, string) state" where
  "first_readable h [] fallback = ret fallback"
| "first_readable h (p # ps) fallback = do {
     r \<leftarrow> os_ReadFile h p;
     (case r of Inr d \<Rightarrow> ret d | Inl _ \<Rightarrow> first_readable h ps fallback)
   }"

definition systemIcon :: "'h host \<Rightarrow> string \<Rightarrow> ('h world, string) state" where
  "systemIcon h generated = first_readable h icon_paths generated"

section \<open>Icons\<close>

type_synonym rgba = "8 word \<times> 8 word \<times> 8 word \<times> 8 word"

record image =
  im_minX :: int
  im_minY :: int
  im_maxX :: int
  im_maxY :: int
  im_at :: "int \<Rightarrow> int \<Rightarrow> rgba"

definition in_bounds :: "image \<Rightarrow> int \<Rightarrow> int \<Rightarrow> bool" where
  "in_bounds im x y \<longleftrightarrow> im_minX im \<le> x \<and> x < im_maxX im \<and> im_minY im \<le> y \<and> y < im_maxY im"

text \<open>\<^verbatim>\<open>RGBA.Set\<close> ignores a point outside of the image.\<close>

definition image_Set :: "rgba \<Rightarrow> image \<Rightarrow> int \<times> int \<Rightarrow> image" where
  "image_Set c im p = (if in_bounds im (fst p) (snd p) then im\<lparr>im_at := (im_at im)(fst p := (im_at im (fst p))(snd p := c))\<rparr> else im)"

definition generatedIcon :: image where
  "generatedIcon = foldl (image_Set (50, 130, 220, 255))
     \<lparr>im_minX = 0, im_minY = 0, im_maxX = 22, im_maxY = 22, im_at = (\<lambda>_ _. (0, 0, 0, 0))\<rparr>
     (concat (map (\<lambda>y. map (\<lambda>x. (x, y)) [0..21]) [0..21]))"

definition dotColor :: rgba where
  "dotColor = (245, 166, 35, 255)"

definition dot_radius :: "image \<Rightarrow> int" where
  "dot_radius im = max ((im_maxX im - im_minX im) div 5) 3"

definition dot_points :: "image \<Rightarrow> (int \<times> int) list" where
  "dot_points im =
     (let r = dot_radius im; cx = im_maxX im - r - 1; cy = im_maxY im - r - 1 in
      filter (\<lambda>(x, y). (x - cx) * (x - cx) + (y - cy) * (y - cy) \<le> r * r)
        (concat (map (\<lambda>y. map (\<lambda>x. (x, y)) [cx - r..cx + r]) [cy - r..cy + r])))"

definition withActivityDot :: "(string \<Rightarrow> image res) \<Rightarrow> (image \<Rightarrow> string) \<Rightarrow> string \<Rightarrow> string" where
  "withActivityDot pngDecode pngEncode iconData = (case pngDecode iconData of
     Inl _ \<Rightarrow> iconData
   | Inr src \<Rightarrow> pngEncode (foldl (image_Set dotColor) src (dot_points src)))"

section \<open>What a session does\<close>

text \<open>The inputs before the stream ends.\<close>

fun session_inputs :: "session_event list \<Rightarrow> agent_input list" where
  "session_inputs (Input i # rest) = i # session_inputs rest"
| "session_inputs _ = []"

lemma recv_loop_run:
  "agent_run user (session_inputs events) (ss_actions s) = (rs, acts) \<Longrightarrow>
   ss_answers (recv_loop user events s) = ss_answers s @ rs \<and> ss_actions (recv_loop user events s) = acts \<and>
   ss_status (recv_loop user events s) = ss_status s \<and>
   ss_activity (recv_loop user events s) = ss_activity s + length (filter is_stream_event (session_inputs events))"
  by (induction user events s arbitrary: rs rule: recv_loop.induct) (auto split: prod.splits)

text \<open>A session is the agent's run over what it received: it answers each request at most as often as it was shown, in the
  user's name, and nothing after the stream has failed. The tray is told of the connection once, and never of
  its loss.\<close>

theorem session_answers_once:
  "mset (map ar_eventId (ss_answers (subscribe desk dial open_stream socketPath user events))) \<subseteq>#
     mset (concat (map asked (session_inputs events))) \<and>
   False \<notin> set (ss_status (subscribe desk dial open_stream socketPath user events))"
proof -
  obtain rs acts where run: "agent_run user (session_inputs events) [] = (rs, acts)" by fastforce
  have "mset (map ar_eventId rs) \<subseteq># mset (concat (map asked (session_inputs events)))"
    using agent_run_accounts[OF run] by (auto simp: open_requests_def intro: subset_mset.order_trans[OF mset_subset_eq_add_left])
  moreover have "ss_answers (recv_loop user events (new_session\<lparr>ss_status := [True]\<rparr>)) = rs"
      "ss_status (recv_loop user events (new_session\<lparr>ss_status := [True]\<rparr>)) = [True]"
    using recv_loop_run[of user events "new_session\<lparr>ss_status := [True]\<rparr>" rs acts] run by (simp_all add: new_session_def)
  ultimately show ?thesis by (auto simp: subscribe_def new_session_def split: option.split)
qed

text \<open>The session ends with the first error of the stream, without an error of its own exactly when the context was
  cancelled.\<close>

lemma recv_loop_ends:
  "recv_loop user (map Input is @ RecvError e ctxDone # rest) s =
   (recv_loop user (map Input is) s)\<lparr>ss_result := Some (if ctxDone then None else Some (Wrap ''recv'' e))\<rparr>"
  by (induction "is" arbitrary: s) (auto split: prod.split)

text \<open>An agent whose stream breaks ends, and its exit code says success.\<close>

lemma broken_stream_exits_0:
  "agent_exit (Inr p) (recv_loop user (map Input is @ RecvError e False # rest) s) = Some 0"
  by (simp add: agent_exit_def recv_loop_ends)

section \<open>The activity icon\<close>

text \<open>The icon is active exactly while the timer is set, and its time is two seconds after the last activity.\<close>

fun last_activity :: "tray_event list \<Rightarrow> instant option" where
  "last_activity [] = None"
| "last_activity (OnActivity t # rest) = Some t"
| "last_activity (_ # rest) = last_activity rest"

lemma tray_timer:
  "(tr_active (foldl tray_step new_tray es) \<longleftrightarrow> tr_revert (foldl tray_step new_tray es) \<noteq> None) \<and>
   (tr_active (foldl tray_step new_tray es) \<longrightarrow>
     tr_revert (foldl tray_step new_tray es) = map_option (\<lambda>t. t + 2 * second) (last_activity (rev es)))"
proof (induction es rule: rev_induct)
  case (snoc e es)
  then show ?case by (cases e) (auto split: option.splits)
qed (simp add: new_tray_def)

text \<open>Two seconds after the last activity the icon is idle again.\<close>

lemma tray_reverts:
  assumes "last_activity (rev es) = Some t" and "t + 2 * second \<le> u"
  shows "\<not> tr_active (foldl tray_step new_tray (es @ [Clock u]))"
  using tray_timer[of es] assms by (auto split: option.splits)

section \<open>The dot\<close>

lemma image_Set_points:
  "im_at (foldl (image_Set c) im ps) x y = (if (x, y) \<in> set ps \<and> in_bounds im x y then c else im_at im x y) \<and>
   in_bounds (foldl (image_Set c) im ps) = in_bounds im"
proof (induction ps rule: rev_induct)
  case (snoc p ps)
  then show ?case by (cases p) (auto simp: image_Set_def in_bounds_def fun_eq_iff)
qed simp

lemma square_bound:
  assumes "(d::int) * d + e * e \<le> r * r" and "0 \<le> r"
  shows "- r \<le> d \<and> d \<le> r"
proof -
  have "d\<^sup>2 \<le> r\<^sup>2" using assms(1) zero_le_square[of e] unfolding power2_eq_square by linarith
  then have "\<bar>d\<bar> \<le> \<bar>r\<bar>" by (simp add: abs_le_square_iff)
  then show ?thesis using assms(2) by linarith
qed

text \<open>The two loops over the square around the disc miss none of its points.\<close>

lemma dot_points_disc:
  assumes "r = dot_radius im" and "cx = im_maxX im - r - 1" and "cy = im_maxY im - r - 1"
  shows "(x, y) \<in> set (dot_points im) \<longleftrightarrow> (x - cx) * (x - cx) + (y - cy) * (y - cy) \<le> r * r"
proof -
  have "0 \<le> r" by (simp add: assms(1) dot_radius_def)
  then show ?thesis
    using square_bound[of "x - cx" "y - cy" r] square_bound[of "y - cy" "x - cx" r] assms
    by (auto simp: dot_points_def Let_def image_iff add.commute)
qed

text \<open>The marked icon is the icon with an amber disc, and the disc lies inside of every icon that is at least seven
  points wide and not much wider than high.\<close>

lemma marked_icon:
  assumes "pngDecode d = Inr src"
  shows "withActivityDot pngDecode pngEncode d = pngEncode (foldl (image_Set dotColor) src (dot_points src))"
    and "im_at (foldl (image_Set dotColor) src (dot_points src)) x y =
      (if (x, y) \<in> set (dot_points src) \<and> in_bounds src x y then dotColor else im_at src x y)"
  using assms image_Set_points[of dotColor src "dot_points src" x y] by (simp_all add: withActivityDot_def)

lemma dot_inside:
  assumes "(x, y) \<in> set (dot_points im)" and "7 \<le> im_maxX im - im_minX im" and "2 * dot_radius im + 1 \<le> im_maxY im - im_minY im"
  shows "in_bounds im x y"
proof -
  have "2 * dot_radius im + 1 \<le> im_maxX im - im_minX im" using assms(2) by (simp add: dot_radius_def)
  then show ?thesis using assms(1,3) by (auto simp: dot_points_def in_bounds_def Let_def)
qed

end
