(* ===== verification/Spec2Isabelle.thy ===== *)
theory Spec2Isabelle
  imports LockerProtocol PoudriereCorrect Approval Access JailTypes BucketGC Daemon AgentSession
begin

text \<open>
  A verification development for \<^verbatim>\<open>nodemanager\<close>, a Kubernetes operator that runs on every machine it
  manages and brings the machine to the state declared in custom resources.

  \<^bold>\<open>The program.\<close> One process per machine (\<^verbatim>\<open>cmd/main.go\<close>) runs up to four reconcilers.
  The ConfigSet reconciler (\<^verbatim>\<open>internal/controller/common/configset_controller.go\<close>) installs packages, writes
  files, configures services and runs commands. The ManagedNode reconciler
  (\<^verbatim>\<open>managednode_controller.go\<close>) keeps labels and status of the machine's own object and upgrades and reboots
  the machine on a schedule. On FreeBSD the jail reconciler and the Poudriere reconciler
  (\<^verbatim>\<open>internal/controller/freebsd\<close>) provision jails over ZFS (\<^verbatim>\<open>pkg/jail\<close>, \<^verbatim>\<open>pkg/zfs\<close>) and build packages
  (\<^verbatim>\<open>pkg/poudriere\<close>). Upgrades, jail updates and service restarts of a group take turns through a
  lease (\<^verbatim>\<open>pkg/locker\<close>). A notification server (\<^verbatim>\<open>internal/notification\<close>) asks the users of the machine, through
  a desktop agent (\<^verbatim>\<open>cmd/agent\<close>), to approve an upgrade. An admission webhook (\<^verbatim>\<open>internal/webhook\<close>) keeps
  the machines' accounts from changing specifications, and \<^verbatim>\<open>cmd/bootstrap.go\<close> issues these accounts.

  \<^bold>\<open>How it is modelled.\<close> A program is a value of the state monad over \<open>'h world\<close> (theory \<open>World\<close>): the file system,
  a trace of everything done to the outside (commands run, handler calls, API writes, each with its outcome),
  what a reconciler keeps in memory, and a state \<open>'h\<close> of the outside of which nothing is known. Hosts,
  API servers and third-party libraries are records of functions on \<open>'h\<close> passed as arguments: \<open>host\<close> (commands,
  clock, users, injected file system faults), \<open>client\<close> (the API server), \<open>net\<close>, \<open>kube\<close>, \<open>notifier\<close>, the cron
  parser, the INI reader, the template engine, the key generator. Errors are values of \<open>err\<close>; \<open>res\<close> is the sum
  type of fallible results and \<open>err option\<close> a Go error. The early returns of Go are \<open>check\<close>, \<open>check_fail\<close>,
  \<open>or_return\<close> and \<open>or_fail\<close> (\<open>Prelude\<close>). Go strings are byte lists, maps association lists, 32 and 64 bit
  quantities words where they can wrap, instants and durations integers in nanoseconds.

  \<^bold>\<open>The theories.\<close>
  \<^item> \<open>Prelude\<close>, \<open>World\<close>, \<open>OsFile\<close>: errors, early returns, the world, \<^verbatim>\<open>package os\<close> over a file system with
    links, modes, owners and faults, \<^verbatim>\<open>pkg/execs\<close>. \<open>emits P m\<close> and \<open>leaves f m\<close> say which events a program may
    add and which parts of the world it keeps; their rules are the collections \<open>emits_rules\<close> and
    \<open>leaves_rules\<close>.
  \<^item> \<open>GoStrings\<close>, \<open>GoPath\<close>, \<open>GoSlices\<close>, \<open>GoTime\<close>, \<open>GoJson\<close>, \<open>GoAny\<close>, \<open>Sha256\<close>: what the sources use of Go's
    standard library, computed: string functions, \<^verbatim>\<open>filepath\<close>, sorting, durations and times, the JSON scanner
    with struct decoding, \<^verbatim>\<open>float64\<close> rounding, SHA-256.
  \<^item> \<open>ApiTypes\<close>, \<open>ApiServer\<close>: the custom resources of \<^verbatim>\<open>api/\<close> as records, and a reference API server with
    resource versions, the instance every witness runs on.
  \<^item> \<open>Files\<close> (\<^verbatim>\<open>pkg/files\<close>), \<open>Systems\<close> (\<^verbatim>\<open>pkg/handler\<close>, \<^verbatim>\<open>packages\<close>, \<^verbatim>\<open>services\<close>, \<^verbatim>\<open>nodes\<close>, \<^verbatim>\<open>os\<close>, \<^verbatim>\<open>system\<close>):
    the handlers of the supported systems. The locale \<open>system_service\<close> is their contract, interpreted for Arch
    Linux, Alpine and FreeBSD.
  \<^item> \<open>Locker\<close>, \<open>LockerProtocol\<close> (\<^verbatim>\<open>pkg/locker\<close>): the lease locker against any server, the abstract lock it
    implements, the locale \<open>lock_service\<close> its clients rely on (interpreted as \<open>lease\<close>), and the interleaving of
    any number of nodes.
  \<^item> \<open>Common\<close>, \<open>ConfigSetApply\<close>, \<open>ConfigSet\<close>, \<open>ConfigSetCorrect\<close>: the ConfigSet reconciler and its properties.
  \<^item> \<open>NodeStatus\<close>, \<open>Upgrade\<close>, \<open>UpgradeCorrect\<close>, \<open>DrainCorrect\<close>, \<open>NodeStatusCorrect\<close>: the ManagedNode reconciler.
    \<open>Trace\<close> is the calculus of handler calls (\<open>makes\<close>) these proofs use, \<open>ExecTrace\<close> (\<open>does\<close>) the one that
    keeps the commands; the locale \<open>drain_clock\<close> states what a drain needs of the clock to end.
  \<^item> \<open>Zfs\<close>, \<open>JailConfig\<close>, \<open>JailManager\<close>, \<open>JailController\<close>, \<open>JailConfigCorrect\<close>, \<open>JailCorrect\<close>, \<open>JailTypes\<close>: jails,
    with the declared type of what is written to their status.
  \<^item> \<open>Poudriere\<close>, \<open>PoudriereCorrect\<close>: package builds.
  \<^item> \<open>Notification\<close>, \<open>NotificationCorrect\<close>, \<open>Agent\<close>, \<open>Approval\<close>: the notification server, its protocol with any
    number of agents, scripts and upgrade handlers, the desktop agent, and the locale \<open>approval_service\<close> of what the
    upgrade handler relies on, interpreted for the server (\<open>served\<close>).
  \<^item> \<open>Webhook\<close>, \<open>WebhookCorrect\<close>, \<open>Bootstrap\<close>, \<open>Access\<close>: the admission decision, the issued accounts and their
    rights, and both against what the controllers write.
  \<^item> \<open>Process\<close>, \<open>Config\<close>, \<open>Daemon\<close>, \<open>BucketGC\<close>: the choice of subcommand and controllers, the watches on the node
    and the SIGHUP trigger; package \<^verbatim>\<open>flag\<close>, the flags and defaults of every component and \<^verbatim>\<open>loadConfig\<close>; the daemon
    from the loaded configuration to the running manager; the loop that collects the file bucket.
  \<^item> \<open>AgentSession\<close>: the agent's subcommands and flags, a session with the daemon, and its tray.
  \<^item> This theory: groups, across the locker and the two controllers that wait for it.

  \<^bold>\<open>What is shown.\<close> Locking: mutual exclusion under all interleavings, refinement of the abstract lock, and the
  cases in which a lease blocks too long or is held twice. ConfigSets: a host is touched only for a matching
  ConfigSet without conflicts; conflicts, packages, files, purges, restarts and status entries are exactly as
  declared. Upgrades: nothing disruptive without lock, approval and the elapsed delay, a reboot only after a
  recorded upgrade, drains evict the drainable pods and end, only own cordons are lifted. Jails: teardown before
  the finalizer goes, nothing destroyed but the jail's own data or a root of another release, updates restart the
  jail, templates are overridden field by field. Notifications: order, bounds and delivery of events, the first
  answer wins, one answer per question. Access: the webhook's decision, and that the controllers stay within the
  role and pass the webhook. Start-up: the command line overrides the configuration file exactly in what it names,
  and a configuration that is only verified starts nothing. Parsers are shown by round trips with the printers of the commands they read.
  Some theorems state behaviour that contradicts the code's own intent; their text says so.

  \<^bold>\<open>Loops.\<close> \<open>lock_loop\<close> and \<open>unlock_loop\<close> are partial functions; \<open>LockFor_returns\<close> and \<open>LockFor_implements_lock\<close> show that
  they return. \<open>drain_wait\<close> has fuel \<open>drain_fuel\<close>, one round per five seconds of the timeout and two more, enough on any
  \<open>drain_clock\<close>. The JSON parser has fuel twice the length of the text and two, enough because every second
  call consumes a byte. Symbolic links are followed at most 40 times, as in the kernel, and an update that
  meets a conflict is tried at most four times, as \<^verbatim>\<open>retry.DefaultBackoff\<close> has it.

  \<^bold>\<open>Not modelled.\<close> Logging, tracing and Prometheus counters, which no decision reads (the one gauge with state
  of its own is in \<open>ConfigSet\<close>); the YAML decoder, the expansion of environment variables, the PNG codec, TLS and the
  controller manager, which are parameters; the gRPC and D-Bus transports; generated deep copies and protocol
  buffers. Reconciles of one controller are sequential, as the manager runs them; what other processes do to
  the file system during a reconcile is seen only as the results the host parameter returns.
\<close>

section \<open>Groups\<close>

text \<open>
  Node upgrades and jail updates of one group take turns through a lease. The locker's contract
  (\<open>lock_service\<close>, interpreted for the lease locker as \<open>lease\<close>) is all the two controllers rely on.
\<close>

lemma busy_not_Locked:
  assumes "lease_busy l s req"
  shows "run_state (lk_Locked (lease_Locker ref_host store_client l) req) s = (False, s)"
  using assms
  by (auto simp: lease_busy_def lock_view_def lease_Locker_def Locked_def get_lease_def as_lease_def store_get_def
      split: option.splits kobj.splits sum.splits)

lemma busy_LockFor:
  assumes "lease_inv l s" and "lease_busy l s req"
  obtains e s' where "run_state (lk_LockFor (lease_Locker ref_host store_client l) req d) s = (Some e, s')"
    and "lock_view s' req = lock_view s req"
proof -
  obtain r s' where r: "run_state (lk_LockFor (lease_Locker ref_host store_client l) req d) s = (r, s')"
    by (metis surj_pair)
  moreover have "lock_view s' req = lock_view s req"
    using lease_LockFor(1)[OF assms(1) r] assms(2) by (auto simp: lease_busy_def spec_lock_def split: option.splits)
  moreover obtain e where "r = Some e" using lease.lock_refused[OF assms r] by auto
  ultimately show thesis using that by simp
qed

text \<open>What a controller may do while its group is busy: try for the lock and be refused.\<close>

definition waits :: "nsname \<Rightarrow> api world \<Rightarrow> api world \<Rightarrow> bool" where
  "waits req w w' \<longleftrightarrow> (\<exists>es. w_trace w' = w_trace w @ es \<and> (es = [] \<or> (\<exists>d. es = [EvCall (LockForCall req d) False]))) \<and>
     lock_view (w_ext w') req = lock_view (w_ext w) req"

lemma waits_refl [simp]: "waits req w w"
  by (simp add: waits_def)

lemma busy_called:
  assumes "lease_inv l (w_ext w)" and "lease_busy l (w_ext w) req" and "lk = lease_Locker ref_host store_client l"
  shows "\<exists>e w'. run_state (called (LockForCall req d) (ext (lk_LockFor lk req d))) w = (Some e, w') \<and> waits req w w'"
  by (rule busy_LockFor[OF assms(1,2), of d]) (simp add: called_def assms(3) waits_def)

lemma busy_upgrade_locked:
  assumes "lease_inv l (w_ext w)" and "lease_busy l (w_ext w) req" and "upgrade_group node = Some req"
    and "e_host (me_env me) = ref_host" and "e_locker (me_env me) = lease_Locker ref_host store_client l"
    and "run_state (upgrade_locked me node sched nx delay) w = (r, w')"
  shows "waits req w w'"
proof -
  let ?d = "time_sub (sched (as_now (w_ext w))) (as_now (w_ext w))"
  from busy_called[OF assms(1,2,5), of ?d] assms(3,4,6) show ?thesis
    by (auto simp: upgrade_locked_def lockfor_call_def now_def split: if_splits)
qed

lemma busy_update_locked:
  assumes "lease_inv l (w_ext w)" and "lease_busy l (w_ext w) req" and "update_group j = Some req"
    and "e_host (je_env je) = ref_host" and "e_locker (je_env je) = lease_Locker ref_host store_client l"
    and "run_state (update_locked je j root sched nx) w = (r, w')"
  shows "waits req w w'"
proof -
  let ?d = "time_sub (sched (as_now (w_ext w))) (as_now (w_ext w))"
  from busy_called[OF assms(1,2,5), of ?d] assms(3,4,6) show ?thesis
    by (auto simp: update_locked_def now_def split: if_splits)
qed


definition busy_world :: "api world" where
  "busy_world = demo_world [((KLease, demo_req), OLease (new_lease demo_req demo_data))] []"

definition group_node :: managednode where
  "group_node = demo_upgrade_node\<lparr>mn_spec := (mn_spec demo_upgrade_node)\<lparr>mns_upgrade :=
     \<lparr>up_group = ''group'', up_schedule = ''@daily'', up_delay = ''12h''\<rparr>\<rparr>\<rparr>"

definition group_jail :: jail where
  "group_jail = demo_jail\<lparr>j_spec := demo_jail_spec\<lparr>js_update :=
     \<lparr>ju_schedule = ''@daily'', ju_delay = ''12h'', ju_group = ''group''\<rparr>\<rparr>\<rparr>"

lemma busy_world_lease:
  "lease_inv (NewLeaseLocker default_locker_config ''ns'' ''n1'') (w_ext busy_world)"
  "lease_busy (NewLeaseLocker default_locker_config ''ns'' ''n1'') (w_ext busy_world) demo_req"
proof -
  have e: "expiry demo_data = Some (60 * second)" by code_simp
  then show "lease_inv (NewLeaseLocker default_locker_config ''ns'' ''n1'') (w_ext busy_world)"
    by (auto simp: lease_inv_def may_try_def NewLeaseLocker_def default_locker_config_def lease_ok_def busy_world_def
        demo_world_def key_of_def new_lease_def demo_req_def split: if_splits)
  from e show "lease_busy (NewLeaseLocker default_locker_config ''ns'' ''n1'') (w_ext busy_world) demo_req"
    by (simp add: lease_busy_def lock_view_def busy_world_def demo_world_def new_lease_def second_def held_by_def
        NewLeaseLocker_def demo_data_def lock_data_def locker_of_def)
qed


end
